(* ===== verification/Regex.thy ===== *)
theory Regex
  imports Prelude
begin

text \<open>
  The fragment of Go's package regexp the sidecar's patterns use: character classes,
  concatenation, alternation, repetition \<open>*\<close> and the bounded repetition \<open>{0,n}\<close>, every
  pattern anchored at both ends (\<open>^...$\<close> without flags, so \<open>MatchString\<close> asks whether the
  whole text is in the language).  \<open>matches\<close> decides it by derivatives; \<open>matches_lang\<close>
  proves the decision equivalent to the set semantics \<open>lang\<close>, and the lemmas about
  character counts turn each pattern into a readable condition.
\<close>

datatype regex =
    Nothing
  | Empty
  | Class "(char \<times> char) list"
  | Alt regex regex
  | Seq regex regex
  | Many regex
  | UpTo nat regex

definition in_class :: "(char \<times> char) list \<Rightarrow> char \<Rightarrow> bool" where
  "in_class rs c = list_ex (\<lambda>(lo, hi). in_range lo hi c) rs"

definition lit :: "char \<Rightarrow> regex" where "lit c = Class [(c, c)]"

fun text_re :: "string \<Rightarrow> regex" where
  "text_re [] = Empty"
| "text_re (c # s) = Seq (lit c) (text_re s)"

definition opt_re :: "regex \<Rightarrow> regex" where "opt_re r = UpTo 1 r"

fun exactly :: "nat \<Rightarrow> regex \<Rightarrow> regex" where
  "exactly 0 r = Empty"
| "exactly (Suc n) r = Seq r (exactly n r)"

section \<open>Set semantics\<close>

definition conc :: "string set \<Rightarrow> string set \<Rightarrow> string set" where
  "conc L M = {u @ v | u v. u \<in> L \<and> v \<in> M}"

fun power_lang :: "nat \<Rightarrow> string set \<Rightarrow> string set" where
  "power_lang 0 L = {[]}"
| "power_lang (Suc n) L = conc L (power_lang n L)"

fun lang :: "regex \<Rightarrow> string set" where
  "lang Nothing = {}"
| "lang Empty = {[]}"
| "lang (Class rs) = {[c] | c. in_class rs c}"
| "lang (Alt r s) = lang r \<union> lang s"
| "lang (Seq r s) = conc (lang r) (lang s)"
| "lang (Many r) = (\<Union>n. power_lang n (lang r))"
| "lang (UpTo n r) = (\<Union>m \<le> n. power_lang m (lang r))"

section \<open>Matching by derivatives\<close>

fun nullable :: "regex \<Rightarrow> bool" where
  "nullable Nothing = False"
| "nullable Empty = True"
| "nullable (Class rs) = False"
| "nullable (Alt r s) = (nullable r \<or> nullable s)"
| "nullable (Seq r s) = (nullable r \<and> nullable s)"
| "nullable (Many r) = True"
| "nullable (UpTo n r) = True"

fun alt :: "regex \<Rightarrow> regex \<Rightarrow> regex" where
  "alt Nothing s = s"
| "alt r Nothing = r"
| "alt r s = (if r = s then r else Alt r s)"

fun seq :: "regex \<Rightarrow> regex \<Rightarrow> regex" where
  "seq Nothing s = Nothing"
| "seq r Nothing = Nothing"
| "seq Empty s = s"
| "seq r s = Seq r s"

fun upto_re :: "nat \<Rightarrow> regex \<Rightarrow> regex" where
  "upto_re 0 r = Empty"
| "upto_re (Suc n) r = UpTo (Suc n) r"

fun deriv :: "char \<Rightarrow> regex \<Rightarrow> regex" where
  "deriv c Nothing = Nothing"
| "deriv c Empty = Nothing"
| "deriv c (Class rs) = (if in_class rs c then Empty else Nothing)"
| "deriv c (Alt r s) = alt (deriv c r) (deriv c s)"
| "deriv c (Seq r s) =
     (if nullable r then alt (seq (deriv c r) s) (deriv c s) else seq (deriv c r) s)"
| "deriv c (Many r) = seq (deriv c r) (Many r)"
| "deriv c (UpTo n r) = (if n = 0 then Nothing else seq (deriv c r) (upto_re (n - 1) r))"

fun matches :: "regex \<Rightarrow> string \<Rightarrow> bool" where
  "matches r [] = nullable r"
| "matches r (c # s) = matches (deriv c r) s"

section \<open>The matcher decides the language\<close>

lemma conc_empty [simp]: "conc {} M = {}" "conc L {} = {}" "conc {[]} M = M"
  by (auto simp: conc_def)

lemma Nil_in_conc [simp]: "[] \<in> conc L M \<longleftrightarrow> [] \<in> L \<and> [] \<in> M"
  by (auto simp: conc_def)

lemma Cons_in_conc:
  "c # w \<in> conc L M \<longleftrightarrow>
     ([] \<in> L \<and> c # w \<in> M) \<or> w \<in> conc {u. c # u \<in> L} M"
  unfolding conc_def by (auto simp: Cons_eq_append_conv)

lemma concI: "u \<in> L \<Longrightarrow> v \<in> M \<Longrightarrow> u @ v \<in> conc L M"
  by (auto simp: conc_def)

lemma concE: "w \<in> conc L M \<Longrightarrow> (\<And>u v. w = u @ v \<Longrightarrow> u \<in> L \<Longrightarrow> v \<in> M \<Longrightarrow> P) \<Longrightarrow> P"
  by (auto simp: conc_def)

lemma in_concI: "c # u \<in> L \<Longrightarrow> v \<in> M \<Longrightarrow> c # u @ v \<in> conc L M"
  using concI [of "c # u"] by simp

lemma in_conc_class [simp]:
  "w \<in> conc {[c] | c. P c} M \<longleftrightarrow> (\<exists>c v. w = c # v \<and> P c \<and> v \<in> M)"
proof (cases w)
  case (Cons d x)
  have "{u. d # u \<in> {[c] | c. P c}} = (if P d then {[]} else {})" by auto
  with Cons show ?thesis by (auto simp: Cons_in_conc)
qed auto

lemma lang_alt [simp]: "lang (alt r s) = lang r \<union> lang s"
  by (cases "(r, s)" rule: alt.cases) auto

lemma lang_seq [simp]: "lang (seq r s) = conc (lang r) (lang s)"
  by (cases "(r, s)" rule: seq.cases) auto

lemma lang_upto_re [simp]: "lang (upto_re n r) = (\<Union>m \<le> n. power_lang m (lang r))"
  by (cases n) auto

lemma conc_Union [simp]: "conc L (\<Union>i \<in> I. M i) = (\<Union>i \<in> I. conc L (M i))"
  by (auto simp: conc_def)

lemma Nil_in_power [simp]: "\<exists>m \<in> {..n}. [] \<in> power_lang m L" "\<exists>m. [] \<in> power_lang m L"
  by (rule bexI [of _ 0] exI [of _ 0], simp_all)+

lemma nullable_lang: "nullable r \<longleftrightarrow> [] \<in> lang r"
  by (induction r) auto

text \<open>
  A nonempty word of a power splits after the first nonempty factor; the empty factors
  before it only lower the exponent.
\<close>

lemma power_lang_Cons:
  "c # w \<in> power_lang n L \<Longrightarrow>
     \<exists>m u v. m < n \<and> w = u @ v \<and> c # u \<in> L \<and> v \<in> power_lang m L"
proof (induction n)
  case 0
  then show ?case by simp
next
  case (Suc n)
  then consider "c # w \<in> power_lang n L"
    | u v where "w = u @ v" "c # u \<in> L" "v \<in> power_lang n L"
    by (auto simp: Cons_in_conc elim: concE)
  then show ?case
  proof cases
    case 1
    with Suc.IH show ?thesis by (meson less_SucI)
  next
    case 2
    then show ?thesis by blast
  qed
qed

lemma Cons_in_power:
  assumes "c # w \<in> power_lang n L" and "{..<n} \<subseteq> {m. Suc m \<in> M}"
  shows "w \<in> (\<Union>m \<in> {m. Suc m \<in> M}. conc {u. c # u \<in> L} (power_lang m L))"
proof -
  from power_lang_Cons [OF assms(1)] obtain m u v
    where m: "m < n" and w: "w = u @ v" and u: "c # u \<in> L" and v: "v \<in> power_lang m L" by blast
  from u v have "w \<in> conc {u. c # u \<in> L} (power_lang m L)" by (simp add: w concI)
  with m assms(2) show ?thesis by blast
qed

lemma lang_deriv: "lang (deriv c r) = {w. c # w \<in> lang r}"
proof (induction r)
  case (Seq r s)
  then show ?case by (auto simp: nullable_lang Cons_in_conc)
next
  case (Many r)
  have "w \<in> lang (deriv c (Many r)) \<longleftrightarrow> c # w \<in> lang (Many r)" for w
  proof
    assume "w \<in> lang (deriv c (Many r))"
    then obtain u v n where "w = u @ v" "c # u \<in> lang r" "v \<in> power_lang n (lang r)"
      by (auto simp: Many.IH conc_def)
    then have "c # w \<in> power_lang (Suc n) (lang r)" by (simp add: in_concI)
    then show "c # w \<in> lang (Many r)" by (auto simp del: power_lang.simps)
  next
    assume "c # w \<in> lang (Many r)"
    then obtain n where "c # w \<in> power_lang n (lang r)" by auto
    from Cons_in_power [OF this, of UNIV]
    have "w \<in> (\<Union>m \<in> {m. Suc m \<in> UNIV}. conc {u. c # u \<in> lang r} (power_lang m (lang r)))"
      by simp
    then show "w \<in> lang (deriv c (Many r))" by (simp add: Many.IH)
  qed
  then show ?case by blast
next
  case (UpTo n r)
  have "w \<in> lang (deriv c (UpTo n r)) \<longleftrightarrow> c # w \<in> lang (UpTo n r)" for w
  proof
    assume "w \<in> lang (deriv c (UpTo n r))"
    then obtain u v m where "w = u @ v" "c # u \<in> lang r" "v \<in> power_lang m (lang r)" "Suc m \<le> n"
      by (cases n) (auto simp: UpTo.IH conc_def)
    then have "c # w \<in> power_lang (Suc m) (lang r)" by (simp add: in_concI)
    with \<open>Suc m \<le> n\<close> show "c # w \<in> lang (UpTo n r)" by (auto simp del: power_lang.simps)
  next
    assume "c # w \<in> lang (UpTo n r)"
    then obtain k where power: "c # w \<in> power_lang k (lang r)" and k: "k \<le> n" by auto
    from k have sub: "{..<k} \<subseteq> {m. Suc m \<in> {..n}}" by auto
    from Cons_in_power [OF power sub]
    have "w \<in> (\<Union>m \<in> {m. Suc m \<le> n}. conc {u. c # u \<in> lang r} (power_lang m (lang r)))"
      by simp
    moreover from this have "n \<noteq> 0" by auto
    ultimately show "w \<in> lang (deriv c (UpTo n r))" by (cases n) (auto simp: UpTo.IH)
  qed
  then show ?case by blast
qed auto

theorem matches_lang: "matches r s \<longleftrightarrow> s \<in> lang r"
  by (induction s arbitrary: r) (simp_all add: nullable_lang lang_deriv)

section \<open>Reading a pattern as a condition\<close>

lemma power_class:
  "w \<in> power_lang n {[c] | c. in_class rs c} \<longleftrightarrow> length w = n \<and> list_all (in_class rs) w"
proof (induction n arbitrary: w)
  case (Suc n)
  then show ?case by (cases w) auto
qed auto

lemma in_lang_upto_class:
  "w \<in> lang (UpTo n (Class rs)) \<longleftrightarrow> length w \<le> n \<and> list_all (in_class rs) w"
  by (simp add: power_class)

lemma in_lang_many_class: "w \<in> lang (Many (Class rs)) \<longleftrightarrow> list_all (in_class rs) w"
  by (simp add: power_class)

lemma in_lang_exactly_class:
  "w \<in> lang (exactly n (Class rs)) \<longleftrightarrow> length w = n \<and> list_all (in_class rs) w"
proof (induction n arbitrary: w)
  case (Suc n)
  then show ?case by (cases w) auto
qed auto

lemma in_lang_class_seq:
  "w \<in> lang (Seq (Class rs) r) \<longleftrightarrow> (\<exists>c v. w = c # v \<and> in_class rs c \<and> v \<in> lang r)"
  by simp

lemma in_lang_text: "w \<in> lang (text_re s) \<longleftrightarrow> w = s"
proof (induction s arbitrary: w)
  case (Cons c s)
  have "in_class [(c, c)] d \<longleftrightarrow> d = c" for d
    by (auto simp: in_class_def in_range_def)
  then show ?case
    by (auto simp: lit_def Cons.IH in_lang_class_seq simp del: lang.simps)
qed auto

lemma in_lang_opt: "w \<in> lang (opt_re r) \<longleftrightarrow> w = [] \<or> w \<in> lang r"
proof -
  have "lang (opt_re r) = power_lang 0 (lang r) \<union> power_lang 1 (lang r)"
    by (simp add: opt_re_def atMost_Suc)
  moreover have "conc L {[]} = L" for L by (auto simp: conc_def)
  ultimately show ?thesis by simp
qed

end
