(* ===== verification/Patterns.thy ===== *)
theory Patterns
  imports Regex
begin

text \<open>
  The regular expressions the packages compile at start-up, written with the constructors
  of Regex, and for each the condition it decides.
\<close>

abbreviation alnum_class :: "(char \<times> char) list" where
  "alnum_class \<equiv> [(CHR ''A'', CHR ''Z''), (CHR ''a'', CHR ''z''), (CHR ''0'', CHR ''9'')]"

abbreviation id_class :: "(char \<times> char) list" where
  "id_class \<equiv> alnum_class @ [(CHR ''.'', CHR ''.''), (CHR ''_'', CHR ''_''), (CHR '':'', CHR '':''), (CHR ''-'', CHR ''-'')]"

abbreviation label_class :: "(char \<times> char) list" where
  "label_class \<equiv> [(CHR ''a'', CHR ''z''), (CHR ''0'', CHR ''9'')]"

abbreviation label_inner_class :: "(char \<times> char) list" where
  "label_inner_class \<equiv> (CHR ''-'', CHR ''-'') # label_class"

definition id_re :: regex where "id_re = Seq (Class alnum_class) (Many (Class id_class))"
definition component_re :: regex where "component_re = Seq (Class alnum_class) (UpTo 127 (Class id_class))"
definition label_re :: regex where
  "label_re = Seq (Class label_class) (opt_re (Seq (UpTo 61 (Class label_inner_class)) (Class label_class)))"
definition trust_domain_re :: regex where
  "trust_domain_re = Seq label_re (Many (Seq (lit CHR ''.'') label_re))"
definition digest_re :: regex where
  "digest_re = Seq (text_re ''sha256:'') (exactly 64 (Class [(CHR ''0'', CHR ''9''), (CHR ''a'', CHR ''f'')]))"
definition sequence_re :: regex where
  "sequence_re = Alt (lit CHR ''0'') (Seq (Class [(CHR ''1'', CHR ''9'')]) (UpTo 19 (Class [(CHR ''0'', CHR ''9'')])))"
definition input_name_re :: regex where
  "input_name_re = Seq (Class [(CHR ''a'', CHR ''z'')]) (UpTo 63 (Class label_inner_class))"
definition puck_type_re :: regex where
  "puck_type_re = Seq (Class [(CHR ''A'', CHR ''Z'')]) (UpTo 63 (Class alnum_class))"

section \<open>The conditions\<close>

definition is_alnum :: "char \<Rightarrow> bool" where "is_alnum c = (is_upper c \<or> is_lower c \<or> is_digit c)"
definition is_id_char :: "char \<Rightarrow> bool" where "is_id_char c = (is_alnum c \<or> c \<in> set ''._:-'')"
definition is_label_char :: "char \<Rightarrow> bool" where "is_label_char c = (is_lower c \<or> is_digit c \<or> c = CHR ''-'')"

text \<open>An id: an alphanumeric character, then id characters.\<close>

definition is_id :: "string \<Rightarrow> bool" where
  "is_id s = (s \<noteq> [] \<and> is_alnum (hd s) \<and> list_all is_id_char s)"

text \<open>A DNS label: 1 to 63 lower-case alphanumerics or hyphens, none at either end.\<close>

definition is_label :: "string \<Rightarrow> bool" where
  "is_label s = (s \<noteq> [] \<and> length s \<le> 63 \<and> list_all is_label_char s \<and> hd s \<noteq> CHR ''-'' \<and> last s \<noteq> CHR ''-'')"

definition is_input_name :: "string \<Rightarrow> bool" where
  "is_input_name s = (s \<noteq> [] \<and> length s \<le> 64 \<and> is_lower (hd s) \<and> list_all is_label_char s)"

definition is_digest :: "string \<Rightarrow> bool" where
  "is_digest s = (has_prefix s ''sha256:'' \<and> length s = 71 \<and> list_all is_lower_hex (drop 7 s))"

text \<open>A sequence number: the canonical decimal form of a number of at most 20 digits.\<close>

definition is_sequence :: "string \<Rightarrow> bool" where
  "is_sequence s = (s \<noteq> [] \<and> length s \<le> 20 \<and> list_all is_digit s \<and> (hd s = CHR ''0'' \<longrightarrow> s = ''0''))"

definition is_puck_type :: "string \<Rightarrow> bool" where
  "is_puck_type s = (s \<noteq> [] \<and> length s \<le> 64 \<and> is_upper (hd s) \<and> list_all is_alnum s)"

section \<open>Each pattern decides its condition\<close>

lemma in_alnum_class: "in_class alnum_class = is_alnum"
  by (auto simp: fun_eq_iff in_class_def is_alnum_def is_upper_def is_lower_def is_digit_def)

lemma in_id_class: "in_class id_class = is_id_char"
  by (auto simp: fun_eq_iff in_class_def is_id_char_def is_alnum_def is_upper_def is_lower_def
      is_digit_def in_range_def)

lemma in_label_class: "in_class label_class c \<longleftrightarrow> is_label_char c \<and> c \<noteq> CHR ''-''"
  by (auto simp: in_class_def is_label_char_def is_lower_def is_digit_def in_range_def)

lemma in_label_inner_class: "in_class label_inner_class = is_label_char"
  by (auto simp: fun_eq_iff in_class_def is_label_char_def is_lower_def is_digit_def in_range_def)

lemma is_alnum_id: "is_alnum c \<Longrightarrow> is_id_char c"
  by (simp add: is_id_char_def)

lemma id_re_iff [simp]: "matches id_re s \<longleftrightarrow> is_id s"
  unfolding matches_lang id_re_def in_lang_class_seq in_lang_many_class in_alnum_class in_id_class is_id_def
  by (cases s) (auto simp: is_alnum_id)

lemma component_re_iff [simp]: "matches component_re s \<longleftrightarrow> is_id s \<and> length s \<le> 128"
  unfolding matches_lang component_re_def in_lang_class_seq in_lang_upto_class in_alnum_class in_id_class is_id_def
  by (cases s) (auto simp: is_alnum_id)

lemma input_name_re_iff [simp]: "matches input_name_re s \<longleftrightarrow> is_input_name s"
proof -
  have "in_class [(CHR ''a'', CHR ''z'')] = is_lower"
    by (auto simp: fun_eq_iff in_class_def is_lower_def)
  then show ?thesis
    unfolding matches_lang input_name_re_def in_lang_class_seq in_lang_upto_class in_label_inner_class
      is_input_name_def
    by (cases s) (auto simp: is_label_char_def)
qed

lemma puck_type_re_iff [simp]: "matches puck_type_re s \<longleftrightarrow> is_puck_type s"
proof -
  have "in_class [(CHR ''A'', CHR ''Z'')] = is_upper"
    by (auto simp: fun_eq_iff in_class_def is_upper_def)
  then show ?thesis
    unfolding matches_lang puck_type_re_def in_lang_class_seq in_lang_upto_class in_alnum_class
      is_puck_type_def
    by (cases s) (auto simp: is_alnum_def)
qed

lemma nonzero_code: "c = CHR ''0'' \<longleftrightarrow> (of_char c :: nat) = 48"
  using of_char_eq_iff [of c "CHR ''0''", where 'a = nat] by (simp del: of_char_eq_iff)

lemma sequence_re_iff [simp]: "matches sequence_re s \<longleftrightarrow> is_sequence s"
proof -
  have d: "in_class [(CHR ''0'', CHR ''9'')] = is_digit"
    by (auto simp: fun_eq_iff in_class_def is_digit_def)
  have nz: "in_class [(CHR ''1'', CHR ''9'')] c \<longleftrightarrow> is_digit c \<and> c \<noteq> CHR ''0''" for c
    by (auto simp: in_class_def is_digit_def in_range_def less_eq_char_def nonzero_code)
  have "s \<in> lang sequence_re \<longleftrightarrow> s = ''0''
      \<or> (\<exists>c v. s = c # v \<and> (is_digit c \<and> c \<noteq> CHR ''0'') \<and> length v \<le> 19 \<and> list_all is_digit v)"
    unfolding sequence_re_def lang.simps(4) Un_iff in_lang_class_seq in_lang_upto_class d nz
    by (auto simp: lit_def in_class_def in_range_def)
  also have "\<dots> \<longleftrightarrow> is_sequence s"
    by (cases s) (auto simp: is_sequence_def is_digit_def in_range_def)
  finally show ?thesis by (simp add: matches_lang)
qed

lemma in_lang_text_seq: "w \<in> lang (Seq (text_re s) r) \<longleftrightarrow> (\<exists>v. w = s @ v \<and> v \<in> lang r)"
  by (auto simp: conc_def in_lang_text)

lemma digest_re_iff [simp]: "matches digest_re s \<longleftrightarrow> is_digest s"
proof -
  have "in_class [(CHR ''0'', CHR ''9''), (CHR ''a'', CHR ''f'')] = is_lower_hex"
    by (auto simp: fun_eq_iff in_class_def is_lower_hex_def is_digit_def)
  then have "s \<in> lang digest_re \<longleftrightarrow>
      (\<exists>v. s = ''sha256:'' @ v \<and> length v = 64 \<and> list_all is_lower_hex v)"
    unfolding digest_re_def in_lang_text_seq in_lang_exactly_class by simp
  also have "\<dots> \<longleftrightarrow> is_digest s"
  proof
    assume "is_digest s"
    then obtain v where "s = ''sha256:'' @ v" by (auto simp: is_digest_def has_prefix_iff)
    with \<open>is_digest s\<close> show "\<exists>v. s = ''sha256:'' @ v \<and> length v = 64 \<and> list_all is_lower_hex v"
      by (auto simp: is_digest_def)
  qed (auto simp: is_digest_def has_prefix_def)
  finally show ?thesis by (simp add: matches_lang)
qed

lemma in_lang_seq_class:
  "w \<in> lang (Seq r (Class rs)) \<longleftrightarrow> (\<exists>m c. w = m @ [c] \<and> m \<in> lang r \<and> in_class rs c)"
  by (auto simp: conc_def)

lemma label_re_iff [simp]: "matches label_re s \<longleftrightarrow> is_label s"
proof -
  have "s \<in> lang label_re \<longleftrightarrow> (\<exists>c v. s = c # v \<and> (is_label_char c \<and> c \<noteq> CHR ''-'') \<and>
      (v = [] \<or> (\<exists>m z. v = m @ [z] \<and> (length m \<le> 61 \<and> list_all is_label_char m)
         \<and> is_label_char z \<and> z \<noteq> CHR ''-'')))"
    unfolding label_re_def in_lang_class_seq in_lang_opt in_lang_seq_class in_lang_upto_class
      in_label_class in_label_inner_class by simp
  also have "\<dots> \<longleftrightarrow> is_label s"
  proof (cases s)
    case (Cons c v)
    then show ?thesis by (cases v rule: rev_cases) (auto simp: is_label_def)
  qed (simp add: is_label_def)
  finally show ?thesis by (simp add: matches_lang)
qed

end
