(* ===== verification/Spiffe.thy ===== *)
theory Spiffe
  imports Patterns
begin

text \<open>
  internal/identity/spiffe.go: the workload identity in the URI SAN of a verified
  certificate.  A parsed URL is the fields of \<open>url.URL\<close> the code reads, a certificate the
  fields of \<open>x509.Certificate\<close> it reads; an error names the branch it comes from.
\<close>

record Principal =
  prTrustDomain :: string
  prNamespace :: string
  prServiceAccount :: string

definition Principal_String :: "Principal \<Rightarrow> string" where
  "Principal_String p =
     ''spiffe://'' @ prTrustDomain p @ ''/ns/'' @ prNamespace p @ ''/sa/'' @ prServiceAccount p"

record Workload =
  woNamespace :: string
  woServiceAccount :: string

definition ValidTrustDomain :: "string \<Rightarrow> bool" where
  "ValidTrustDomain s = matches trust_domain_re s"

section \<open>URLs and certificates\<close>

record url =
  uScheme :: string
  uOpaque :: string
  uHasUser :: bool
  uHost :: string
  uPath :: string
  uForceQuery :: bool
  uRawQuery :: string
  uFragment :: string

text \<open>
  \<open>url.URL.Port\<close>: what follows the last colon of the host, when it is digits only.
\<close>

definition url_port :: "url \<Rightarrow> string" where
  "url_port u =
     (let after = rev (takeWhile (\<lambda>c. c \<noteq> CHR '':'') (rev (uHost u)))
      in if CHR '':'' \<in> set (uHost u) \<and> list_all is_digit after then after else [])"

record Certificate =
  certRaw :: bytes
  certIsCA :: bool
  certNotBefore :: time
  certNotAfter :: time
  certSubject :: string
  certURIs :: "url option list"

section \<open>Parsing\<close>

datatype spiffe_error =
    NoURI | NotWorkloadIdentity url | NoTrustDomain url | BadPath url | NoPeerCertificate | URICount nat

definition ParseSPIFFE :: "url option \<Rightarrow> spiffe_error + Principal" where
  "ParseSPIFFE uri =
     (case uri of
        None \<Rightarrow> Inl NoURI
      | Some u \<Rightarrow>
          if uScheme u \<noteq> ''spiffe'' \<or> uHasUser u \<or> uOpaque u \<noteq> [] \<or> uRawQuery u \<noteq> [] \<or> uFragment u \<noteq> []
             \<or> url_port u \<noteq> []
          then Inl (NotWorkloadIdentity u)
          else if \<not> ValidTrustDomain (uHost u) then Inl (NoTrustDomain u)
          else let parts = split_on CHR ''/'' (uPath u) in
            if length parts \<noteq> 5 \<or> parts ! 0 \<noteq> [] \<or> parts ! 1 \<noteq> ''ns'' \<or> parts ! 3 \<noteq> ''sa''
               \<or> \<not> matches label_re (parts ! 2) \<or> \<not> matches label_re (parts ! 4)
            then Inl (BadPath u)
            else Inr \<lparr>prTrustDomain = uHost u, prNamespace = parts ! 2, prServiceAccount = parts ! 4\<rparr>)"

definition PeerPrincipal :: "Certificate option \<Rightarrow> spiffe_error + Principal" where
  "PeerPrincipal leaf =
     (case leaf of
        None \<Rightarrow> Inl NoPeerCertificate
      | Some c \<Rightarrow>
          if length (certURIs c) \<noteq> 1 then Inl (URICount (length (certURIs c)))
          else ParseSPIFFE (certURIs c ! 0))"

section \<open>Trust domains\<close>

text \<open>A trust domain is labels separated by dots.\<close>

definition is_trust_domain :: "string \<Rightarrow> bool" where
  "is_trust_domain s = list_all is_label (split_on CHR ''.'' s)"

lemma is_label_char_class: "is_label_char c \<Longrightarrow> c \<noteq> CHR ''.'' \<and> c \<noteq> CHR ''/'' \<and> c \<noteq> CHR '':''"
  by (auto simp: is_label_char_def is_lower_def is_digit_def in_range_def less_eq_char_def)

lemma is_label_free: "is_label s \<Longrightarrow> CHR ''.'' \<notin> set s \<and> CHR ''/'' \<notin> set s \<and> CHR '':'' \<notin> set s"
  using is_label_char_class by (fastforce simp: is_label_def list_all_iff)

lemma in_lang_dotted:
  "w \<in> lang (Seq (lit CHR ''.'') label_re) \<longleftrightarrow> (\<exists>v. w = CHR ''.'' # v \<and> is_label v)"
proof -
  have "v \<in> lang label_re \<longleftrightarrow> is_label v" for v using label_re_iff [of v] by (simp add: matches_lang)
  moreover have "lang (lit CHR ''.'') = {''.''}" by (auto simp: lit_def in_class_def in_range_def)
  ultimately show ?thesis by (auto simp: conc_def)
qed

lemma split_on_dot:
  "split_on d (u @ d # t) = split_on d u @ split_on d t"
  by (induction u) (auto split: list.split)

lemma power_dotted:
  "w \<in> power_lang n (lang (Seq (lit CHR ''.'') label_re)) \<Longrightarrow>
     w = [] \<or> (\<exists>t. w = CHR ''.'' # t \<and> is_trust_domain t)"
proof (induction n arbitrary: w)
  case (Suc n)
  then obtain u v where w: "w = u @ v" and u: "u \<in> lang (Seq (lit CHR ''.'') label_re)"
    and v: "v \<in> power_lang n (lang (Seq (lit CHR ''.'') label_re))" by (auto elim: concE)
  from u obtain l where l: "u = CHR ''.'' # l" "is_label l" by (auto simp only: in_lang_dotted)
  from Suc.IH [OF v] show ?case
  proof
    assume "v = []"
    with w l is_label_free [OF l(2)] show ?thesis by (simp add: is_trust_domain_def split_on_free)
  next
    assume "\<exists>t. v = CHR ''.'' # t \<and> is_trust_domain t"
    with w l is_label_free [OF l(2)] show ?thesis by (auto simp: is_trust_domain_def split_on_append)
  qed
qed simp

lemma dotted_power:
  "list_all is_label ls \<Longrightarrow>
     concat (map (\<lambda>l. CHR ''.'' # l) ls) \<in> power_lang (length ls) (lang (Seq (lit CHR ''.'') label_re))"
proof (induction ls)
  case (Cons l ls)
  then have "CHR ''.'' # l \<in> lang (Seq (lit CHR ''.'') label_re)" by (simp only: in_lang_dotted list.pred_inject) simp
  from concI [OF this Cons.IH] Cons.prems show ?case by simp
qed simp

lemma join_labels: "join_with [d] (l # ls) = l @ concat (map (\<lambda>l. d # l) ls)"
  by (induction ls arbitrary: l) auto

lemma trust_domain_re_iff [simp]: "matches trust_domain_re s \<longleftrightarrow> is_trust_domain s"
proof -
  let ?D = "lang (Seq (lit CHR ''.'') label_re)"
  have lab: "v \<in> lang label_re \<longleftrightarrow> is_label v" for v using label_re_iff [of v] by (simp add: matches_lang)
  have "s \<in> lang trust_domain_re \<longleftrightarrow> (\<exists>l v n. s = l @ v \<and> is_label l \<and> v \<in> power_lang n ?D)"
    unfolding trust_domain_re_def by (subst lang.simps(5)) (auto simp: conc_def lab simp del: lang.simps(5))
  also have "\<dots> \<longleftrightarrow> is_trust_domain s"
  proof
    assume "\<exists>l v n. s = l @ v \<and> is_label l \<and> v \<in> power_lang n ?D"
    then obtain l v n where s: "s = l @ v" "is_label l" "v \<in> power_lang n ?D" by blast
    from power_dotted [OF s(3)] is_label_free [OF s(2)] s show "is_trust_domain s"
      by (auto simp: is_trust_domain_def split_on_free split_on_append)
  next
    assume d: "is_trust_domain s"
    obtain l ls where sp: "split_on CHR ''.'' s = l # ls" by (cases "split_on CHR ''.'' s") auto
    with d have "is_label l" "list_all is_label ls" by (simp_all add: is_trust_domain_def)
    moreover have "s = l @ concat (map (\<lambda>l. CHR ''.'' # l) ls)"
      using join_split_on [of "CHR ''.''" s] by (simp only: sp join_labels)
    ultimately show "\<exists>l v n. s = l @ v \<and> is_label l \<and> v \<in> power_lang n ?D"
      using dotted_power by blast
  qed
  finally show ?thesis by (simp add: matches_lang)
qed

lemma split_on_char: "c \<in> set s \<Longrightarrow> c = d \<or> (\<exists>w \<in> set (split_on d s). c \<in> set w)"
  by (induction s) (auto split: list.splits)

lemma trust_domain_chars: "is_trust_domain s \<Longrightarrow> c \<in> set s \<Longrightarrow> is_label_char c \<or> c = CHR ''.''"
  using split_on_char [of c s "CHR ''.''"] by (auto simp: is_trust_domain_def is_label_def list_all_iff)

lemma trust_domain_free: "is_trust_domain s \<Longrightarrow> CHR ''/'' \<notin> set s \<and> CHR '':'' \<notin> set s"
  by (auto dest!: trust_domain_chars [rotated] dest: is_label_char_class)

section \<open>What a workload identity is\<close>

definition valid_principal :: "Principal \<Rightarrow> bool" where
  "valid_principal p \<longleftrightarrow>
     is_trust_domain (prTrustDomain p) \<and> is_label (prNamespace p) \<and> is_label (prServiceAccount p)"

text \<open>The URL whose text is the principal's.\<close>

definition principal_url :: "Principal \<Rightarrow> url" where
  "principal_url p =
     \<lparr>uScheme = ''spiffe'', uOpaque = [], uHasUser = False, uHost = prTrustDomain p,
      uPath = ''/ns/'' @ prNamespace p @ ''/sa/'' @ prServiceAccount p, uForceQuery = False,
      uRawQuery = [], uFragment = []\<rparr>"

lemma split_principal_path:
  assumes "is_label n" "is_label a"
  shows "split_on CHR ''/'' (''/ns/'' @ n @ ''/sa/'' @ a) = [[], ''ns'', n, ''sa'', a]"
proof -
  have "split_on CHR ''/'' (n @ CHR ''/'' # ''sa/'' @ a) = n # split_on CHR ''/'' (''sa/'' @ a)"
    by (rule split_on_append) (use is_label_free [OF assms(1)] in simp)
  moreover have "split_on CHR ''/'' a = [a]"
    by (rule split_on_free) (use is_label_free [OF assms(2)] in simp)
  ultimately show ?thesis by simp
qed

lemma five_parts:
  "length ps = 5 \<longleftrightarrow> (\<exists>a b c d e. ps = [a, b, c, d, e])"
  by (auto simp: length_Suc_conv numeral_eq_Suc)

lemma ParseSPIFFE_path:
  "length (split_on d s) = 5 \<Longrightarrow>
     s = split_on d s ! 0 @ [d] @ split_on d s ! 1 @ [d] @ split_on d s ! 2 @ [d] @ split_on d s ! 3 @ [d] @ split_on d s ! 4"
  using join_split_on [of d s] by (auto simp: five_parts)

lemma ParseSPIFFE_Inr:
  "ParseSPIFFE (Some u) = Inr p \<longleftrightarrow>
     valid_principal p \<and> u\<lparr>uForceQuery := False\<rparr> = principal_url p"
proof
  assume "ParseSPIFFE (Some u) = Inr p"
  then have h: "uScheme u = ''spiffe''" "\<not> uHasUser u" "uOpaque u = []" "uRawQuery u = []" "uFragment u = []"
      "is_trust_domain (uHost u)"
    and parts: "length (split_on CHR ''/'' (uPath u)) = 5" "split_on CHR ''/'' (uPath u) ! 0 = []"
      "split_on CHR ''/'' (uPath u) ! 1 = ''ns''" "split_on CHR ''/'' (uPath u) ! 3 = ''sa''"
      "is_label (split_on CHR ''/'' (uPath u) ! 2)" "is_label (split_on CHR ''/'' (uPath u) ! 4)"
    and p: "p = \<lparr>prTrustDomain = uHost u, prNamespace = split_on CHR ''/'' (uPath u) ! 2,
                 prServiceAccount = split_on CHR ''/'' (uPath u) ! 4\<rparr>"
    by (auto simp: ParseSPIFFE_def ValidTrustDomain_def Let_def split: if_splits)
  obtain a b n d m where sp: "split_on CHR ''/'' (uPath u) = [a, b, n, d, m]" using parts(1) by (auto simp: five_parts)
  have "uPath u = ''/ns/'' @ n @ ''/sa/'' @ m"
    using ParseSPIFFE_path [OF parts(1), unfolded sp] parts(2-4) [unfolded sp] by simp
  then show "valid_principal p \<and> u\<lparr>uForceQuery := False\<rparr> = principal_url p"
    using h parts(5,6) [unfolded sp] p [unfolded sp] by (simp add: valid_principal_def principal_url_def)
next
  assume v: "valid_principal p \<and> u\<lparr>uForceQuery := False\<rparr> = principal_url p"
  then have e: "u\<lparr>uForceQuery := False\<rparr> = principal_url p" by simp
  have f: "uScheme u = ''spiffe''" "\<not> uHasUser u" "uOpaque u = []" "uRawQuery u = []" "uFragment u = []"
      "uHost u = prTrustDomain p" "uPath u = ''/ns/'' @ prNamespace p @ ''/sa/'' @ prServiceAccount p"
    using arg_cong [OF e, of uScheme] arg_cong [OF e, of uHasUser] arg_cong [OF e, of uOpaque]
      arg_cong [OF e, of uRawQuery] arg_cong [OF e, of uFragment] arg_cong [OF e, of uHost] arg_cong [OF e, of uPath]
    by (simp_all add: principal_url_def)
  from v have port: "url_port u = []"
    using trust_domain_free [of "prTrustDomain p"] f by (simp add: valid_principal_def url_port_def)
  have sp: "split_on CHR ''/'' (uPath u) = [[], ''ns'', prNamespace p, ''sa'', prServiceAccount p]"
    unfolding f by (rule split_principal_path) (use v in \<open>simp_all add: valid_principal_def\<close>)
  show "ParseSPIFFE (Some u) = Inr p"
    using v f port unfolding ParseSPIFFE_def option.case Let_def sp
    by (simp add: ValidTrustDomain_def valid_principal_def)
qed

lemma principal_text: "Principal_String p = uScheme (principal_url p) @ ''://'' @ uHost (principal_url p) @ uPath (principal_url p)"
  by (simp add: Principal_String_def principal_url_def)

text \<open>The text of a principal determines it.\<close>

lemma Principal_String_inj:
  assumes "valid_principal p" "valid_principal q" "Principal_String p = Principal_String q"
  shows "p = q"
proof -
  have parts: "split_on CHR ''/'' (prTrustDomain r @ ''/ns/'' @ prNamespace r @ ''/sa/'' @ prServiceAccount r)
      = [prTrustDomain r, ''ns'', prNamespace r, ''sa'', prServiceAccount r]" if "valid_principal r" for r
  proof -
    have "split_on CHR ''/'' (prTrustDomain r @ CHR ''/'' # ''ns/'' @ prNamespace r @ ''/sa/'' @ prServiceAccount r)
        = prTrustDomain r # split_on CHR ''/'' (''ns/'' @ prNamespace r @ ''/sa/'' @ prServiceAccount r)"
      by (rule split_on_append) (use trust_domain_free [of "prTrustDomain r"] that in \<open>simp add: valid_principal_def\<close>)
    moreover have "split_on CHR ''/'' (''/ns/'' @ prNamespace r @ ''/sa/'' @ prServiceAccount r)
        = [[], ''ns'', prNamespace r, ''sa'', prServiceAccount r]"
      by (rule split_principal_path) (use that in \<open>simp_all add: valid_principal_def\<close>)
    ultimately show ?thesis by simp
  qed
  have "prTrustDomain p @ ''/ns/'' @ prNamespace p @ ''/sa/'' @ prServiceAccount p
      = prTrustDomain q @ ''/ns/'' @ prNamespace q @ ''/sa/'' @ prServiceAccount q"
    using assms(3) by (simp add: Principal_String_def)
  from arg_cong [OF this, of "split_on CHR ''/''"] show ?thesis
    by (simp only: parts assms(1,2)) simp
qed

end
