(* ===== verification/Digest.thy ===== *)
theory Digest
  imports Prelude "HOL-Library.Word"
begin

text \<open>
  The parts of Go's crypto/sha256 and crypto/hmac the sidecar uses: \<open>sha256.Sum256\<close> as the
  compression of 64-byte blocks over 32-bit words, \<open>hmac.New(sha256.New, key)\<close> written to
  once and summed, and the sidecar's own \<open>DigestOf\<close> (internal/scope/scope.go), the
  \<open>sha256:\<close> prefixed lowercase hexadecimal form of a digest that every manifest, input
  and command identity carries.  Everything is executable.
\<close>

unbundle bit_operations_syntax

type_synonym w32 = "32 word"

section \<open>SHA-256\<close>

definition round_constants :: "w32 list" where
  "round_constants =
     [1116352408, 1899447441, 3049323471, 3921009573, 961987163, 1508970993,
      2453635748, 2870763221, 3624381080, 310598401, 607225278, 1426881987,
      1925078388, 2162078206, 2614888103, 3248222580, 3835390401, 4022224774,
      264347078, 604807628, 770255983, 1249150122, 1555081692, 1996064986,
      2554220882, 2821834349, 2952996808, 3210313671, 3336571891, 3584528711,
      113926993, 338241895, 666307205, 773529912, 1294757372, 1396182291,
      1695183700, 1986661051, 2177026350, 2456956037, 2730485921, 2820302411,
      3259730800, 3345764771, 3516065817, 3600352804, 4094571909, 275423344,
      430227734, 506948616, 659060556, 883997877, 958139571, 1322822218,
      1537002063, 1747873779, 1955562222, 2024104815, 2227730452, 2361852424,
      2428436474, 2756734187, 3204031479, 3329325298]"

definition initial_state :: "w32 list" where
  "initial_state =
     [1779033703, 3144134277, 1013904242, 2773480762, 1359893119, 2600822924,
      528734635, 1541459225]"

definition rotr :: "nat \<Rightarrow> w32 \<Rightarrow> w32" where
  "rotr n x = (drop_bit n x) OR (push_bit (32 - n) x)"

definition big_sigma0 :: "w32 \<Rightarrow> w32" where "big_sigma0 x = rotr 2 x XOR rotr 13 x XOR rotr 22 x"
definition big_sigma1 :: "w32 \<Rightarrow> w32" where "big_sigma1 x = rotr 6 x XOR rotr 11 x XOR rotr 25 x"
definition small_sigma0 :: "w32 \<Rightarrow> w32" where "small_sigma0 x = rotr 7 x XOR rotr 18 x XOR drop_bit 3 x"
definition small_sigma1 :: "w32 \<Rightarrow> w32" where "small_sigma1 x = rotr 17 x XOR rotr 19 x XOR drop_bit 10 x"
definition sha_ch :: "w32 \<Rightarrow> w32 \<Rightarrow> w32 \<Rightarrow> w32" where "sha_ch x y z = (x AND y) XOR ((NOT x) AND z)"
definition sha_maj :: "w32 \<Rightarrow> w32 \<Rightarrow> w32 \<Rightarrow> w32" where
  "sha_maj x y z = (x AND y) XOR (x AND z) XOR (y AND z)"

definition byte_word :: "char \<Rightarrow> w32" where "byte_word c = word_of_int (of_char c)"

definition word_of_bytes :: "char \<Rightarrow> char \<Rightarrow> char \<Rightarrow> char \<Rightarrow> w32" where
  "word_of_bytes a b c d =
     push_bit 24 (byte_word a) OR push_bit 16 (byte_word b) OR push_bit 8 (byte_word c) OR byte_word d"

fun words_of_bytes :: "bytes \<Rightarrow> w32 list" where
  "words_of_bytes (a # b # c # d # r) = word_of_bytes a b c d # words_of_bytes r"
| "words_of_bytes r = []"

definition bytes_of_word :: "w32 \<Rightarrow> bytes" where
  "bytes_of_word w =
     [char_of (uint (drop_bit 24 w)), char_of (uint (drop_bit 16 w)),
      char_of (uint (drop_bit 8 w)), char_of (uint w)]"

text \<open>
  The message schedule, kept newest word first: the next word needs the words 2, 7, 15 and
  16 places back.
\<close>

fun extend_schedule :: "nat \<Rightarrow> w32 list \<Rightarrow> w32 list" where
  "extend_schedule 0 ws = ws"
| "extend_schedule (Suc n) ws =
     extend_schedule n
       ((small_sigma1 (ws ! 1) + ws ! 6 + small_sigma0 (ws ! 14) + ws ! 15) # ws)"

definition schedule :: "w32 list \<Rightarrow> w32 list" where
  "schedule block = rev (extend_schedule 48 (rev block))"

fun sha_round :: "w32 \<times> w32 \<Rightarrow> w32 list \<Rightarrow> w32 list" where
  "sha_round (k, w) [a, b, c, d, e, f, g, h] =
     (let t1 = h + big_sigma1 e + sha_ch e f g + k + w;
          t2 = big_sigma0 a + sha_maj a b c
      in [t1 + t2, a, b, c, d + t1, e, f, g])"
| "sha_round kw st = st"

definition compress :: "w32 list \<Rightarrow> w32 list \<Rightarrow> w32 list" where
  "compress st block =
     map2 (+) st (fold sha_round (zip round_constants (schedule block)) st)"

fun sha_blocks :: "nat \<Rightarrow> w32 list \<Rightarrow> w32 list \<Rightarrow> w32 list" where
  "sha_blocks 0 st ws = st"
| "sha_blocks (Suc n) st ws = sha_blocks n (compress st (take 16 ws)) (drop 16 ws)"

definition sha_padding :: "nat \<Rightarrow> bytes" where
  "sha_padding len =
     CHR 0x80 # replicate ((119 - len mod 64) mod 64) (CHR 0x00)
     @ map (\<lambda>n. char_of (drop_bit n (8 * int len))) [56, 48, 40, 32, 24, 16, 8, 0]"

definition sha256 :: "bytes \<Rightarrow> bytes" where
  "sha256 m =
     (let p = m @ sha_padding (length m)
      in concat (map bytes_of_word (sha_blocks (length p div 64) initial_state (words_of_bytes p))))"

section \<open>HMAC-SHA256\<close>

definition xor_byte :: "int \<Rightarrow> char \<Rightarrow> char" where
  "xor_byte n c = char_of (n XOR of_char c)"

definition hmac_key :: "bytes \<Rightarrow> bytes" where
  "hmac_key k =
     (let k' = (if length k > 64 then sha256 k else k)
      in k' @ replicate (64 - length k') (CHR 0x00))"

definition hmac_sha256 :: "bytes \<Rightarrow> bytes \<Rightarrow> bytes" where
  "hmac_sha256 k m =
     sha256 (map (xor_byte 92) (hmac_key k) @ sha256 (map (xor_byte 54) (hmac_key k) @ m))"

section \<open>The sidecar's digest form\<close>

definition DigestOf :: "bytes \<Rightarrow> string" where
  "DigestOf b = ''sha256:'' @ hex_encode (sha256 b)"

section \<open>Lemmas\<close>

lemma length_sha_round [simp]: "length (sha_round kw st) = length st"
  by (induction kw st rule: sha_round.induct) (simp_all add: Let_def)

lemma length_fold_sha_round [simp]: "length (fold sha_round kws st) = length st"
  by (induction kws arbitrary: st) simp_all

lemma length_compress [simp]: "length (compress st block) = length st"
  by (simp add: compress_def)

lemma length_sha_blocks [simp]: "length (sha_blocks n st ws) = length st"
  by (induction n arbitrary: st ws) simp_all

lemma length_concat_words: "length (concat (map bytes_of_word ws)) = 4 * length ws"
  by (induction ws) (simp_all add: bytes_of_word_def)

lemma length_sha256 [simp]: "length (sha256 m) = 32"
  by (simp add: sha256_def Let_def length_concat_words initial_state_def)

lemma length_hmac_sha256 [simp]: "length (hmac_sha256 k m) = 32"
  by (simp add: hmac_sha256_def)

lemma length_hmac_key [simp]: "length (hmac_key k) = 64"
  by (simp add: hmac_key_def Let_def)

text \<open>The padded message is whole blocks, so no byte is dropped by the block loop.\<close>

lemma sha_padding_blocks: "64 dvd length (m @ sha_padding (length m))"
proof -
  have "64 dvd n + (1 + (119 - n mod 64) mod 64 + 8)" for n :: nat
  proof -
    define q r where "q = n div 64" and "r = n mod 64"
    have n: "n = 64 * q + r" and r: "r < 64"
      by (simp_all add: q_def r_def)
    show ?thesis
    proof (cases "r \<le> 55")
      case True
      then have "(119 - r) mod 64 = 55 - r"
        using le_mod_geq [of 64 "119 - r"] by simp
      with True have "n + (1 + (119 - r) mod 64 + 8) = 64 * (q + 1)"
        by (simp add: n)
      then show ?thesis unfolding r_def [symmetric] by (metis dvd_triv_left)
    next
      case False
      with r have "n + (1 + (119 - r) mod 64 + 8) = 64 * (q + 2)"
        by (simp add: n)
      then show ?thesis unfolding r_def [symmetric] by (metis dvd_triv_left)
    qed
  qed
  moreover have "length (m @ sha_padding (length m))
      = length m + (1 + (119 - length m mod 64) mod 64 + 8)"
    by (simp add: sha_padding_def)
  ultimately show ?thesis by (simp only:)
qed

lemma length_DigestOf [simp]: "length (DigestOf b) = 71"
  by (simp add: DigestOf_def)

lemma DigestOf_prefix: "has_prefix (DigestOf b) ''sha256:''"
  unfolding DigestOf_def by (rule has_prefix_append)

end
