(* ===== verification/Material.thy ===== *)
theory Material
  imports Spiffe Digest "HOL-Library.AList"
begin

text \<open>
  internal/identity/material.go: the identity material read from three mounted files and
  validated as a whole.  X.509, PEM and the pairing of a key are the fields of \<open>pki\<close>; the
  mounted files change under the process, so a read is at a tick of \<open>mount\<close> and every read
  (and every reading of the clock) is at a later one.
\<close>

record Files =
  fiCertFile :: string
  fiKeyFile :: string
  fiCAFile :: string

record pem_block =
  blType :: string
  blBytes :: bytes

record tls_certificate =
  tlChain :: "bytes list"
  tlKey :: bytes
  tlLeaf :: "Certificate option"

text \<open>
  \<open>pem_decode\<close> answers the next block and the bytes after it; it always consumes some.
  A key pair has at least one certificate.
\<close>

record pki =
  x509_key_pair :: "bytes \<Rightarrow> bytes \<Rightarrow> string + tls_certificate"
  parse_certificate :: "bytes \<Rightarrow> string + Certificate"
  pem_decode :: "bytes \<Rightarrow> (pem_block \<times> bytes) option"

record mount =
  read_at :: "nat \<Rightarrow> string \<Rightarrow> string + bytes"
  clock_at :: "nat \<Rightarrow> time"

record Material =
  maCertificate :: tls_certificate
  maLeaf :: Certificate
  maPool :: "Certificate list"
  maRoots :: "(bytes \<times> Certificate) list"
  maDigest :: bytes

definition fingerprint :: "Certificate \<Rightarrow> bytes" where
  "fingerprint c = sha256 (certRaw c)"

definition TrustsRoot :: "Material option \<Rightarrow> Certificate option \<Rightarrow> bool" where
  "TrustsRoot m root =
     (case (m, root) of
        (Some m, Some r) \<Rightarrow> map_of (maRoots m) (fingerprint r) \<noteq> None
      | _ \<Rightarrow> False)"

section \<open>Parse\<close>

datatype material_error =
    CertificateAndKey string | LeafUnparsed string | LeafNotValid time time time | BundleUnparsed string
  | BundleNotCA string | BundleEmpty | BundleEndless
  | CertificateUnread string | KeyUnread string | CAUnread string | FilesRequired

text \<open>
  The loop over the bundle.  Its fuel is the number of bytes left and one more: a decoder
  that consumes never exhausts it; one that does not would keep the code in the loop
  (\<open>BundleEndless\<close>).
\<close>

fun read_bundle ::
  "pki \<Rightarrow> nat \<Rightarrow> bytes \<Rightarrow> Certificate list \<Rightarrow> (bytes \<times> Certificate) list
     \<Rightarrow> material_error + (Certificate list \<times> (bytes \<times> Certificate) list)" where
  "read_bundle pk 0 rest pool roots = Inl BundleEndless"
| "read_bundle pk (Suc n) rest pool roots =
     (case pem_decode pk rest of
        None \<Rightarrow> Inr (pool, roots)
      | Some (block, rest') \<Rightarrow>
          if blType block \<noteq> ''CERTIFICATE'' then read_bundle pk n rest' pool roots
          else (case parse_certificate pk (blBytes block) of
                  Inl e \<Rightarrow> Inl (BundleUnparsed e)
                | Inr ca \<Rightarrow>
                    if \<not> certIsCA ca then Inl (BundleNotCA (certSubject ca))
                    else read_bundle pk n rest' (pool @ [ca]) (AList.update (fingerprint ca) ca roots)))"

definition files_bytes :: "bytes \<Rightarrow> bytes \<Rightarrow> bytes \<Rightarrow> bytes" where
  "files_bytes certPEM keyPEM caPEM = concat (map (\<lambda>b. b @ [CHR 0x00]) [certPEM, keyPEM, caPEM])"

definition Parse_material :: "pki \<Rightarrow> bytes \<Rightarrow> bytes \<Rightarrow> bytes \<Rightarrow> time \<Rightarrow> material_error + Material" where
  "Parse_material pk certPEM keyPEM caPEM now =
     (case x509_key_pair pk certPEM keyPEM of
        Inl e \<Rightarrow> Inl (CertificateAndKey e)
      | Inr cert \<Rightarrow>
          (case parse_certificate pk (tlChain cert ! 0) of
             Inl e \<Rightarrow> Inl (LeafUnparsed e)
           | Inr leaf \<Rightarrow>
               if now < certNotBefore leaf \<or> now > certNotAfter leaf
               then Inl (LeafNotValid now (certNotBefore leaf) (certNotAfter leaf))
               else (case read_bundle pk (Suc (length caPEM)) caPEM [] [] of
                       Inl e \<Rightarrow> Inl e
                     | Inr (pool, roots) \<Rightarrow>
                         if length roots = 0 then Inl BundleEmpty
                         else Inr \<lparr>maCertificate = cert\<lparr>tlLeaf := Some leaf\<rparr>, maLeaf = leaf, maPool = pool,
                                maRoots = roots, maDigest = sha256 (files_bytes certPEM keyPEM caPEM)\<rparr>)))"

section \<open>Reading the mounted files\<close>

definition Load_material :: "pki \<Rightarrow> mount \<Rightarrow> Files \<Rightarrow> time \<Rightarrow> nat \<Rightarrow> (material_error + Material) \<times> nat" where
  "Load_material pk mt f now t =
     (case read_at mt t (fiCertFile f) of
        Inl e \<Rightarrow> (Inl (CertificateUnread e), t + 1)
      | Inr certPEM \<Rightarrow>
          (case read_at mt (t + 1) (fiKeyFile f) of
             Inl e \<Rightarrow> (Inl (KeyUnread e), t + 2)
           | Inr keyPEM \<Rightarrow>
               (case read_at mt (t + 2) (fiCAFile f) of
                  Inl e \<Rightarrow> (Inl (CAUnread e), t + 3)
                | Inr caPEM \<Rightarrow> (Parse_material pk certPEM keyPEM caPEM now, t + 3))))"

text \<open>The hash is written file by file: the bytes so far, and the files still to read.\<close>

fun hash_files :: "mount \<Rightarrow> string list \<Rightarrow> bytes \<Rightarrow> nat \<Rightarrow> (string + bytes) \<times> nat" where
  "hash_files mt [] acc t = (Inr (sha256 acc), t)"
| "hash_files mt (p # ps) acc t =
     (case read_at mt t p of
        Inl e \<Rightarrow> (Inl e, t + 1)
      | Inr b \<Rightarrow> hash_files mt ps (acc @ b @ [CHR 0x00]) (t + 1))"

definition filesDigest :: "mount \<Rightarrow> Files \<Rightarrow> nat \<Rightarrow> (string + bytes) \<times> nat" where
  "filesDigest mt f t = hash_files mt [fiCertFile f, fiKeyFile f, fiCAFile f] [] t"

definition Material_Equal :: "Material option \<Rightarrow> Material option \<Rightarrow> bool" where
  "Material_Equal m o' =
     (case (m, o') of (Some a, Some b) \<Rightarrow> maDigest a = maDigest b | _ \<Rightarrow> False)"

section \<open>What valid material is\<close>

text \<open>Every trusted root is a CA certificate under its own fingerprint, one per fingerprint, and there is one.\<close>

definition roots_ok :: "(bytes \<times> Certificate) list \<Rightarrow> bool" where
  "roots_ok rs \<longleftrightarrow> distinct (map fst rs) \<and> list_all (\<lambda>(fp, c). fp = fingerprint c \<and> certIsCA c) rs"

definition material_at :: "pki \<Rightarrow> bytes \<Rightarrow> bytes \<Rightarrow> bytes \<Rightarrow> time \<Rightarrow> Material \<Rightarrow> bool" where
  "material_at pk certPEM keyPEM caPEM now m \<longleftrightarrow>
     (\<exists>cert. x509_key_pair pk certPEM keyPEM = Inr cert
        \<and> parse_certificate pk (tlChain cert ! 0) = Inr (maLeaf m)
        \<and> maCertificate m = cert\<lparr>tlLeaf := Some (maLeaf m)\<rparr>)
     \<and> certNotBefore (maLeaf m) \<le> now \<and> now \<le> certNotAfter (maLeaf m)
     \<and> roots_ok (maRoots m) \<and> maRoots m \<noteq> []
     \<and> set (map snd (maRoots m)) \<subseteq> set (maPool m) \<and> fingerprint ` set (maPool m) = fst ` set (maRoots m)
     \<and> maDigest m = sha256 (files_bytes certPEM keyPEM caPEM)"

lemma set_AList_update: "set (AList.update k v rs) \<subseteq> insert (k, v) (set rs)"
  by (induction rs) auto

lemma roots_ok_update:
  "roots_ok rs \<Longrightarrow> certIsCA c \<Longrightarrow> roots_ok (AList.update (fingerprint c) c rs)"
  using set_AList_update [of "fingerprint c" c rs]
  by (fastforce simp: roots_ok_def list_all_iff distinct_update)

lemma set_update_values: "set (map snd (AList.update k v rs)) \<subseteq> insert v (set (map snd rs))"
  by (induction rs) auto

lemma keys_update: "fst ` set (AList.update k v rs) = insert k (fst ` set rs)"
  using dom_update [of k v rs] by (simp add: dom_map_of_conv_image_fst)

lemma read_bundle_ok:
  assumes "read_bundle pk n rest pool roots = Inr (pool', roots')" "roots_ok roots"
    "set (map snd roots) \<subseteq> set pool" "fingerprint ` set pool = fst ` set roots"
  shows "roots_ok roots' \<and> set (map snd roots') \<subseteq> set pool' \<and> fingerprint ` set pool' = fst ` set roots'"
  using assms
proof (induction pk n rest pool roots rule: read_bundle.induct)
  case (2 pk n rest pool roots)
  show ?case
  proof (cases "pem_decode pk rest")
    case None
    with 2 show ?thesis by simp
  next
    case (Some br)
    obtain block rest' where br: "br = (block, rest')" by (cases br)
    show ?thesis
    proof (cases "blType block = ''CERTIFICATE''")
      case False
      with 2 Some br show ?thesis by simp
    next
      case True
      with "2.prems"(1) Some br obtain ca where ca: "parse_certificate pk (blBytes block) = Inr ca" "certIsCA ca"
        by (auto split: sum.splits if_splits)
      show ?thesis
      proof (rule "2.IH"(2) [OF Some br [symmetric] _ ca(1)])
        show "\<not> blType block \<noteq> ''CERTIFICATE''" "\<not> \<not> certIsCA ca" using True ca by simp_all
        show "read_bundle pk n rest' (pool @ [ca]) (AList.update (fingerprint ca) ca roots) = Inr (pool', roots')"
          using "2.prems"(1) Some br True ca by simp
        show "roots_ok (AList.update (fingerprint ca) ca roots)" by (rule roots_ok_update [OF "2.prems"(2) ca(2)])
        show "set (map snd (AList.update (fingerprint ca) ca roots)) \<subseteq> set (pool @ [ca])"
          using set_update_values [of "fingerprint ca" ca roots] "2.prems"(3) by auto
        show "fingerprint ` set (pool @ [ca]) = fst ` set (AList.update (fingerprint ca) ca roots)"
          using "2.prems"(4) by (simp add: keys_update)
      qed
    qed
  qed
qed simp

lemma Parse_material_Inr:
  "Parse_material pk c k a now = Inr m \<Longrightarrow> material_at pk c k a now m"
proof -
  assume p: "Parse_material pk c k a now = Inr m"
  then obtain cert leaf pool roots where r: "x509_key_pair pk c k = Inr cert"
      "parse_certificate pk (tlChain cert ! 0) = Inr leaf" "\<not> now < certNotBefore leaf" "\<not> now > certNotAfter leaf"
      "read_bundle pk (Suc (length a)) a [] [] = Inr (pool, roots)" "roots \<noteq> []"
      "m = \<lparr>maCertificate = cert\<lparr>tlLeaf := Some leaf\<rparr>, maLeaf = leaf, maPool = pool, maRoots = roots,
            maDigest = sha256 (files_bytes c k a)\<rparr>"
    by (auto simp: Parse_material_def simp del: read_bundle.simps split: sum.splits if_splits)
  from read_bundle_ok [OF r(5)] have "roots_ok roots \<and> set (map snd roots) \<subseteq> set pool
      \<and> fingerprint ` set pool = fst ` set roots" by (simp add: roots_ok_def)
  with r show ?thesis by (simp add: material_at_def)
qed

text \<open>The loop over the bundle ends when the decoder consumes.\<close>

definition consumes :: "pki \<Rightarrow> bool" where
  "consumes pk \<longleftrightarrow> (\<forall>s b r. pem_decode pk s = Some (b, r) \<longrightarrow> length r < length s)"

lemma read_bundle_ends:
  assumes "consumes pk" "length rest < n"
  shows "read_bundle pk n rest pool roots \<noteq> Inl BundleEndless"
  using assms(2)
proof (induction n arbitrary: rest pool roots)
  case (Suc n)
  have "read_bundle pk n r pl rs \<noteq> Inl BundleEndless" if "pem_decode pk rest = Some (b, r)" for b r pl rs
  proof (rule Suc.IH)
    from that assms(1) have "length r < length rest" by (simp add: consumes_def)
    with Suc.prems show "length r < n" by simp
  qed
  then show ?case by (auto split: option.split sum.split)
qed simp

lemma Parse_material_ends:
  assumes "consumes pk"
  shows "Parse_material pk c k a now \<noteq> Inl BundleEndless"
  using read_bundle_ends [OF assms, of a "Suc (length a)" "[]" "[]"]
  by (auto simp: Parse_material_def simp del: read_bundle.simps split: sum.splits)

text \<open>More fuel than the bundle has bytes changes nothing.\<close>

lemma read_bundle_more:
  assumes "consumes pk" "length rest < n"
  shows "read_bundle pk (n + extra) rest pool roots = read_bundle pk n rest pool roots"
  using assms(2)
proof (induction n arbitrary: rest pool roots)
  case (Suc n)
  have "read_bundle pk (n + extra) r pl rs = read_bundle pk n r pl rs" if "pem_decode pk rest = Some (b, r)" for b r pl rs
  proof (rule Suc.IH)
    from that assms(1) have "length r < length rest" by (simp add: consumes_def)
    with Suc.prems show "length r < n" by simp
  qed
  then show ?case by (simp split: option.split sum.split prod.split)
qed simp

lemma hash_files_three:
  "hash_files mt [p, q, r] [] t = (Inr d, t') \<longleftrightarrow>
     (\<exists>a b c. read_at mt t p = Inr a \<and> read_at mt (t + 1) q = Inr b \<and> read_at mt (t + 2) r = Inr c
        \<and> d = sha256 (files_bytes a b c) \<and> t' = t + 3)"
  by (auto simp: files_bytes_def split: sum.splits)

end
