(* ===== verification/Reloader.thy ===== *)
theory Reloader
  imports Material "HOL-Library.Word"
begin

text \<open>
  internal/identity/reloader.go: the one current material of a set of files, polled and
  replaced as a whole.  \<open>'s\<close> is the state the callbacks work on; the tick counts the reads
  of the mounted files; \<open>rlLog\<close> is what it logged, the oldest line first.
\<close>

text \<open>
  "identity reload rejected; current material kept" with the error (of a file, or of the
  candidate), and "identity material
  reloaded" with the end of the leaf's validity and the numbers of trusted and retired roots.
\<close>

datatype identity_line = ReloadRejected "string + material_error" | MaterialReloaded time nat nat

record 's Reloader =
  rlFiles :: Files
  rlInterval :: duration
  rlCurrent :: Material
  rlFailures :: "64 word"
  rlOnChange :: "(Material \<Rightarrow> Material \<Rightarrow> 's \<Rightarrow> 's) list"
  rlPolling :: bool
  rlLog :: "identity_line list"

definition New :: "pki \<Rightarrow> mount \<Rightarrow> Files \<Rightarrow> duration \<Rightarrow> nat \<Rightarrow> (material_error + 's Reloader) \<times> nat" where
  "New pk mt f interval t =
     (if fiCertFile f = [] \<or> fiKeyFile f = [] \<or> fiCAFile f = [] then (Inl FilesRequired, t)
      else let every = (if interval \<le> 0 then 5 * second else interval) in
        (case Load_material pk mt f (clock_at mt t) t of
           (Inl e, t') \<Rightarrow> (Inl e, t')
         | (Inr m, t') \<Rightarrow>
             (Inr \<lparr>rlFiles = f, rlInterval = every, rlCurrent = m, rlFailures = 0, rlOnChange = [],
                rlPolling = False, rlLog = []\<rparr>, t')))"

definition Current :: "'s Reloader \<Rightarrow> Material" where "Current r = rlCurrent r"

definition Failures :: "'s Reloader \<Rightarrow> int" where "Failures r = sint (rlFailures r)"

definition OnChange :: "(Material \<Rightarrow> Material \<Rightarrow> 's \<Rightarrow> 's) \<Rightarrow> 's Reloader \<Rightarrow> 's Reloader" where
  "OnChange fn r = r\<lparr>rlOnChange := rlOnChange r @ [fn]\<rparr>"

definition Start :: "'s Reloader \<Rightarrow> 's Reloader" where
  "Start r = (if rlPolling r then r else r\<lparr>rlPolling := True\<rparr>)"

definition Stop :: "'s Reloader \<Rightarrow> 's Reloader" where
  "Stop r = r\<lparr>rlPolling := False\<rparr>"

definition rejected :: "string + material_error \<Rightarrow> 's Reloader \<Rightarrow> 's Reloader" where
  "rejected e r = r\<lparr>rlFailures := rlFailures r + 1, rlLog := rlLog r @ [ReloadRejected e]\<rparr>"

definition retired :: "Material \<Rightarrow> Material \<Rightarrow> nat" where
  "retired previous current =
     foldl (\<lambda>n (fp, c). if map_of (maRoots current) fp = None then n + 1 else n) 0 (maRoots previous)"

definition reloaded_line :: "Material \<Rightarrow> Material \<Rightarrow> identity_line" where
  "reloaded_line cur m = MaterialReloaded (certNotAfter (maLeaf m)) (length (maRoots m)) (retired cur m)"

text \<open>What a reload that validated \<open>m\<close> leaves of the reloader.\<close>

definition published :: "Material \<Rightarrow> 's Reloader \<Rightarrow> 's Reloader" where
  "published m r = r\<lparr>rlFailures := 0, rlCurrent := m, rlLog := rlLog r @ [reloaded_line (rlCurrent r) m]\<rparr>"

definition Reload :: "pki \<Rightarrow> mount \<Rightarrow> 's Reloader \<Rightarrow> nat \<times> 's \<Rightarrow> bool \<times> 's Reloader \<times> nat \<times> 's" where
  "Reload pk mt r st =
     (let cur = rlCurrent r in
      case filesDigest mt (rlFiles r) (fst st) of
        (Inl e, t1) \<Rightarrow> (False, rejected (Inl e) r, t1, snd st)
      | (Inr digest, t1) \<Rightarrow>
          if digest = maDigest cur then (False, r, t1, snd st)
          else (case Load_material pk mt (rlFiles r) (clock_at mt t1) t1 of
                  (Inl e, t2) \<Rightarrow> (False, rejected (Inr e) r, t2, snd st)
                | (Inr m, t2) \<Rightarrow>
                    (True, published m r, t2,
                     fold (\<lambda>fn s. fn cur m s) (rlOnChange r) (snd st))))"

definition RetiredRoots :: "Material \<Rightarrow> Material \<Rightarrow> Certificate list" where
  "RetiredRoots previous current =
     map snd (filter (\<lambda>(fp, c). map_of (maRoots current) fp = None) (maRoots previous))"

text \<open>The poller: one reload per tick of its timer, until it is stopped.\<close>

fun poll :: "pki \<Rightarrow> mount \<Rightarrow> nat \<Rightarrow> 's Reloader \<Rightarrow> nat \<times> 's \<Rightarrow> 's Reloader \<times> nat \<times> 's" where
  "poll pk mt 0 r st = (r, st)"
| "poll pk mt (Suc n) r st =
     (if \<not> rlPolling r then (r, st)
      else case Reload pk mt r st of (_, r', st') \<Rightarrow> poll pk mt n r' st')"

section \<open>Lemmas\<close>

text \<open>Material that was validated from three reads of the files, each later than the one before.\<close>

definition loaded_from :: "pki \<Rightarrow> mount \<Rightarrow> Files \<Rightarrow> Material \<Rightarrow> bool" where
  "loaded_from pk mt f m \<longleftrightarrow>
     (\<exists>t c k a now. read_at mt t (fiCertFile f) = Inr c \<and> read_at mt (t + 1) (fiKeyFile f) = Inr k
        \<and> read_at mt (t + 2) (fiCAFile f) = Inr a \<and> now = clock_at mt t \<and> material_at pk c k a now m)"

lemma Load_material_Inr:
  "Load_material pk mt f now t = (Inr m, t') \<longleftrightarrow>
     (\<exists>c k a. read_at mt t (fiCertFile f) = Inr c \<and> read_at mt (t + 1) (fiKeyFile f) = Inr k
        \<and> read_at mt (t + 2) (fiCAFile f) = Inr a \<and> Parse_material pk c k a now = Inr m \<and> t' = t + 3)"
  by (auto simp: Load_material_def split: sum.splits)

lemma Load_loaded: "Load_material pk mt f (clock_at mt t) t = (Inr m, t') \<Longrightarrow> loaded_from pk mt f m"
  unfolding loaded_from_def by (metis Load_material_Inr Parse_material_Inr)

lemma New_Inr:
  "New pk mt f i t = (Inr r, t') \<Longrightarrow>
     loaded_from pk mt f (rlCurrent r) \<and> rlFiles r = f \<and> 0 < rlInterval r \<and> rlFailures r = 0 \<and> rlOnChange r = []"
  by (auto simp: New_def Let_def Load_loaded split: if_splits prod.splits sum.splits)

lemma Reload_cases:
  obtains (unchanged) t where "Reload pk mt r st = (False, r, t, snd st)"
  | (rejected) e t where "Reload pk mt r st = (False, rejected e r, t, snd st)"
  | (published) m t where "Reload pk mt r st = (True, published m r, t,
      fold (\<lambda>fn s. fn (rlCurrent r) m s) (rlOnChange r) (snd st))" "loaded_from pk mt (rlFiles r) m"
proof (cases "filesDigest mt (rlFiles r) (fst st)")
  case (Pair d t1)
  show thesis
  proof (cases d)
    case (Inl e)
    with Pair show thesis by (intro rejected) (simp add: Reload_def)
  next
    case (Inr dg)
    show thesis
    proof (cases "dg = maDigest (rlCurrent r)")
      case True
      with Pair Inr show thesis by (intro unchanged) (simp add: Reload_def)
    next
      case False
      obtain res t2 where l: "Load_material pk mt (rlFiles r) (clock_at mt t1) t1 = (res, t2)"
        by (cases "Load_material pk mt (rlFiles r) (clock_at mt t1) t1")
      show thesis
      proof (cases res)
        case (Inl e)
        with Pair Inr False l show thesis by (intro rejected) (simp add: Reload_def)
      next
        case m: (Inr m)
        from Load_loaded [OF l [unfolded m]] Pair Inr False l m show thesis
          by (intro published) (simp_all add: Reload_def)
      qed
    qed
  qed
qed

text \<open>Polling keeps the current material one that was loaded and validated as a whole.\<close>

lemma poll_loaded:
  "loaded_from pk mt (rlFiles r) (rlCurrent r) \<Longrightarrow> poll pk mt n r st = (r', st') \<Longrightarrow>
     loaded_from pk mt (rlFiles r) (rlCurrent r') \<and> rlFiles r' = rlFiles r"
proof (induction n arbitrary: r st)
  case (Suc n)
  show ?case
  proof (cases "rlPolling r")
    case True
    show ?thesis
    proof (cases rule: Reload_cases [of pk mt r st])
      case (unchanged t)
      with Suc True show ?thesis by auto
    next
      case (rejected e t)
      with Suc.prems True Suc.IH [of "rejected e r" "(t, snd st)"] show ?thesis by (simp add: rejected_def)
    next
      case (published m t)
      with Suc.prems True Suc.IH [of "published m r"] show ?thesis by (simp add: published_def)
    qed
  qed (use Suc.prems in simp)
qed simp

lemma retired_RetiredRoots: "retired p c = length (RetiredRoots p c)"
proof -
  have "foldl (\<lambda>n (fp, x). if P fp then n + 1 else n) k rs = k + length (filter (\<lambda>(fp, x). P fp) rs)"
    for P and k :: nat and rs :: "(bytes \<times> Certificate) list"
    by (induction rs arbitrary: k) auto
  then show ?thesis by (simp add: retired_def RetiredRoots_def)
qed

text \<open>Files that stay as they are: what a reload published is not published again.\<close>

lemma Reload_settles:
  assumes "\<And>t t' p. read_at mt t p = read_at mt t' p"
    and "loaded_from pk mt (rlFiles r) (rlCurrent r)"
  shows "\<exists>t. Reload pk mt r st = (False, r, t, snd st)"
proof -
  from assms(2) obtain t c k a where l: "read_at mt t (fiCertFile (rlFiles r)) = Inr c"
      "read_at mt (t + 1) (fiKeyFile (rlFiles r)) = Inr k" "read_at mt (t + 2) (fiCAFile (rlFiles r)) = Inr a"
      "maDigest (rlCurrent r) = sha256 (files_bytes c k a)"
    by (auto simp: loaded_from_def material_at_def)
  have "filesDigest mt (rlFiles r) (fst st) = (Inr (sha256 (files_bytes c k a)), fst st + 3)"
    unfolding filesDigest_def hash_files_three using l(1-3) assms(1) by metis
  with l(4) show ?thesis by (simp add: Reload_def)
qed

end
