(* ===== verification/Json.thy ===== *)
theory Json
  imports Prelude "HOL-Library.List_Lexorder"
begin

text \<open>
  What the sidecar uses of Go's encoding/json: the scanner (grammar, escapes, UTF-8
  coercion, the nesting bound), decoding into a struct with \<open>DisallowUnknownFields\<close>
  (exact and case-folded field names, duplicate keys decoded into the same target,
  \<open>null\<close>, \<open>json.RawMessage\<close>, slices that keep their backing array), \<open>Decoder.More\<close>, and
  \<open>json.Marshal\<close> of strings and string maps.

  A decoder works on its target: it takes the current value and returns the new one, or
  \<open>None\<close> when \<open>Decode\<close> returns an error.  The parser is recursive descent with fuel;
  \<open>parse_value_fuel\<close> shows that any fuel above twice the length of the text gives the result.
\<close>

datatype json =
    JNull
  | JBool bool
  | JNum string
  | JStr bytes
  | JArr "json list"
  | JObj "(string \<times> string \<times> json) list"

section \<open>UTF-8\<close>

definition byte :: "char \<Rightarrow> nat" where "byte c = of_char c"

definition between :: "nat \<Rightarrow> nat \<Rightarrow> char \<Rightarrow> bool" where
  "between lo hi c = (lo \<le> byte c \<and> byte c \<le> hi)"

definition cont :: "char \<Rightarrow> bool" where "cont = between 128 191"

text \<open>
  The table of package utf8: by lead byte, the number of continuation bytes and the range
  the first of them must be in.
\<close>

definition utf8_lead :: "char \<Rightarrow> (nat \<times> nat \<times> nat) option" where
  "utf8_lead c =
     (if between 194 223 c then Some (1, 128, 191)
      else if byte c = 224 then Some (2, 160, 191)
      else if byte c = 237 then Some (2, 128, 159)
      else if between 225 239 c then Some (2, 128, 191)
      else if byte c = 240 then Some (3, 144, 191)
      else if byte c = 244 then Some (3, 128, 143)
      else if between 241 243 c then Some (3, 128, 191)
      else None)"

text \<open>The length of the valid encoding at the head of the text, 0 when there is none.\<close>

definition utf8_len :: "bytes \<Rightarrow> nat" where
  "utf8_len s =
     (case s of
        [] \<Rightarrow> 0
      | c # r \<Rightarrow>
          if byte c < 128 then 1
          else (case utf8_lead c of
                  None \<Rightarrow> 0
                | Some (n, lo, hi) \<Rightarrow>
                    if n \<le> length r \<and> between lo hi (hd r) \<and> list_all cont (take (n - 1) (tl r))
                    then Suc n else 0))"

definition replacement :: bytes where "replacement = [CHR 0xEF, CHR 0xBF, CHR 0xBD]"

definition encode_rune :: "nat \<Rightarrow> bytes" where
  "encode_rune r =
     (if r < 128 then [char_of r]
      else if r < 2048 then [char_of (192 + r div 64), char_of (128 + r mod 64)]
      else if (55296 \<le> r \<and> r < 57344) \<or> 1114111 < r then replacement
      else if r < 65536 then
        [char_of (224 + r div 4096), char_of (128 + r div 64 mod 64), char_of (128 + r mod 64)]
      else
        [char_of (240 + r div 262144), char_of (128 + r div 4096 mod 64),
         char_of (128 + r div 64 mod 64), char_of (128 + r mod 64)])"

section \<open>Scanner\<close>

definition is_ws :: "char \<Rightarrow> bool" where
  "is_ws c = (c = CHR '' '' \<or> c = CHR 0x09 \<or> c = CHR 0x0D \<or> c = CHR 0x0A)"

definition skip_ws :: "string \<Rightarrow> string" where "skip_ws = dropWhile is_ws"

abbreviation quote_char :: char where "quote_char \<equiv> CHR 0x22"
abbreviation backslash :: char where "backslash \<equiv> CHR 0x5C"

definition is_hex :: "char \<Rightarrow> bool" where "is_hex c = (hex_value c \<noteq> None)"

definition simple_escape :: "char \<Rightarrow> char option" where
  "simple_escape e =
     (if e = quote_char \<or> e = backslash \<or> e = CHR ''/'' then Some e
      else if e = CHR ''b'' then Some (CHR 0x08)
      else if e = CHR ''f'' then Some (CHR 0x0C)
      else if e = CHR ''n'' then Some (CHR 0x0A)
      else if e = CHR ''r'' then Some (CHR 0x0D)
      else if e = CHR ''t'' then Some (CHR 0x09)
      else None)"

text \<open>The text of a string literal up to its closing quote (the opening one is consumed).\<close>

fun scan_string :: "string \<Rightarrow> (string \<times> string) option" where
  "scan_string [] = None"
| "scan_string (c # r) =
     (if c = quote_char then Some ([], r)
      else if c = backslash then
        (case r of
           [] \<Rightarrow> None
         | e # r1 \<Rightarrow>
             if simple_escape e \<noteq> None
             then map_option (\<lambda>(x, t). (c # e # x, t)) (scan_string r1)
             else if e = CHR ''u'' then
               (case r1 of
                  h1 # h2 # h3 # h4 # r2 \<Rightarrow>
                    if is_hex h1 \<and> is_hex h2 \<and> is_hex h3 \<and> is_hex h4
                    then map_option (\<lambda>(x, t). (c # e # h1 # h2 # h3 # h4 # x, t)) (scan_string r2)
                    else None
                | _ \<Rightarrow> None)
             else None)
      else if byte c < 32 then None
      else map_option (\<lambda>(x, t). (c # x, t)) (scan_string r))"

definition take_digits :: "string \<Rightarrow> (string \<times> string) option" where
  "take_digits s =
     (let d = takeWhile is_digit s in if d = [] then None else Some (d, dropWhile is_digit s))"

definition scan_int :: "string \<Rightarrow> (string \<times> string) option" where
  "scan_int s =
     (case s of
        [] \<Rightarrow> None
      | c # r \<Rightarrow> if c = CHR ''0'' then Some ([c], r) else if is_digit c then take_digits s else None)"

definition scan_frac :: "string \<Rightarrow> (string \<times> string) option" where
  "scan_frac s =
     (case s of
        c # r \<Rightarrow> if c = CHR ''.'' then map_option (\<lambda>(d, t). (c # d, t)) (take_digits r) else Some ([], s)
      | [] \<Rightarrow> Some ([], []))"

definition scan_exp :: "string \<Rightarrow> (string \<times> string) option" where
  "scan_exp s =
     (case s of
        c # r \<Rightarrow>
          if c = CHR ''e'' \<or> c = CHR ''E'' then
            (case r of
               g # r' \<Rightarrow>
                 if g = CHR ''+'' \<or> g = CHR ''-''
                 then map_option (\<lambda>(d, t). (c # g # d, t)) (take_digits r')
                 else map_option (\<lambda>(d, t). (c # d, t)) (take_digits r)
             | [] \<Rightarrow> None)
          else Some ([], s)
      | [] \<Rightarrow> Some ([], []))"

definition scan_number :: "string \<Rightarrow> (string \<times> string) option" where
  "scan_number s =
     (let (sign, r) = (case s of
          c # r \<Rightarrow> if c = CHR ''-'' then ([c], r) else ([], s)
        | [] \<Rightarrow> ([], []))
      in case scan_int r of
           None \<Rightarrow> None
         | Some (i, r1) \<Rightarrow>
             (case scan_frac r1 of
                None \<Rightarrow> None
              | Some (f, r2) \<Rightarrow>
                  map_option (\<lambda>(e, r3). (sign @ i @ f @ e, r3)) (scan_exp r2)))"

section \<open>Unquoting a string literal\<close>

definition hex4 :: "string \<Rightarrow> (nat \<times> string) option" where
  "hex4 s =
     (case s of
        h1 # h2 # h3 # h4 # r \<Rightarrow>
          (case (hex_value h1, hex_value h2, hex_value h3, hex_value h4) of
             (Some a, Some b, Some c, Some d) \<Rightarrow> Some (4096 * a + 256 * b + 16 * c + d, r)
           | _ \<Rightarrow> None)
      | _ \<Rightarrow> None)"

text \<open>\<open>getu4\<close>: a whole \<open>\uXXXX\<close> escape.\<close>

definition getu4 :: "string \<Rightarrow> (nat \<times> string) option" where
  "getu4 s =
     (case s of
        c # u # r \<Rightarrow> if c = backslash \<and> u = CHR ''u'' then hex4 r else None
      | _ \<Rightarrow> None)"

definition surrogate :: "nat \<Rightarrow> bool" where "surrogate r = (55296 \<le> r \<and> r < 57344)"

definition utf16_decode :: "nat \<Rightarrow> nat \<Rightarrow> nat option" where
  "utf16_decode r1 r2 =
     (if 55296 \<le> r1 \<and> r1 < 56320 \<and> 56320 \<le> r2 \<and> r2 < 57344
      then Some ((r1 - 55296) * 1024 + (r2 - 56320) + 65536) else None)"

text \<open>One step of \<open>unquoteBytes\<close>: the bytes written and the text left.\<close>

definition unquote_step :: "string \<Rightarrow> bytes \<times> string" where
  "unquote_step s =
     (case s of
        [] \<Rightarrow> ([], [])
      | c # r \<Rightarrow>
          if c = backslash then
            (case r of
               [] \<Rightarrow> ([], [])
             | e # r1 \<Rightarrow>
                 (case simple_escape e of
                    Some b \<Rightarrow> ([b], r1)
                  | None \<Rightarrow>
                      (case getu4 s of
                         None \<Rightarrow> ([], r1)
                       | Some (u, r2) \<Rightarrow>
                           if \<not> surrogate u then (encode_rune u, r2)
                           else (case getu4 r2 of
                                   None \<Rightarrow> (replacement, r2)
                                 | Some (v, r3) \<Rightarrow>
                                     (case utf16_decode u v of
                                        Some x \<Rightarrow> (encode_rune x, r3)
                                      | None \<Rightarrow> (replacement, r2))))))
          else if byte c < 128 then ([c], r)
          else if utf8_len s = 0 then (replacement, r)
          else (take (utf8_len s) s, drop (utf8_len s) s))"

lemma getu4_shorter: "getu4 s = Some (u, r) \<Longrightarrow> length r < length s"
  by (auto simp: getu4_def hex4_def split: list.splits if_splits option.splits)

lemma unquote_step_shorter: "s \<noteq> [] \<Longrightarrow> length (snd (unquote_step s)) < length s"
proof (cases s)
  case s: (Cons c r)
  consider "c = backslash" "r = []" | e r1 where "c = backslash" "r = e # r1" | "c \<noteq> backslash"
    by (cases r) auto
  then show ?thesis
  proof cases
    case 2
    show ?thesis
    proof (cases "getu4 s")
      case None
      with s 2 show ?thesis by (simp add: unquote_step_def split: option.split)
    next
      case (Some ur)
      obtain u r2 where ur: "ur = (u, r2)" by (cases ur)
      with Some have r2: "length r2 < length s" by (simp add: getu4_shorter)
      then have "length r3 < length s" if "getu4 r2 = Some (v, r3)" for v r3
        using getu4_shorter [OF that] by simp
      with s 2 Some ur r2 show ?thesis
        by (auto simp: unquote_step_def split: option.split)
    qed
  qed (auto simp: unquote_step_def s)
qed simp

function unquote :: "string \<Rightarrow> bytes" where
  "unquote s = (if s = [] then [] else fst (unquote_step s) @ unquote (snd (unquote_step s)))"
  by pat_completeness auto
termination
  by (relation "measure length") (auto simp: unquote_step_shorter)

declare unquote.simps [simp del]

lemma unquote_code [code]:
  "unquote [] = []"
  "unquote (c # s) = fst (unquote_step (c # s)) @ unquote (snd (unquote_step (c # s)))"
  by (simp_all add: unquote.simps [of "[]"] unquote.simps [of "c # s"])

section \<open>Values\<close>

definition max_depth :: nat where "max_depth = 10000"

definition keyword :: "string \<Rightarrow> json \<Rightarrow> string \<Rightarrow> (json \<times> string) option" where
  "keyword w v s = (if has_prefix s w then Some (v, drop (length w) s) else None)"

text \<open>The text of a value that starts at \<open>s\<close> and leaves \<open>t\<close>.\<close>

definition consumed :: "string \<Rightarrow> string \<Rightarrow> string" where
  "consumed s t = take (length s - length t) s"

fun parse_value :: "nat \<Rightarrow> nat \<Rightarrow> string \<Rightarrow> (json \<times> string) option"
  and parse_members :: "nat \<Rightarrow> nat \<Rightarrow> string \<Rightarrow> ((string \<times> string \<times> json) list \<times> string) option"
  and parse_elems :: "nat \<Rightarrow> nat \<Rightarrow> string \<Rightarrow> (json list \<times> string) option"
where
  "parse_value 0 d s = None"
| "parse_value (Suc n) d s =
     (case skip_ws s of
        [] \<Rightarrow> None
      | c # r \<Rightarrow>
          if c = CHR ''{'' then
            (if d \<ge> max_depth then None
             else if take 1 (skip_ws r) = ''}'' then Some (JObj [], drop 1 (skip_ws r))
             else map_option (\<lambda>(ms, t). (JObj ms, t)) (parse_members n (Suc d) r))
          else if c = CHR ''['' then
            (if d \<ge> max_depth then None
             else if take 1 (skip_ws r) = '']'' then Some (JArr [], drop 1 (skip_ws r))
             else map_option (\<lambda>(vs, t). (JArr vs, t)) (parse_elems n (Suc d) r))
          else if c = quote_char then map_option (\<lambda>(x, t). (JStr (unquote x), t)) (scan_string r)
          else if c = CHR ''t'' then keyword ''true'' (JBool True) (c # r)
          else if c = CHR ''f'' then keyword ''false'' (JBool False) (c # r)
          else if c = CHR ''n'' then keyword ''null'' JNull (c # r)
          else map_option (\<lambda>(x, t). (JNum x, t)) (scan_number (c # r)))"
| "parse_members 0 d s = None"
| "parse_members (Suc n) d s =
     (case skip_ws s of
        [] \<Rightarrow> None
      | q # r \<Rightarrow>
          if q \<noteq> quote_char then None
          else (case scan_string r of
                  None \<Rightarrow> None
                | Some (k, t) \<Rightarrow>
                    if take 1 (skip_ws t) \<noteq> '':'' then None
                    else (let v0 = skip_ws (drop 1 (skip_ws t)) in
                          case parse_value n d v0 of
                            None \<Rightarrow> None
                          | Some (v, u) \<Rightarrow>
                              (let m = (unquote k, consumed v0 u, v); w = skip_ws u in
                               if take 1 w = ''}'' then Some ([m], drop 1 w)
                               else if take 1 w = '','' then
                                 map_option (\<lambda>(ms, z). (m # ms, z)) (parse_members n d (drop 1 w))
                               else None))))"
| "parse_elems 0 d s = None"
| "parse_elems (Suc n) d s =
     (case parse_value n d s of
        None \<Rightarrow> None
      | Some (v, u) \<Rightarrow>
          (let w = skip_ws u in
           if take 1 w = '']'' then Some ([v], drop 1 w)
           else if take 1 w = '','' then
             map_option (\<lambda>(vs, z). (v # vs, z)) (parse_elems n d (drop 1 w))
           else None))"

definition parse_json :: "string \<Rightarrow> (json \<times> string) option" where
  "parse_json s = parse_value (2 * length s + 2) 0 s"

text \<open>
  \<open>Decoder.More\<close> after the value: whatever follows, unless nothing does or it begins with a
  closing bracket or brace.
\<close>

definition dec_more :: "string \<Rightarrow> bool" where
  "dec_more rest =
     (case skip_ws rest of [] \<Rightarrow> False | c # _ \<Rightarrow> c \<noteq> CHR '']'' \<and> c \<noteq> CHR ''}'')"

section \<open>Decoding into Go values\<close>

text \<open>
  \<open>foldName\<close>: ASCII letters in upper case; the two other code points that fold to an ASCII
  letter are U+017F (to S) and U+212A (to K).  Field names are ASCII, so the folding of
  the remaining code points never makes a match.
\<close>

definition upper_char :: "char \<Rightarrow> char" where
  "upper_char c = (if is_lower c then char_of (of_char c - 32 :: nat) else c)"

definition fold_step :: "string \<Rightarrow> char \<times> string" where
  "fold_step s =
     (if has_prefix s [CHR 0xC5, CHR 0xBF] then (CHR ''S'', drop 2 s)
      else if has_prefix s [CHR 0xE2, CHR 0x84, CHR 0xAA] then (CHR ''K'', drop 3 s)
      else (upper_char (hd s), tl s))"

function fold_name :: "string \<Rightarrow> string" where
  "fold_name s = (if s = [] then [] else fst (fold_step s) # fold_name (snd (fold_step s)))"
  by pat_completeness auto
termination
  by (relation "measure length") (auto simp: fold_step_def neq_Nil_conv)

declare fold_name.simps [simp del]

lemma fold_name_code [code]:
  "fold_name [] = []"
  "fold_name (c # s) = fst (fold_step (c # s)) # fold_name (snd (fold_step (c # s)))"
  by (simp_all add: fold_name.simps [of "[]"] fold_name.simps [of "c # s"])

type_synonym 's decoder = "string \<Rightarrow> json \<Rightarrow> 's \<Rightarrow> 's option"

definition find_field :: "(string \<times> 's decoder) list \<Rightarrow> string \<Rightarrow> 's decoder option" where
  "find_field fields k =
     (case map_of fields k of
        Some f \<Rightarrow> Some f
      | None \<Rightarrow> map_option snd (find (\<lambda>(n, _). fold_name n = fold_name k) fields))"

fun decode_members ::
  "(string \<times> 's decoder) list \<Rightarrow> (string \<times> string \<times> json) list \<Rightarrow> 's \<Rightarrow> 's option" where
  "decode_members fields [] s = Some s"
| "decode_members fields ((k, raw, v) # ms) s =
     (case find_field fields k of
        None \<Rightarrow> None
      | Some f \<Rightarrow> Option.bind (f raw v s) (decode_members fields ms))"

definition decode_struct :: "(string \<times> 's decoder) list \<Rightarrow> 's decoder" where
  "decode_struct fields raw v s =
     (case v of
        JNull \<Rightarrow> Some s
      | JObj ms \<Rightarrow> decode_members fields ms s
      | _ \<Rightarrow> None)"

definition dec_string :: "bytes decoder" where
  "dec_string raw v cur = (case v of JStr s \<Rightarrow> Some s | JNull \<Rightarrow> Some cur | _ \<Rightarrow> None)"

definition dec_int64 :: "int decoder" where
  "dec_int64 raw v cur = (case v of JNum n \<Rightarrow> parse_int64 n | JNull \<Rightarrow> Some cur | _ \<Rightarrow> None)"

definition dec_uint32 :: "nat decoder" where
  "dec_uint32 raw v cur = (case v of JNum n \<Rightarrow> parse_uint 32 n | JNull \<Rightarrow> Some cur | _ \<Rightarrow> None)"

text \<open>A \<open>json.RawMessage\<close> takes the text of any value, \<open>null\<close> included.\<close>

definition dec_raw :: "bytes decoder" where "dec_raw raw v cur = Some raw"

text \<open>The decoder of a struct field: it works on the field's current value.\<close>

definition on_field :: "('s \<Rightarrow> 'a) \<Rightarrow> (('a \<Rightarrow> 'a) \<Rightarrow> 's \<Rightarrow> 's) \<Rightarrow> 'a decoder \<Rightarrow> 's decoder" where
  "on_field get upd f raw v s = map_option (\<lambda>x. upd (\<lambda>_. x) s) (f raw v (get s))"

text \<open>A pointer: \<open>null\<close> sets it to nil, anything else decodes into what it points to.\<close>

definition dec_pointer :: "'a \<Rightarrow> 'a decoder \<Rightarrow> 'a option decoder" where
  "dec_pointer zero f raw v cur =
     (case v of JNull \<Rightarrow> Some None
      | _ \<Rightarrow> map_option Some (f raw v (case cur of None \<Rightarrow> zero | Some x \<Rightarrow> x)))"

text \<open>
  A slice is its backing array and its length: an element decoded at an index the backing
  array already has is decoded into the value it finds there.
\<close>

type_synonym 'a slice = "'a list \<times> nat"

definition elems :: "'a slice \<Rightarrow> 'a list" where "elems sl = take (snd sl) (fst sl)"

fun decode_elems :: "'a \<Rightarrow> 'a decoder \<Rightarrow> json list \<Rightarrow> 'a list \<Rightarrow> 'a list option" where
  "decode_elems zero f [] bk = Some bk"
| "decode_elems zero f (v # vs) bk =
     (case bk of
        [] \<Rightarrow> (case f [] v zero of None \<Rightarrow> None
               | Some x \<Rightarrow> map_option (Cons x) (decode_elems zero f vs []))
      | b # bk' \<Rightarrow> (case f [] v b of None \<Rightarrow> None
               | Some x \<Rightarrow> map_option (Cons x) (decode_elems zero f vs bk')))"

definition dec_slice :: "'a \<Rightarrow> 'a decoder \<Rightarrow> 'a slice decoder" where
  "dec_slice zero f raw v cur =
     (case v of
        JNull \<Rightarrow> Some ([], 0)
      | JArr [] \<Rightarrow> Some ([], 0)
      | JArr vs \<Rightarrow> map_option (\<lambda>bk. (bk, length vs)) (decode_elems zero f vs (fst cur))
      | _ \<Rightarrow> None)"

text \<open>\<open>Decode\<close> of a whole text into a zero struct: the struct and what the decoder left.\<close>

definition decode_strict ::
  "(string \<times> 's decoder) list \<Rightarrow> 's \<Rightarrow> string \<Rightarrow> ('s \<times> string) option" where
  "decode_strict fields zero raw =
     (case parse_json raw of
        None \<Rightarrow> None
      | Some (v, rest) \<Rightarrow> map_option (\<lambda>s. (s, rest)) (decode_struct fields raw v zero))"

section \<open>Marshal\<close>

definition html_safe :: "char \<Rightarrow> bool" where
  "html_safe c =
     (32 \<le> byte c \<and> byte c < 128 \<and> c \<noteq> quote_char \<and> c \<noteq> backslash
      \<and> c \<noteq> CHR ''<'' \<and> c \<noteq> CHR ''>'' \<and> c \<noteq> CHR 0x26)"

definition escape_byte :: "char \<Rightarrow> string" where
  "escape_byte c =
     (if c = backslash \<or> c = quote_char then [backslash, c]
      else if c = CHR 0x08 then [backslash, CHR ''b'']
      else if c = CHR 0x0C then [backslash, CHR ''f'']
      else if c = CHR 0x0A then [backslash, CHR ''n'']
      else if c = CHR 0x0D then [backslash, CHR ''r'']
      else if c = CHR 0x09 then [backslash, CHR ''t'']
      else [backslash, CHR ''u'', CHR ''0'', CHR ''0'', hex_digit (byte c div 16), hex_digit (byte c mod 16)])"

definition quote_step :: "bytes \<Rightarrow> string \<times> bytes" where
  "quote_step s =
     (case s of
        [] \<Rightarrow> ([], [])
      | c # r \<Rightarrow>
          if byte c < 128 then (if html_safe c then ([c], r) else (escape_byte c, r))
          else if utf8_len s = 0 then (backslash # ''ufffd'', r)
          else if has_prefix s [CHR 0xE2, CHR 0x80, CHR 0xA8] then (backslash # ''u2028'', drop 3 s)
          else if has_prefix s [CHR 0xE2, CHR 0x80, CHR 0xA9] then (backslash # ''u2029'', drop 3 s)
          else (take (utf8_len s) s, drop (utf8_len s) s))"

lemma quote_step_shorter: "s \<noteq> [] \<Longrightarrow> length (snd (quote_step s)) < length s"
  by (cases s) (auto simp: quote_step_def)

function quote_body :: "bytes \<Rightarrow> string" where
  "quote_body s = (if s = [] then [] else fst (quote_step s) @ quote_body (snd (quote_step s)))"
  by pat_completeness auto
termination
  by (relation "measure length") (auto simp: quote_step_shorter)

declare quote_body.simps [simp del]

definition json_string :: "bytes \<Rightarrow> string" where
  "json_string s = quote_char # quote_body s @ [quote_char]"

definition json_member :: "string \<times> string \<Rightarrow> string" where
  "json_member m = json_string (fst m) @ '':'' @ snd m"

definition json_object :: "(string \<times> string) list \<Rightarrow> string" where
  "json_object ms = ''{'' @ join_with '','' (map json_member ms) @ ''}''"

text \<open>\<open>json.Marshal\<close> of a \<open>map[string]string\<close>: the keys in byte order.\<close>

definition marshal_map :: "(string \<times> string) list \<Rightarrow> string" where
  "marshal_map m = json_object (map (\<lambda>(k, v). (k, json_string v)) (sort_key fst m))"

section \<open>The scanner consumes its input\<close>

lemma length_skip_ws: "length (skip_ws s) \<le> length s"
  by (simp add: skip_ws_def length_dropWhile_le)

lemma skip_ws_Cons: "skip_ws s = c # r \<Longrightarrow> length r < length s"
  using length_skip_ws [of s] by simp

lemma take_digits_text: "take_digits s = Some (x, t) \<Longrightarrow> s = x @ t \<and> x \<noteq> []"
  by (auto simp: take_digits_def Let_def split: if_splits)

lemma scan_int_text: "scan_int s = Some (x, t) \<Longrightarrow> s = x @ t \<and> x \<noteq> []"
  by (auto simp: scan_int_def dest: take_digits_text split: list.splits if_splits)

lemma scan_frac_text: "scan_frac s = Some (x, t) \<Longrightarrow> s = x @ t"
  by (auto simp: scan_frac_def dest: take_digits_text split: list.splits if_splits)

lemma scan_exp_text: "scan_exp s = Some (x, t) \<Longrightarrow> s = x @ t"
  by (auto simp: scan_exp_def dest: take_digits_text split: list.splits if_splits)

lemma scan_number_text: "scan_number s = Some (x, t) \<Longrightarrow> s = x @ t \<and> x \<noteq> []"
  by (auto simp: scan_number_def Let_def split: list.splits if_splits option.splits
      dest!: scan_int_text scan_frac_text scan_exp_text)

lemma keyword_text: "keyword w v s = Some (x, t) \<Longrightarrow> s = w @ t \<and> x = v"
  by (auto simp: keyword_def has_prefix_iff split: if_splits)

lemma scan_string_text: "scan_string s = Some (x, t) \<Longrightarrow> s = x @ quote_char # t"
proof (induction s arbitrary: x t rule: scan_string.induct)
  case (2 c r)
  consider (close) "c = quote_char" | (esc) e r1 where "c = backslash" "r = e # r1" "simple_escape e \<noteq> None"
    | (u) e r1 where "c = backslash" "r = e # r1" "simple_escape e = None"
    | (eof) "c = backslash" "r = []" | (plain) "c \<noteq> quote_char" "c \<noteq> backslash"
    by (metis list.exhaust)
  then show ?case
  proof cases
    case esc
    with "2.prems" "2.IH"(1) [of e r1] show ?thesis by auto
  next
    case u
    from u "2.prems" have e: "e = CHR ''u''" by (simp split: if_splits)
    from u e "2.prems" obtain h1 h2 h3 h4 r2 where r1: "r1 = h1 # h2 # h3 # h4 # r2"
      by (simp split: list.splits)
    with u e "2.prems" "2.IH"(2) [of e r1] show ?thesis by (auto split: if_splits)
  next
    case plain
    with "2.prems" "2.IH"(3) show ?thesis by (auto split: if_splits)
  qed (use "2.prems" in auto)
qed simp

lemma scan_string_shorter: "scan_string s = Some (x, t) \<Longrightarrow> length t < length s"
  by (auto dest!: scan_string_text)

lemma len_drop1: "take 1 (skip_ws u) = [c] \<Longrightarrow> length (drop 1 (skip_ws u)) < length u"
  using length_skip_ws [of u] by (cases "skip_ws u") auto

lemma parse_shorter:
  "parse_value n d s = Some (v, t) \<Longrightarrow> length t < length s"
  "parse_members n d s = Some (ms, t) \<Longrightarrow> length t < length s"
  "parse_elems n d s = Some (vs, t) \<Longrightarrow> length t < length s"
proof (induction n d s and n d s and n d s arbitrary: v t and ms t and vs t
    rule: parse_value_parse_members_parse_elems.induct)
  case (2 n d s)
  then obtain c r where cr: "skip_ws s = c # r" by (auto split: list.splits)
  have r: "length r < length s" using skip_ws_Cons [OF cr] .
  have k: "length u < length s" if "keyword w x (c # r) = Some (y, u)" "w \<noteq> []" for w x y u
    using that r keyword_text [OF that(1)] by (auto simp: neq_Nil_conv)
  have m: "length u < length s" if "scan_number (c # r) = Some (y, u)" for y u
    using r scan_number_text [OF that] by (auto simp: neq_Nil_conv Cons_eq_append_conv)
  have q: "length u < length s" if "scan_string r = Some (y, u)" for y u
    using r scan_string_shorter [OF that] by simp
  have ms: "length u < length s"
    if "c = CHR ''{''" "\<not> max_depth \<le> d" "take 1 (skip_ws r) \<noteq> ''}''"
      "parse_members n (Suc d) r = Some (y, u)" for y u
    using "2.IH"(1) [OF cr that] r by simp
  have vs: "length u < length s"
    if "c = CHR ''[''" "\<not> max_depth \<le> d" "take 1 (skip_ws r) \<noteq> '']''"
      "parse_elems n (Suc d) r = Some (y, u)" for y u
    using "2.IH"(2) [OF cr _ that] that(1) r by simp
  show ?case
    using "2.prems" r length_skip_ws [of r] k m q ms vs
    by (auto simp: cr split: if_splits)
next
  case (4 n d s)
  then obtain r where r: "skip_ws s = quote_char # r" by (auto split: list.splits if_splits)
  with "4.prems" obtain k t1 where k: "scan_string r = Some (k, t1)"
    by (auto split: option.splits)
  with r "4.prems" have colon: "take 1 (skip_ws t1) = '':''"
    by (auto split: if_splits)
  define v0 where "v0 = skip_ws (drop 1 (skip_ws t1))"
  from r k colon "4.prems" obtain v u where vu: "parse_value n d v0 = Some (v, u)"
    by (auto simp: Let_def v0_def split: option.splits)
  then have vu': "parse_value n d (skip_ws (drop (Suc 0) (skip_ws t1))) = Some (v, u)"
    by (simp add: v0_def)
  have ih1: "length u < length v0"
    using "4.IH"(1) [OF r _ k refl _ v0_def vu] colon by simp
  have "length v0 < length s"
    using skip_ws_Cons [OF r] scan_string_shorter [OF k] len_drop1 [OF colon]
      length_skip_ws [of "drop 1 (skip_ws t1)"] by (simp add: v0_def)
  with ih1 length_skip_ws [of u] have u: "length (skip_ws u) < length s" by simp
  show ?case
    using "4.prems" "4.IH"(2) [OF r _ k refl _ v0_def vu refl refl refl] u colon
    by (auto simp: r k vu' Let_def split: if_splits dest: less_trans)
next
  case (6 n d s)
  then obtain w u where wu: "parse_value n d s = Some (w, u)" by (auto split: option.splits)
  from "6.IH"(1) [OF this] have u: "length u < length s" .
  with length_skip_ws [of u] have "length (skip_ws u) < length s" by simp
  then show ?case
    using "6.prems" "6.IH"(2) [OF wu refl refl] u by (auto simp: wu Let_def split: if_splits dest: less_trans)
qed simp_all

lemma parse_fuel:
  "2 * length s < n \<Longrightarrow> 2 * length s < m \<Longrightarrow> parse_value n d s = parse_value m d s"
  "2 * length s + 1 < n \<Longrightarrow> 2 * length s + 1 < m \<Longrightarrow> parse_members n d s = parse_members m d s"
  "2 * length s + 1 < n \<Longrightarrow> 2 * length s + 1 < m \<Longrightarrow> parse_elems n d s = parse_elems m d s"
proof (induction n d s and n d s and n d s arbitrary: m and m and m
    rule: parse_value_parse_members_parse_elems.induct)
  case (2 n d s)
  obtain m' where m: "m = Suc m'" using "2.prems" by (cases m) auto
  show ?case
  proof (cases "skip_ws s")
    case (Cons c r)
    have r: "length r < length s" using skip_ws_Cons [OF Cons] .
    have "parse_members n (Suc d) r = parse_members m' (Suc d) r"
      if "c = CHR ''{''" "\<not> max_depth \<le> d" "take 1 (skip_ws r) \<noteq> ''}''"
      using "2.IH"(1) [OF Cons that] "2.prems" r m by simp
    moreover have "parse_elems n (Suc d) r = parse_elems m' (Suc d) r"
      if "c = CHR ''[''" "\<not> max_depth \<le> d" "take 1 (skip_ws r) \<noteq> '']''"
      using "2.IH"(2) [OF Cons _ that] that(1) "2.prems" r m by simp
    ultimately show ?thesis by (simp add: Cons m)
  qed (simp add: m)
next
  case (4 n d s)
  obtain m' where m: "m = Suc m'" using "4.prems" by (cases m) auto
  show ?case
  proof (cases "\<exists>r k t. skip_ws s = quote_char # r \<and> scan_string r = Some (k, t) \<and> take 1 (skip_ws t) = '':''")
    case False
    have "parse_members (Suc i) d s = None" for i
    proof (cases "skip_ws s")
      case (Cons q r)
      have "take 1 (skip_ws t) \<noteq> '':''" if "q = quote_char" "scan_string r = Some (k, t)" for k t
        using False Cons that by blast
      note colon = this
      show ?thesis
      proof (cases "scan_string r")
        case None
        with Cons show ?thesis by simp
      next
        case (Some kt)
        obtain k t where "kt = (k, t)" by (cases kt)
        with Cons Some colon [of k t] show ?thesis by simp
      qed
    qed simp
    then show ?thesis by (simp add: m)
  next
    case True
    then obtain r k t where rkt: "skip_ws s = quote_char # r" "scan_string r = Some (k, t)"
      "take 1 (skip_ws t) = '':''" by blast
    define v0 where "v0 = skip_ws (drop 1 (skip_ws t))"
    have v0: "length v0 < length s"
      using skip_ws_Cons [OF rkt(1)] scan_string_shorter [OF rkt(2)] len_drop1 [OF rkt(3)]
        length_skip_ws [of "drop 1 (skip_ws t)"] by (simp add: v0_def)
    have val: "parse_value n d v0 = parse_value m' d v0"
      using "4.IH"(1) [OF rkt(1) _ rkt(2) refl _ v0_def] rkt(3) v0 "4.prems" m by simp
    have "parse_members n d (drop 1 (skip_ws u)) = parse_members m' d (drop 1 (skip_ws u))"
      if "parse_value n d v0 = Some (v, u)" "take 1 (skip_ws u) = '',''" for v u
      using "4.IH"(2) [OF rkt(1) _ rkt(2) refl _ v0_def that(1) refl refl refl _ that(2)]
        that(2) rkt(3) v0 parse_shorter(1) [OF that(1)] len_drop1 [OF that(2)] "4.prems" m by simp
    note rest = this [unfolded v0_def, simplified]
    show ?thesis
    proof (cases "parse_value m' d v0")
      case None
      with val rkt show ?thesis by (simp add: m v0_def)
    next
      case (Some vu)
      obtain v u where "vu = (v, u)" by (cases vu)
      with Some val rkt rest [of v u] show ?thesis by (simp add: m v0_def Let_def)
    qed
  qed
next
  case (6 n d s)
  obtain m' where m: "m = Suc m'" using "6.prems" by (cases m) auto
  have val: "parse_value n d s = parse_value m' d s"
    by (rule "6.IH"(1)) (use "6.prems" m in simp_all)
  have "parse_elems n d (drop 1 (skip_ws u)) = parse_elems m' d (drop 1 (skip_ws u))"
    if "parse_value n d s = Some (v, u)" "take 1 (skip_ws u) = '',''" for v u
    using "6.IH"(2) [OF that(1) refl refl _ that(2)] that(2)
      parse_shorter(1) [OF that(1)] len_drop1 [OF that(2)] "6.prems" m by simp
  note rest = this
  show ?case
  proof (cases "parse_value m' d s")
    case None
    with val show ?thesis by (simp add: m)
  next
    case (Some vu)
    obtain v u where "vu = (v, u)" by (cases vu)
    with Some val rest [of v u] show ?thesis by (simp add: m Let_def)
  qed
qed simp_all


lemma parse_value_fuel: "2 * length s < n \<Longrightarrow> parse_value n 0 s = parse_json s"
  unfolding parse_json_def by (rule parse_fuel(1)) simp_all

section \<open>Strings survive encoding and decoding\<close>

definition plain :: "char \<Rightarrow> bool" where
  "plain c = (c \<noteq> quote_char \<and> c \<noteq> backslash \<and> 32 \<le> byte c)"

lemma utf8_len_le: "utf8_len s \<le> length s"
  by (auto simp: utf8_len_def split: list.split option.split)

lemma utf8_len_Nil [simp]: "utf8_len [] = 0"
  by (simp add: utf8_len_def)

function valid_utf8 :: "bytes \<Rightarrow> bool" where
  "valid_utf8 s =
     (if s = [] then True else if utf8_len s = 0 then False else valid_utf8 (drop (utf8_len s) s))"
  by pat_completeness auto
termination
  by (relation "measure length") (auto simp: neq_Nil_conv)

declare valid_utf8.simps [simp del]

lemma scan_string_plain:
  "list_all plain p \<Longrightarrow> scan_string (p @ s) = map_option (\<lambda>(x, t). (p @ x, t)) (scan_string s)"
proof (induction p)
  case Nil
  then show ?case by (cases "scan_string s") auto
next
  case (Cons c p)
  then show ?case by (cases "scan_string s") (auto simp: plain_def)
qed

lemma high_plain: "128 \<le> byte c \<Longrightarrow> plain c"
  by (auto simp: plain_def byte_def)


lemma lead_bounds:
  "utf8_lead c = Some (n, lo, hi) \<Longrightarrow> 0 < n \<and> n \<le> 3 \<and> 128 \<le> lo \<and> hi \<le> 191 \<and> 128 \<le> byte c"
  by (auto simp: utf8_lead_def between_def split: if_splits)

text \<open>A valid multi-byte encoding is a lead byte, a byte in its range and continuation bytes.\<close>

lemma utf8_len_multi:
  assumes "utf8_len (c # r) \<noteq> 0" and "128 \<le> byte c"
  obtains n lo hi x y where "utf8_lead c = Some (n, lo, hi)" "take (utf8_len (c # r)) (c # r) = c # x # y"
    "length y = n - 1" "0 < n" "between lo hi x" "list_all cont y" "utf8_len (c # r) = Suc n"
proof -
  from assms obtain n lo hi where l: "utf8_lead c = Some (n, lo, hi)" and n: "n \<le> length r"
    and b: "between lo hi (hd r)" and y: "list_all cont (take (n - 1) (tl r))" and u: "utf8_len (c # r) = Suc n"
    by (auto simp: utf8_len_def split: option.splits if_splits)
  from lead_bounds [OF l] have "0 < n" by simp
  with n obtain x r' where r: "r = x # r'" by (cases r) auto
  then have "take (Suc n) (c # r) = c # x # take (n - 1) r'" using \<open>0 < n\<close> by (cases n) auto
  with l n b y u r \<open>0 < n\<close> show thesis by (intro that [of n lo hi x "take (n - 1) r'"]) auto
qed

lemma utf8_len_high:
  assumes "utf8_len (c # r) \<noteq> 0" and "128 \<le> byte c"
  shows "list_all (\<lambda>x. 128 \<le> byte x) (take (utf8_len (c # r)) (c # r))"
proof -
  obtain n lo hi x y where *: "utf8_lead c = Some (n, lo, hi)" "take (utf8_len (c # r)) (c # r) = c # x # y"
      "between lo hi x" "list_all cont y"
    using utf8_len_multi [OF assms] by metis
  from lead_bounds [OF *(1)] *(3) have "128 \<le> byte x" by (auto simp: between_def)
  moreover from *(4) have "list_all (\<lambda>x. 128 \<le> byte x) y"
    by (rule list.pred_mono_strong) (auto simp: cont_def between_def)
  ultimately show ?thesis using *(2) assms(2) by simp
qed

lemma utf8_len_take:
  assumes "utf8_len (c # r) \<noteq> 0" and "128 \<le> byte c"
  shows "utf8_len (take (utf8_len (c # r)) (c # r) @ t) = utf8_len (c # r)"
proof -
  obtain n lo hi x y where *: "utf8_lead c = Some (n, lo, hi)" "take (utf8_len (c # r)) (c # r) = c # x # y"
      "length y = n - 1" "0 < n" "between lo hi x" "list_all cont y" "utf8_len (c # r) = Suc n"
    using utf8_len_multi [OF assms] by metis
  have "utf8_len ((c # x # y) @ t) = Suc n"
    using * assms(2) by (simp add: utf8_len_def)
  with * show ?thesis by (simp only:)
qed


lemma quote_body_Nil [simp]: "quote_body [] = []"
  by (simp add: quote_body.simps)

lemma quote_body_step: "s \<noteq> [] \<Longrightarrow> quote_body s = fst (quote_step s) @ quote_body (snd (quote_step s))"
  by (simp add: quote_body.simps [of s])

lemma unquote_Nil [simp]: "unquote [] = []"
  by (simp add: unquote.simps)

lemma unquote_step_eq: "s \<noteq> [] \<Longrightarrow> unquote s = fst (unquote_step s) @ unquote (snd (unquote_step s))"
  by (simp add: unquote.simps [of s])

text \<open>What one step of the encoder writes, the scanner passes over and the decoder reads back.\<close>

definition step_ok :: "bytes \<Rightarrow> string \<Rightarrow> bool" where
  "step_ok b w \<longleftrightarrow> w \<noteq> [] \<and> CHR 0x0A \<notin> set w
     \<and> (\<forall>s. scan_string (w @ s) = map_option (\<lambda>(x, t). (w @ x, t)) (scan_string s))
     \<and> (\<forall>t. unquote_step (w @ t) = (b, t))"

lemma plain_not_newline: "list_all plain w \<Longrightarrow> CHR 0x0A \<notin> set w"
  by (induction w) (auto simp: plain_def byte_def)

lemma step_ok_safe:
  assumes "html_safe c" shows "step_ok [c] [c]"
proof -
  from assms have p: "list_all plain [c]" by (simp add: plain_def html_safe_def)
  from scan_string_plain [OF p] plain_not_newline [OF p] assms show ?thesis
    by (simp add: step_ok_def unquote_step_def html_safe_def)
qed

lemma step_ok_simple:
  assumes "simple_escape e = Some b" "e \<noteq> CHR 0x0A"
  shows "step_ok [b] [backslash, e]"
  using assms by (auto simp: step_ok_def unquote_step_def)

lemma is_hex_digit: "n < 16 \<Longrightarrow> hex_value (hex_digit n) = Some n"
  by (auto simp: hex_value_def hex_digit_def Let_def)

lemma hex_digit_not_newline: "n < 16 \<Longrightarrow> hex_digit n \<noteq> CHR 0x0A"
  using is_hex_digit [of n] by (auto simp: hex_value_def)

lemma step_ok_u:
  assumes "a < 16" "b < 16" "c < 16" "d < 16" "u = 4096 * a + 256 * b + 16 * c + d" "\<not> surrogate u"
  shows "step_ok (encode_rune u)
    [backslash, CHR ''u'', hex_digit a, hex_digit b, hex_digit c, hex_digit d]"
proof -
  have "simple_escape CHR ''u'' = None" by (simp add: simple_escape_def)
  with assms show ?thesis
    by (simp add: step_ok_def unquote_step_def getu4_def hex4_def is_hex_def is_hex_digit
        hex_digit_not_newline hex_digit_not_newline [symmetric])
qed

lemma step_ok_multi:
  assumes "utf8_len (c # r) \<noteq> 0" and "128 \<le> byte c"
  shows "step_ok (take (utf8_len (c # r)) (c # r)) (take (utf8_len (c # r)) (c # r))"
proof -
  let ?w = "take (utf8_len (c # r)) (c # r)"
  from utf8_len_high [OF assms] have p: "list_all plain ?w"
    by (rule list.pred_mono_strong) (simp add: high_plain)
  obtain w' where w: "?w = c # w'" using assms(1) by (cases "utf8_len (c # r)") auto
  have len: "length ?w = utf8_len (c # r)" using utf8_len_le [of "c # r"] by simp
  have "unquote_step (?w @ t) = (?w, t)" for t
  proof -
    have "utf8_len (?w @ t) = length ?w" using utf8_len_take [OF assms, of t] len by simp
    moreover from assms(2) have "c \<noteq> backslash" by (auto simp: byte_def)
    ultimately show ?thesis using assms(2) unfolding w by (simp add: unquote_step_def)
  qed
  with scan_string_plain [OF p] plain_not_newline [OF p] w show ?thesis
    unfolding step_ok_def by auto
qed


lemma char_code_eq: "(c = d) = (byte c = byte d)"
  by (simp add: byte_def)

lemma step_ok_escape:
  assumes "byte c < 128" "\<not> html_safe c"
  shows "step_ok [c] (escape_byte c)"
proof -
  consider "c \<in> {quote_char, backslash, CHR 0x08, CHR 0x0C, CHR 0x0A, CHR 0x0D, CHR 0x09}"
    | "c \<notin> {quote_char, backslash, CHR 0x08, CHR 0x0C, CHR 0x0A, CHR 0x0D, CHR 0x09}" by blast
  then show ?thesis
  proof cases
    case 1
    have "step_ok [quote_char] [backslash, quote_char]" "step_ok [backslash] [backslash, backslash]"
      "step_ok [CHR 0x08] [backslash, CHR ''b'']" "step_ok [CHR 0x0C] [backslash, CHR ''f'']"
      "step_ok [CHR 0x0A] [backslash, CHR ''n'']" "step_ok [CHR 0x0D] [backslash, CHR ''r'']"
      "step_ok [CHR 0x09] [backslash, CHR ''t'']"
      by (rule step_ok_simple, simp_all add: simple_escape_def)+
    with 1 show ?thesis by (elim insertE) (simp_all add: escape_byte_def)
  next
    case 2
    have "16 * (byte c div 16) + byte c mod 16 = byte c" by simp
    moreover have "encode_rune (byte c) = [c]" using assms(1) by (simp add: encode_rune_def byte_def)
    moreover have "byte c div 16 < 16" using assms(1) by simp
    moreover have "\<not> surrogate (byte c)" using assms(1) by (simp add: surrogate_def)
    moreover have "hex_digit 0 = CHR ''0''" by (simp add: hex_digit_def char_code_eq byte_def)
    ultimately have "step_ok [c] [backslash, CHR ''u'', CHR ''0'', CHR ''0'',
        hex_digit (byte c div 16), hex_digit (byte c mod 16)]"
      using step_ok_u [of 0 0 "byte c div 16" "byte c mod 16" "byte c"] by simp
    with 2 show ?thesis by (simp add: escape_byte_def)
  qed
qed

lemma step_ok_u2028: "step_ok [CHR 0xE2, CHR 0x80, CHR 0xA8] (backslash # ''u2028'')"
proof -
  have "encode_rune 8232 = [CHR 0xE2, CHR 0x80, CHR 0xA8]"
    by (simp add: encode_rune_def char_code_eq byte_def)
  moreover have "hex_digit 2 = CHR ''2''" "hex_digit 0 = CHR ''0''" "hex_digit 8 = CHR ''8''"
    by (simp_all add: hex_digit_def char_code_eq byte_def)
  ultimately show ?thesis using step_ok_u [of 2 0 2 8 8232] by (simp add: surrogate_def)
qed

lemma step_ok_u2029: "step_ok [CHR 0xE2, CHR 0x80, CHR 0xA9] (backslash # ''u2029'')"
proof -
  have "encode_rune 8233 = [CHR 0xE2, CHR 0x80, CHR 0xA9]"
    by (simp add: encode_rune_def char_code_eq byte_def)
  moreover have "hex_digit 2 = CHR ''2''" "hex_digit 0 = CHR ''0''" "hex_digit 9 = CHR ''9''"
    by (simp_all add: hex_digit_def char_code_eq byte_def)
  ultimately show ?thesis using step_ok_u [of 2 0 2 9 8233] by (simp add: surrogate_def)
qed

lemma utf8_len_2028:
  "utf8_len (CHR 0xE2 # CHR 0x80 # CHR 0xA8 # r) = 3" "utf8_len (CHR 0xE2 # CHR 0x80 # CHR 0xA9 # r) = 3"
  by (simp_all add: utf8_len_def utf8_lead_def between_def byte_def cont_def)

lemma quote_step_ok:
  assumes "s \<noteq> []" "valid_utf8 s"
  shows "\<exists>b. step_ok b (fst (quote_step s)) \<and> s = b @ snd (quote_step s) \<and> valid_utf8 (snd (quote_step s))"
proof -
  obtain c r where s: "s = c # r" using assms(1) by (cases s) auto
  have u: "utf8_len s \<noteq> 0" and v: "valid_utf8 (drop (utf8_len s) s)"
    using assms valid_utf8.simps [of s] by (auto split: if_splits)
  show ?thesis
  proof (cases "byte c < 128")
    case True
    then have "utf8_len s = 1" by (simp add: s utf8_len_def)
    with v have "valid_utf8 r" by (simp add: s)
    with True s step_ok_safe [of c] step_ok_escape [of c] show ?thesis
      by (auto simp: quote_step_def)
  next
    case False
    consider (ls) t where "s = [CHR 0xE2, CHR 0x80, CHR 0xA8] @ t"
      | (ps) t where "s = [CHR 0xE2, CHR 0x80, CHR 0xA9] @ t"
      | (other) "\<not> has_prefix s [CHR 0xE2, CHR 0x80, CHR 0xA8]" "\<not> has_prefix s [CHR 0xE2, CHR 0x80, CHR 0xA9]"
      by (metis has_prefix_iff)
    then show ?thesis
    proof cases
      case ls
      with v have "valid_utf8 t" by (simp add: utf8_len_2028)
      moreover have "quote_step s = (backslash # ''u2028'', t)"
        using has_prefix_append [of "[CHR 0xE2, CHR 0x80, CHR 0xA8]" t]
        by (simp add: ls quote_step_def utf8_len_2028 byte_def)
      ultimately show ?thesis using ls step_ok_u2028 by auto
    next
      case ps
      with v have "valid_utf8 t" by (simp add: utf8_len_2028)
      moreover have "quote_step s = (backslash # ''u2029'', t)"
        using has_prefix_append [of "[CHR 0xE2, CHR 0x80, CHR 0xA9]" t]
        by (simp add: ps quote_step_def utf8_len_2028 byte_def has_prefix_def)
      ultimately show ?thesis using ps step_ok_u2029 by auto
    next
      case other
      with False u have q: "quote_step s = (take (utf8_len s) s, drop (utf8_len s) s)"
        by (simp add: quote_step_def s)
      have "step_ok (take (utf8_len s) s) (take (utf8_len s) s)"
        using step_ok_multi [of c r] u False s by simp
      with q v show ?thesis by auto
    qed
  qed
qed

text \<open>Encoding a valid string and reading the literal back is the identity.\<close>

lemma quote_body_roundtrip:
  "valid_utf8 s \<Longrightarrow> scan_string (quote_body s @ quote_char # t) = Some (quote_body s, t)
     \<and> unquote (quote_body s) = s \<and> CHR 0x0A \<notin> set (quote_body s)"
proof (induction s rule: quote_body.induct)
  case (1 s)
  show ?case
  proof (cases "s = []")
    case False
    from quote_step_ok [OF False "1.prems"] obtain b where b: "step_ok b (fst (quote_step s))"
        "s = b @ snd (quote_step s)" "valid_utf8 (snd (quote_step s))" by blast
    let ?w = "fst (quote_step s)" and ?r = "snd (quote_step s)"
    note ih = "1.IH" [OF False b(3)]
    have q: "quote_body s = ?w @ quote_body ?r" by (rule quote_body_step [OF False])
    from b(1) have "?w \<noteq> []" by (simp add: step_ok_def)
    then have "unquote (quote_body s) = b @ unquote (quote_body ?r)"
      using b(1) unquote_step_eq [of "?w @ quote_body ?r"] by (simp add: q step_ok_def)
    then have "unquote (quote_body s) = s" using ih b(2) by simp
    then show ?thesis using b(1) ih by (simp add: q step_ok_def)
  qed simp
qed

lemma json_string_no_newline: "valid_utf8 s \<Longrightarrow> CHR 0x0A \<notin> set (json_string s)"
  using quote_body_roundtrip [of s] by (simp add: json_string_def)

text \<open>A literal at the head of two equal texts is the same literal.\<close>

lemma json_string_prefix_inj:
  assumes "json_string a @ x = json_string b @ y" "valid_utf8 a" "valid_utf8 b"
  shows "a = b \<and> x = y"
proof -
  from assms(1) have eq: "quote_body a @ quote_char # x = quote_body b @ quote_char # y"
    by (simp add: json_string_def)
  note ra = quote_body_roundtrip [OF assms(2), of x] and rb = quote_body_roundtrip [OF assms(3), of y]
  have "Some (quote_body a, x) = scan_string (quote_body a @ quote_char # x)"
    by (rule sym, rule conjunct1 [OF ra])
  also have "\<dots> = Some (quote_body b, y)" unfolding eq by (rule conjunct1 [OF rb])
  finally have "quote_body a = quote_body b" and "x = y" by simp_all
  have "a = unquote (quote_body a)" by (rule sym, rule conjunct1 [OF conjunct2 [OF ra]])
  also have "\<dots> = unquote (quote_body b)" by (rule arg_cong [OF \<open>quote_body a = quote_body b\<close>])
  also have "\<dots> = b" by (rule conjunct1 [OF conjunct2 [OF rb]])
  finally show ?thesis using \<open>x = y\<close> by (rule conjI)
qed

section \<open>Strictness\<close>

text \<open>A member no field takes makes the decoder fail, wherever it stands.\<close>

lemma decode_members_known:
  "decode_members fields ms s = Some t \<Longrightarrow> (k, raw, v) \<in> set ms \<Longrightarrow> find_field fields k \<noteq> None"
proof (induction fields ms s rule: decode_members.induct)
  case (2 fields k' raw' v' ms s)
  then show ?case by (auto split: option.splits simp: bind_eq_Some_conv)
qed simp

lemma decode_strict_known:
  "decode_strict fields zero raw = Some (s, rest) \<Longrightarrow> parse_json raw = Some (JObj ms, rest)
     \<Longrightarrow> (k, r, v) \<in> set ms \<Longrightarrow> find_field fields k \<noteq> None"
  by (auto simp: decode_strict_def decode_struct_def dest: decode_members_known)

text \<open>A field is found by its name up to the case folding of its letters.\<close>

lemma find_field_folded:
  assumes "find_field fields k \<noteq> None"
  shows "\<exists>n \<in> fst ` set fields. fold_name n = fold_name k"
proof (cases "map_of fields k")
  case None
  with assms obtain n f where "find (\<lambda>(n, _). fold_name n = fold_name k) fields = Some (n, f)"
    by (auto simp: find_field_def)
  then have "(n, f) \<in> set fields \<and> fold_name n = fold_name k"
    by (auto simp: find_Some_iff) (metis nth_mem)
  then show ?thesis by force
next
  case (Some f)
  then have "(k, f) \<in> set fields" by (rule map_of_SomeD)
  then show ?thesis by force
qed

end
