(* ===== verification/GoTime.thy ===== *)
theory GoTime
  imports Prelude
begin

text \<open>
  What the sidecar uses of Go's package time: \<open>time.Parse(time.RFC3339Nano, s)\<close> with the
  leniencies of the layout parser (a one-digit hour, a comma before the fraction, more
  than nine fraction digits, offsets up to 24:60), \<open>Truncate(time.Millisecond)\<close> of a UTC
  instant and \<open>Format("2006-01-02T15:04:05.000Z")\<close>.  An instant is nanoseconds since the
  Unix epoch; parsing also reports whether the result's location is UTC (the text ended
  in \<open>Z\<close>).
\<close>

section \<open>The proleptic Gregorian calendar\<close>

definition leap :: "int \<Rightarrow> bool" where
  "leap y = (y mod 4 = 0 \<and> (y mod 100 \<noteq> 0 \<or> y mod 400 = 0))"

text \<open>Days from 1 January of year 0 to 1 January of year y.\<close>

definition days_to_year :: "int \<Rightarrow> int" where
  "days_to_year y = 365 * y + (y + 3) div 4 - (y + 99) div 100 + (y + 399) div 400"

definition month_starts :: "int list" where
  "month_starts = [0, 31, 59, 90, 120, 151, 181, 212, 243, 273, 304, 334, 365]"

text \<open>Days of the year before the month with index m (January is 0).\<close>

definition days_before :: "int \<Rightarrow> nat \<Rightarrow> int" where
  "days_before y m = month_starts ! m + (if leap y \<and> 2 \<le> m then 1 else 0)"

definition days_in :: "int \<Rightarrow> nat \<Rightarrow> int" where
  "days_in y m = days_before y (Suc m) - days_before y m"

definition epoch_days :: int where "epoch_days = 719528"

text \<open>Days since the epoch of a date; the month has its index, the day counts from 1.\<close>

definition days_of_date :: "int \<Rightarrow> nat \<Rightarrow> int \<Rightarrow> int" where
  "days_of_date y m d = days_to_year y + days_before y m + (d - 1) - epoch_days"

definition year_of :: "int \<Rightarrow> int" where
  "year_of z =
     (let g = (400 * z) div 146097 in
      if z < days_to_year g then g - 1 else if days_to_year (g + 1) \<le> z then g + 1 else g)"

definition month_of :: "int \<Rightarrow> int \<Rightarrow> nat" where
  "month_of y doy = length (takeWhile (\<lambda>m. days_before y m \<le> doy) [1..<12])"

definition date_of_days :: "int \<Rightarrow> int \<times> nat \<times> int" where
  "date_of_days n =
     (let z = n + epoch_days; y = year_of z; doy = z - days_to_year y; m = month_of y doy
      in (y, m, doy - days_before y m + 1))"

section \<open>Parsing\<close>

definition getnum :: "string \<Rightarrow> bool \<Rightarrow> (int \<times> string) option" where
  "getnum s fixed =
     (case s of
        [] \<Rightarrow> None
      | a # r \<Rightarrow>
          if \<not> is_digit a then None
          else (case r of
                  b # r' \<Rightarrow>
                    if is_digit b then Some (int (10 * digit_value a + digit_value b), r')
                    else if fixed then None else Some (int (digit_value a), r)
                | [] \<Rightarrow> if fixed then None else Some (int (digit_value a), [])))"

definition year4 :: "string \<Rightarrow> (int \<times> string) option" where
  "year4 s =
     (if length s \<ge> 4 \<and> list_all is_digit (take 4 s)
      then Some (int (decimal (take 4 s)), drop 4 s) else None)"

definition skip_lit :: "string \<Rightarrow> char \<Rightarrow> string option" where
  "skip_lit s c = (case s of d # r \<Rightarrow> if d = c then Some r else None | [] \<Rightarrow> None)"

text \<open>A number below a bound.\<close>

definition num_below :: "string \<Rightarrow> bool \<Rightarrow> int \<Rightarrow> (int \<times> string) option" where
  "num_below s fixed hi =
     (case getnum s fixed of Some (n, r) \<Rightarrow> if n < hi then Some (n, r) else None | None \<Rightarrow> None)"

text \<open>The optional fraction: at most nine digits count.\<close>

definition fraction :: "string \<Rightarrow> int \<times> string" where
  "fraction s =
     (case s of
        c # d # _ \<Rightarrow>
          if (c = CHR ''.'' \<or> c = CHR '','') \<and> is_digit d then
            (let ds = takeWhile is_digit (tl s); k = take 9 ds
             in (int (decimal k) * 10 ^ (9 - length k), dropWhile is_digit (tl s)))
          else (0, s)
      | _ \<Rightarrow> (0, s))"

text \<open>The zone: its offset in seconds and whether it is the letter Z.\<close>

definition zone :: "string \<Rightarrow> (int \<times> bool \<times> string) option" where
  "zone s =
     (if take 1 s = ''Z'' then Some (0, True, drop 1 s)
      else (case s of
              sg # h1 # h2 # c # m1 # m2 # r \<Rightarrow>
                if c \<noteq> CHR '':'' then None
                else (case (getnum [h1, h2] True, getnum [m1, m2] True) of
                        (Some (h, _), Some (m, _)) \<Rightarrow>
                          if h > 24 \<or> m > 60 then None
                          else if sg = CHR ''+'' then Some ((h * 60 + m) * 60, False, r)
                          else if sg = CHR ''-'' then Some (- ((h * 60 + m) * 60), False, r)
                          else None
                      | _ \<Rightarrow> None)
            | _ \<Rightarrow> None))"

definition bind2 :: "('a \<times> string) option \<Rightarrow> ('a \<Rightarrow> string \<Rightarrow> 'b option) \<Rightarrow> 'b option" where
  "bind2 p f = (case p of None \<Rightarrow> None | Some (x, r) \<Rightarrow> f x r)"

definition parse_rfc3339 :: "string \<Rightarrow> (time \<times> bool) option" where
  "parse_rfc3339 s =
     bind2 (year4 s) (\<lambda>y r. Option.bind (skip_lit r CHR ''-'') (\<lambda>r.
     bind2 (num_below r True 13) (\<lambda>mo r. Option.bind (skip_lit r CHR ''-'') (\<lambda>r.
     bind2 (getnum r True) (\<lambda>d r. Option.bind (skip_lit r CHR ''T'') (\<lambda>r.
     bind2 (num_below r False 24) (\<lambda>h r. Option.bind (skip_lit r CHR '':'') (\<lambda>r.
     bind2 (num_below r True 60) (\<lambda>mi r. Option.bind (skip_lit r CHR '':'') (\<lambda>r.
     bind2 (num_below r True 60) (\<lambda>sec r.
       (case fraction r of (ns, r) \<Rightarrow>
         (case zone r of
            None \<Rightarrow> None
          | Some (off, utc, r) \<Rightarrow>
              if r \<noteq> [] \<or> mo < 1 \<or> d < 1 \<or> d > days_in y (nat (mo - 1)) then None
              else Some
                ((days_of_date y (nat (mo - 1)) d * 86400 + h * 3600 + mi * 60 + sec - off) * second + ns,
                 utc))))))))))))))"

section \<open>Truncating and formatting\<close>

definition truncate_ms :: "time \<Rightarrow> time" where
  "truncate_ms t = t - t mod millisecond"

definition pad :: "nat \<Rightarrow> nat \<Rightarrow> string" where
  "pad w n = replicate (w - length (show_nat n)) (CHR ''0'') @ show_nat n"

definition format_ms :: "time \<Rightarrow> string" where
  "format_ms t =
     (let secs = t div second; ns = t mod second;
          (y, m, d) = date_of_days (secs div 86400); s = secs mod 86400
      in (if y < 0 then CHR ''-'' # pad 4 (nat (- y)) else pad 4 (nat y)) @ ''-''
         @ pad 2 (Suc m) @ ''-'' @ pad 2 (nat d) @ ''T''
         @ pad 2 (nat (s div 3600)) @ '':'' @ pad 2 (nat (s div 60 mod 60)) @ '':''
         @ pad 2 (nat (s mod 60)) @ ''.'' @ pad 3 (nat (ns div millisecond)) @ ''Z'')"

section \<open>The calendar\<close>

lemma days_to_year_bounds:
  "146097 * y - 396 \<le> 400 * days_to_year y" "400 * days_to_year y \<le> 146097 * y + 699"
proof -
  have d: "(y + 3) div 4 * 4 + (y + 3) mod 4 = y + 3" "(y + 99) div 100 * 100 + (y + 99) mod 100 = y + 99"
    "(y + 399) div 400 * 400 + (y + 399) mod 400 = y + 399"
    by (simp_all only: div_mult_mod_eq)
  have m: "0 \<le> (y + 3) mod 4" "(y + 3) mod 4 < 4" "0 \<le> (y + 99) mod 100" "(y + 99) mod 100 < 100"
    "0 \<le> (y + 399) mod 400" "(y + 399) mod 400 < 400" by simp_all
  show "146097 * y - 396 \<le> 400 * days_to_year y"
    unfolding days_to_year_def using d m by (simp add: distrib_left right_diff_distrib)
  show "400 * days_to_year y \<le> 146097 * y + 699"
    unfolding days_to_year_def using d m by (simp add: distrib_left right_diff_distrib)
qed

lemma year_of_bounds: "days_to_year (year_of z) \<le> z" "z < days_to_year (year_of z + 1)"
proof -
  define g where "g = (400 * z) div 146097"
  have "g * 146097 + (400 * z) mod 146097 = 400 * z" unfolding g_def by (rule div_mult_mod_eq)
  moreover have "0 \<le> (400 * z) mod 146097" "(400 * z) mod 146097 < 146097" by simp_all
  ultimately have g: "146097 * g \<le> 400 * z" "400 * z < 146097 * g + 146097" by linarith+
  have lo: "days_to_year (g - 1) \<le> z" using days_to_year_bounds(2) [of "g - 1"] g by (simp add: right_diff_distrib)
  have hi: "z < days_to_year (g + 2)" using days_to_year_bounds(1) [of "g + 2"] g by (simp add: distrib_left)
  have y: "year_of z = (if z < days_to_year g then g - 1 else if days_to_year (g + 1) \<le> z then g + 1 else g)"
    by (simp add: year_of_def g_def Let_def)
  show "days_to_year (year_of z) \<le> z" using lo y by (auto split: if_splits)
  show "z < days_to_year (year_of z + 1)" using hi y by (auto split: if_splits simp: add.assoc)
qed

lemma div_step: "0 < k \<Longrightarrow> (y + k) div k = (y + k - 1) div k + (if y mod k = 0 then 1 else 0)" for y k :: int
proof -
  assume k: "0 < k"
  have y: "y = y div k * k + y mod k" by simp
  show ?thesis
  proof (cases "y mod k = 0")
    case True
    then have "y + k - 1 = (k - 1) + y div k * k" using y by linarith
    moreover have "((k - 1) + y div k * k) div k = y div k + (k - 1) div k" by (rule div_mult_self1) (use k in simp)
    ultimately have "(y + k - 1) div k = y div k + (k - 1) div k" by (simp only:)
    moreover have "(k - 1) div k = 0" using k by (simp add: div_pos_pos_trivial)
    ultimately have "(y + k - 1) div k = y div k" by simp
    moreover have "(y + k) div k = y div k + 1" using k by (simp add: div_add_self2)
    ultimately show ?thesis using True by simp
  next
    case False
    have "0 \<le> y mod k" "y mod k < k" using k by simp_all
    with False have r: "0 \<le> y mod k - 1" "y mod k - 1 < k" by linarith+
    have "y + k - 1 = (y mod k - 1) + (y div k + 1) * k" using y by (simp add: distrib_right)
    moreover have "((y mod k - 1) + (y div k + 1) * k) div k = (y div k + 1) + (y mod k - 1) div k"
      by (rule div_mult_self1) (use k in simp)
    ultimately have "(y + k - 1) div k = (y div k + 1) + (y mod k - 1) div k" by (simp only:)
    moreover have "(y mod k - 1) div k = 0" using r by (rule div_pos_pos_trivial)
    moreover have "(y + k) div k = y div k + 1" using k by (simp add: div_add_self2)
    ultimately show ?thesis using False by simp
  qed
qed

lemma year_length: "days_to_year (y + 1) = days_to_year y + (if leap y then 366 else 365)"
proof -
  let ?i = "\<lambda>k. if y mod k = 0 then 1 else 0 :: int"
  have e: "y + 1 + 3 = y + 4" "y + 3 = y + 4 - 1" "y + 1 + 99 = y + 100" "y + 99 = y + 100 - 1"
    "y + 1 + 399 = y + 400" "y + 399 = y + 400 - 1" by simp_all
  have step: "(y + 1 + 3) div 4 = (y + 3) div 4 + ?i 4" "(y + 1 + 99) div 100 = (y + 99) div 100 + ?i 100"
    "(y + 1 + 399) div 400 = (y + 399) div 400 + ?i 400"
    unfolding e by (rule div_step, simp)+
  have "365 * (y + 1) + A - B + C = 365 * y + a - b + c + (365 + i - j + k)"
    if "A = a + i" "B = b + j" "C = c + k" for A B C a b c i j k :: int
    using that by simp
  from this [OF step] have "days_to_year (y + 1) = days_to_year y + (365 + ?i 4 - ?i 100 + ?i 400)"
    by (simp only: days_to_year_def)
  moreover have "y mod 400 = 0 \<Longrightarrow> y mod 100 = 0" "y mod 100 = 0 \<Longrightarrow> y mod 4 = 0" by presburger+
  ultimately show ?thesis unfolding leap_def by (cases "y mod 4 = 0"; cases "y mod 100 = 0"; cases "y mod 400 = 0") simp_all
qed

lemma month_of_bounds:
  assumes "0 \<le> doy" "doy < days_before y 12"
  shows "month_of y doy < 12 \<and> days_before y (month_of y doy) \<le> doy \<and> doy < days_before y (Suc (month_of y doy))"
proof -
  let ?P = "\<lambda>m. days_before y m \<le> doy"
  define k where "k = month_of y doy"
  have k: "k = length (takeWhile ?P [1..<12])" by (simp add: k_def month_of_def)
  then have "k \<le> 11" using length_takeWhile_le [of ?P "[1..<12]"] by simp
  moreover have "?P k"
  proof (cases k)
    case 0
    with assms(1) show ?thesis by (simp add: days_before_def month_starts_def)
  next
    case (Suc j)
    have "?P (takeWhile ?P [1..<12] ! j)"
      by (rule conjunct2 [OF set_takeWhileD [of _ ?P "[1..<12]"]], rule nth_mem) (use Suc k in linarith)
    moreover have "takeWhile ?P [1..<12] ! j = [1..<12] ! j" by (rule takeWhile_nth) (use Suc k in simp)
    ultimately show ?thesis using Suc \<open>k \<le> 11\<close> by simp
  qed
  moreover have "doy < days_before y (Suc k)"
  proof (cases "k = 11")
    case True
    with assms(2) show ?thesis by (simp add: numeral_eq_Suc)
  next
    case False
    with \<open>k \<le> 11\<close> have "k < length [1..<12]" by simp
    then have "\<not> ?P ([1..<12] ! k)" using k nth_length_takeWhile [of ?P "[1..<12]"] by simp
    then show ?thesis using False \<open>k \<le> 11\<close> by simp
  qed
  ultimately show ?thesis by (simp add: k_def)
qed

lemma date_of_days_correct:
  assumes "date_of_days n = (y, m, d)"
  shows "days_of_date y m d = n \<and> m < 12 \<and> 1 \<le> d \<and> d \<le> days_in y m"
proof -
  define z where "z = n + epoch_days"
  have y: "y = year_of z" and m: "m = month_of y (z - days_to_year y)"
    and d: "d = z - days_to_year y - days_before y m + 1"
    using assms by (auto simp: date_of_days_def z_def Let_def)
  have "days_before y 12 = (if leap y then 366 else 365)" by (simp add: days_before_def month_starts_def)
  then have "0 \<le> z - days_to_year y" "z - days_to_year y < days_before y 12"
    using year_of_bounds [of z] year_length [of y] y by auto
  from month_of_bounds [OF this] m show ?thesis
    by (auto simp: d days_of_date_def days_in_def z_def)
qed

section \<open>Formatting and parsing back\<close>

lemma digit_char_facts:
  assumes "d < 10" shows "is_digit (digit_char d)" "digit_value (digit_char d) = d"
  using assms by (auto simp: is_digit_def in_range_def digit_char_def digit_value_def less_eq_char_def)

lemma digit_not:
  "d < 10 \<Longrightarrow> digit_char d \<noteq> CHR ''-'' \<and> digit_char d \<noteq> CHR '':'' \<and> digit_char d \<noteq> CHR ''.'' \<and> digit_char d \<noteq> CHR ''Z''"
  using digit_char_facts(1) [of d] by (auto simp: is_digit_def in_range_def)

lemma digit_char_0: "digit_char 0 = CHR ''0''"
  by code_simp

lemma pad_Suc:
  assumes "w \<noteq> 0" shows "pad (Suc w) n = pad w (n div 10) @ [digit_char (n mod 10)]"
proof (cases "n < 10")
  case True
  moreover have "replicate w (CHR ''0'') = replicate (w - 1) (CHR ''0'') @ [CHR ''0'']"
    using assms by (metis Suc_pred' not_gr_zero replicate_Suc replicate_append_same)
  ultimately show ?thesis
    by (simp add: pad_def show_nat.simps [of n] show_nat.simps [of 0] digit_char_0)
qed (simp add: pad_def show_nat.simps [of n])

lemma pad1: "n < 10 \<Longrightarrow> pad 1 n = [digit_char n]"
  by (simp add: pad_def show_nat.simps [of n])

lemma pad2: "n < 100 \<Longrightarrow> pad 2 n = [digit_char (n div 10), digit_char (n mod 10)]"
  using pad_Suc [of 1 n] pad1 [of "n div 10"] by (simp add: numeral_2_eq_2)

lemma pad3: "n < 1000 \<Longrightarrow>
   pad 3 n = [digit_char (n div 10 div 10), digit_char (n div 10 mod 10), digit_char (n mod 10)]"
  using pad_Suc [of 2 n] pad2 [of "n div 10"] by (simp add: numeral_3_eq_3 numeral_2_eq_2)

lemma pad4: "n < 10000 \<Longrightarrow> pad 4 n =
   [digit_char (n div 10 div 10 div 10), digit_char (n div 10 div 10 mod 10), digit_char (n div 10 mod 10), digit_char (n mod 10)]"
  using pad_Suc [of 3 n] pad3 [of "n div 10"] by simp


lemma getnum_pad2 [simp]:
  "n < 100 \<Longrightarrow> getnum (pad 2 n @ r) b = Some (int n, r)"
proof -
  assume "n < 100"
  then have "n div 10 < 10" by simp
  then show ?thesis
    using digit_char_facts [of "n div 10"] digit_char_facts [of "n mod 10"] \<open>n < 100\<close>
    by (simp add: pad2 getnum_def)
qed

lemma num_below_pad2: "int n < hi \<Longrightarrow> hi \<le> 100 \<Longrightarrow> num_below (pad 2 n @ r) b hi = Some (int n, r)"
  by (simp add: num_below_def)

lemma decimal_Cons4: "decimal [a, b, c, d] = 1000 * digit_value a + 100 * digit_value b + 10 * digit_value c + digit_value d"
  "decimal [a, b, c] = 100 * digit_value a + 10 * digit_value b + digit_value c"
  by (simp_all add: decimal_def)

lemma year4_pad4: "n < 10000 \<Longrightarrow> year4 (pad 4 n @ r) = Some (int n, r)"
proof -
  assume n: "n < 10000"
  let ?a = "n div 10 div 10 div 10" and ?b = "n div 10 div 10 mod 10" and ?c = "n div 10 mod 10" and ?d = "n mod 10"
  have lt: "?a < 10" "?b < 10" "?c < 10" "?d < 10" using n by auto
  have sum: "1000 * a + 100 * b + 10 * c + d = n"
    if "n1 * 10 + d = n" "n2 * 10 + c = n1" "a * 10 + b = n2" for a b c d n1 n2 :: nat using that by simp
  have "1000 * ?a + 100 * ?b + 10 * ?c + ?d = n" by (rule sum; rule div_mult_mod_eq)
  then show ?thesis
    using digit_char_facts [OF lt(1)] digit_char_facts [OF lt(2)] digit_char_facts [OF lt(3)] digit_char_facts [OF lt(4)]
    by (simp only: pad4 [OF n] year4_def) (simp add: decimal_Cons4)
qed

lemma fraction_pad3:
  assumes "n < 1000" shows "fraction (CHR ''.'' # pad 3 n @ ''Z'') = (int n * 1000000, ''Z'')"
proof -
  let ?b = "n div 10 div 10" and ?c = "n div 10 mod 10" and ?d = "n mod 10"
  have lt: "?b < 10" "?c < 10" "?d < 10" using assms by auto
  have sum: "100 * b + 10 * c + d = n" if "n1 * 10 + d = n" "b * 10 + c = n1" for b c d n1 :: nat
    using that by simp
  have "100 * ?b + 10 * ?c + ?d = n" by (rule sum; rule div_mult_mod_eq)
  moreover have "\<not> is_digit CHR ''Z''" by code_simp
  ultimately show ?thesis
    using digit_char_facts [OF lt(1)] digit_char_facts [OF lt(2)] digit_char_facts [OF lt(3)]
    by (simp only: pad3 [OF assms] fraction_def) (simp add: decimal_Cons4)
qed

text \<open>The years a four-digit year can hold.\<close>

definition in_years :: "time \<Rightarrow> bool" where
  "in_years t = (let y = fst (date_of_days (t div second div 86400)) in 0 \<le> y \<and> y \<le> 9999)"

lemma format_ms_parse:
  assumes "in_years t"
  shows "parse_rfc3339 (format_ms t) = Some (truncate_ms t, True)"
proof -
  define secs where "secs = t div second"
  define s where "s = secs mod 86400"
  obtain y m d where date: "date_of_days (secs div 86400) = (y, m, d)" by (cases "date_of_days (secs div 86400)") auto
  note dc = date_of_days_correct [OF date]
  have y: "0 \<le> y" "y \<le> 9999" using assms date by (auto simp: in_years_def secs_def)
  have s: "0 \<le> s" "s < 86400" by (simp_all add: s_def)
  have dmax: "d \<le> 31"
  proof -
    have "m = 0 \<or> m = 1 \<or> m = 2 \<or> m = 3 \<or> m = 4 \<or> m = 5 \<or> m = 6 \<or> m = 7 \<or> m = 8 \<or> m = 9 \<or> m = 10 \<or> m = 11"
      using dc by presburger
    then have "days_in y m \<le> 31" by (auto simp: days_in_def days_before_def month_starts_def)
    with dc show ?thesis by linarith
  qed
  let ?h = "s div 3600" and ?mi = "s div 60 mod 60" and ?se = "s mod 60" and ?ms = "t mod second div millisecond"
  have hms: "0 \<le> ?h" "?h < 24" "0 \<le> ?mi" "?mi < 60" "0 \<le> ?se" "?se < 60" using s by auto
  have ms: "0 \<le> ?ms" "?ms < 1000" by auto
  have fmt: "format_ms t = pad 4 (nat y) @ CHR ''-'' # pad 2 (Suc m) @ CHR ''-'' # pad 2 (nat d) @ CHR ''T''
      # pad 2 (nat ?h) @ CHR '':'' # pad 2 (nat ?mi) @ CHR '':'' # pad 2 (nat ?se) @ CHR ''.'' # pad 3 (nat ?ms) @ ''Z''"
    using y by (simp add: format_ms_def Let_def date secs_def [symmetric] s_def [symmetric])
  have nums: "num_below (pad 2 (Suc m) @ r) True 13 = Some (int m + 1, r)"
    "getnum (pad 2 (nat d) @ r) True = Some (d, r)"
    "num_below (pad 2 (nat ?h) @ r) False 24 = Some (?h, r)"
    "num_below (pad 2 (nat ?mi) @ r) True 60 = Some (?mi, r)"
    "num_below (pad 2 (nat ?se) @ r) True 60 = Some (?se, r)" for r
    using dc dmax hms by (simp_all add: num_below_pad2)
  have yy: "year4 (pad 4 (nat y) @ r) = Some (y, r)" for r using y by (simp add: year4_pad4)
  have fr: "fraction (CHR ''.'' # pad 3 (nat ?ms) @ ''Z'') = (?ms * 1000000, ''Z'')" using ms by (simp add: fraction_pad3)
  have "parse_rfc3339 (format_ms t) =
      Some ((days_of_date y m d * 86400 + ?h * 3600 + ?mi * 60 + ?se) * second + ?ms * 1000000, True)"
    using dc by (simp add: fmt parse_rfc3339_def yy bind2_def skip_lit_def nums fr zone_def)
  also have "days_of_date y m d = secs div 86400" using dc by simp
  also have "secs div 86400 * 86400 + ?h * 3600 + ?mi * 60 + ?se = secs"
  proof -
    have h: "?h = s div 60 div 60" using zdiv_zmult2_eq [of 60 s 60] by simp
    have sum: "q * 86400 + a * 3600 + b * 60 + c = u"
      if "q * 86400 + v = u" "n * 60 + c = v" "a * 60 + b = n" for q a b c n v u :: int using that by simp
    show ?thesis unfolding h unfolding s_def by (rule sum; rule div_mult_mod_eq)
  qed
  also have "secs * second + ?ms * 1000000 = truncate_ms t"
  proof -
    have alg: "a * second + c * millisecond = u - e" if "a * second + b = u" "c * millisecond + e = b" for a b c e u :: int
      using that by simp
    have "t mod second mod millisecond = t mod millisecond" by (rule mod_mod_cancel) simp
    moreover have "secs * second + ?ms * millisecond = t - t mod second mod millisecond"
      unfolding secs_def by (rule alg; rule div_mult_mod_eq)
    ultimately show ?thesis unfolding truncate_ms_def by (simp only:)
  qed
  finally show ?thesis .
qed

end
