(* ===== verification/Contracts.thy ===== *)
theory Contracts
  imports Json GoTime
begin

text \<open>
  What internal/scope uses of the generated contract packages and of gRPC: the fields of
  the messages its getters read (a nil message is \<open>None\<close>, and a getter of it answers the
  zero value), the enums with the constants the code names (every other value keeps the
  text its \<open>String\<close> method answers), the status codes, and the package's own sentinel
  errors with the text \<open>fmt.Errorf\<close> wraps around them.
\<close>

section \<open>Errors\<close>

datatype sentinel = ErrUnregistered | ErrNoAuthority | ErrDeadline | ErrStale | ErrRefused | ErrUnavailable

text \<open>A sentinel itself, or \<open>fmt.Errorf("%w: ...")\<close> of it with the text after the colon.\<close>

datatype err = Plain sentinel | Wrapped sentinel string

fun sentinel_of :: "err \<Rightarrow> sentinel" where
  "sentinel_of (Plain s) = s"
| "sentinel_of (Wrapped s t) = s"

definition errors_is :: "err \<Rightarrow> sentinel \<Rightarrow> bool" where
  "errors_is e s = (sentinel_of e = s)"

fun sentinel_text :: "sentinel \<Rightarrow> string" where
  "sentinel_text ErrUnregistered = ''instance not registered''"
| "sentinel_text ErrNoAuthority = ''instance is not the current physical owner''"
| "sentinel_text ErrDeadline = ''attempt deadline passed''"
| "sentinel_text ErrStale = ''execution scope ended''"
| "sentinel_text ErrRefused = ''refused''"
| "sentinel_text ErrUnavailable = ''dependency unavailable''"

fun err_text :: "err \<Rightarrow> string" where
  "err_text (Plain s) = sentinel_text s"
| "err_text (Wrapped s t) = sentinel_text s @ '': '' @ t"

datatype grpc_code =
    OK | Canceled | Unknown | InvalidArgument | DeadlineExceeded | NotFound | AlreadyExists
  | PermissionDenied | ResourceExhausted | FailedPrecondition | Aborted | OutOfRange
  | Unimplemented | Internal | Unavailable | DataLoss | Unauthenticated | Code_other nat

fun code_string :: "grpc_code \<Rightarrow> string" where
  "code_string OK = ''OK''"
| "code_string Canceled = ''Canceled''"
| "code_string Unknown = ''Unknown''"
| "code_string InvalidArgument = ''InvalidArgument''"
| "code_string DeadlineExceeded = ''DeadlineExceeded''"
| "code_string NotFound = ''NotFound''"
| "code_string AlreadyExists = ''AlreadyExists''"
| "code_string PermissionDenied = ''PermissionDenied''"
| "code_string ResourceExhausted = ''ResourceExhausted''"
| "code_string FailedPrecondition = ''FailedPrecondition''"
| "code_string Aborted = ''Aborted''"
| "code_string OutOfRange = ''OutOfRange''"
| "code_string Unimplemented = ''Unimplemented''"
| "code_string Internal = ''Internal''"
| "code_string Unavailable = ''Unavailable''"
| "code_string DataLoss = ''DataLoss''"
| "code_string Unauthenticated = ''Unauthenticated''"
| "code_string (Code_other n) = ''Code('' @ show_nat n @ '')''"

text \<open>The error of a remote call: one with a gRPC status, or any other with its text.\<close>

datatype rpc_error = Status grpc_code string | NotStatus string

text \<open>\<open>status.Code\<close>: the code of an error, Unknown when it has no status.\<close>

fun status_code :: "rpc_error \<Rightarrow> grpc_code" where
  "status_code (Status c m) = c"
| "status_code (NotStatus t) = Unknown"

text \<open>\<open>status.Convert\<close>: an error without a status becomes Unknown with its text.\<close>

fun status_convert :: "rpc_error \<Rightarrow> grpc_code \<times> string" where
  "status_convert (Status c m) = (c, m)"
| "status_convert (NotStatus t) = (Unknown, t)"

section \<open>Enums\<close>

datatype AttemptState = LAUNCH_PREPARED | RUNNING | RESULT_ACCEPTED | AttemptState_other string

fun AttemptState_String :: "AttemptState \<Rightarrow> string" where
  "AttemptState_String LAUNCH_PREPARED = ''ATTEMPT_STATE_LAUNCH_PREPARED''"
| "AttemptState_String RUNNING = ''ATTEMPT_STATE_RUNNING''"
| "AttemptState_String RESULT_ACCEPTED = ''ATTEMPT_STATE_RESULT_ACCEPTED''"
| "AttemptState_String (AttemptState_other s) = s"

datatype Lifecycle = LC_SUCCEEDED | LC_FAILED | LC_CANCELED | LC_RECONCILING | Lifecycle_other string

fun Lifecycle_String :: "Lifecycle \<Rightarrow> string" where
  "Lifecycle_String LC_SUCCEEDED = ''LIFECYCLE_SUCCEEDED''"
| "Lifecycle_String LC_FAILED = ''LIFECYCLE_FAILED''"
| "Lifecycle_String LC_CANCELED = ''LIFECYCLE_CANCELED''"
| "Lifecycle_String LC_RECONCILING = ''LIFECYCLE_RECONCILING''"
| "Lifecycle_String (Lifecycle_other s) = s"

datatype ControlState = CTL_UNSPECIFIED | CTL_NONE | ControlState_other string

fun ControlState_String :: "ControlState \<Rightarrow> string" where
  "ControlState_String CTL_UNSPECIFIED = ''CONTROL_STATE_UNSPECIFIED''"
| "ControlState_String CTL_NONE = ''CONTROL_STATE_NONE''"
| "ControlState_String (ControlState_other s) = s"

datatype TransferState = FINALIZED | TransferState_other string

fun TransferState_String :: "TransferState \<Rightarrow> string" where
  "TransferState_String FINALIZED = ''TRANSFER_STATE_FINALIZED''"
| "TransferState_String (TransferState_other s) = s"

datatype ArtifactClass =
    PROMPT | BRIEF | SOURCE | STAGE | RESULT | EVIDENCE | ANSWER | ARGUMENT | NPM | BROWSER | CSS
  | ArtifactClass_other string

fun ArtifactClass_String :: "ArtifactClass \<Rightarrow> string" where
  "ArtifactClass_String PROMPT = ''ARTIFACT_CLASS_PROMPT''"
| "ArtifactClass_String BRIEF = ''ARTIFACT_CLASS_BRIEF''"
| "ArtifactClass_String SOURCE = ''ARTIFACT_CLASS_SOURCE''"
| "ArtifactClass_String STAGE = ''ARTIFACT_CLASS_STAGE''"
| "ArtifactClass_String RESULT = ''ARTIFACT_CLASS_RESULT''"
| "ArtifactClass_String EVIDENCE = ''ARTIFACT_CLASS_EVIDENCE''"
| "ArtifactClass_String ANSWER = ''ARTIFACT_CLASS_ANSWER''"
| "ArtifactClass_String ARGUMENT = ''ARTIFACT_CLASS_ARGUMENT''"
| "ArtifactClass_String NPM = ''ARTIFACT_CLASS_NPM''"
| "ArtifactClass_String BROWSER = ''ARTIFACT_CLASS_BROWSER''"
| "ArtifactClass_String CSS = ''ARTIFACT_CLASS_CSS''"
| "ArtifactClass_String (ArtifactClass_other s) = s"

datatype Verdict =
    CERTIFIED | REPAIRABLE | INVALID | INFRASTRUCTURE_FAILED | CANCELED | Verdict_other string

fun Verdict_String :: "Verdict \<Rightarrow> string" where
  "Verdict_String CERTIFIED = ''VERDICT_CERTIFIED''"
| "Verdict_String REPAIRABLE = ''VERDICT_REPAIRABLE''"
| "Verdict_String INVALID = ''VERDICT_INVALID''"
| "Verdict_String INFRASTRUCTURE_FAILED = ''VERDICT_INFRASTRUCTURE_FAILED''"
| "Verdict_String CANCELED = ''VERDICT_CANCELED''"
| "Verdict_String (Verdict_other s) = s"

text \<open>The lower-case name of an enum value without its type's prefix.\<close>

definition enum_name :: "string \<Rightarrow> string \<Rightarrow> string" where
  "enum_name s prefix = to_lower (trim_prefix s prefix)"

section \<open>Messages of Control\<close>

record PhysicalInstance =
  piInstanceId :: string
  piAttemptId :: string
  piBackend :: string
  piLaunchKey :: string
  piPodUid :: string
  piLaunchEpoch :: string
  piCurrent :: bool

record Attempt =
  atAttemptId :: string
  atOperationId :: string
  atProfileId :: string
  atExecutionEpoch :: string
  atState :: AttemptState
  atDeadline :: "time option"

record OperationView =
  opOperationId :: string
  opExecutionEpoch :: string
  opLifecycle :: Lifecycle
  opControl :: ControlState
  opDeadline :: "time option"
  opProjectId :: string
  opActorId :: string

record Headroom =
  hrCurrency :: string
  hrAmount :: string

record GetInstanceResponse =
  giTenantId :: string
  giRecoveryEpoch :: string
  giInstance :: "PhysicalInstance option"
  giAttempt :: "Attempt option"
  giOperation :: "OperationView option"
  giBudgetHeadroom :: "Headroom option"

record ArtifactTransfer =
  arHandle :: string
  arTransferId :: string
  arState :: TransferState
  arObjectVersion :: string
  arReasonCode :: string
  arExpectedSize :: string
  arExpectedDigest :: string
  arClass :: ArtifactClass

text \<open>A capability's headers are a map: its entries in the order the loop visits them.\<close>

record TransferCapability =
  capMethod :: string
  capUrl :: string
  capHeaders :: "(string \<times> string) list"

record BeginTransferResponse =
  btTransfer :: "ArtifactTransfer option"
  btUpload :: "TransferCapability option"
  btExisting :: bool

record ReadArtifactResponse =
  raTransfer :: "ArtifactTransfer option"
  raDownload :: "TransferCapability option"

record StageRef =
  srStageId :: string
  srResultDigest :: string

record AcceptResultResponse =
  acStage :: "StageRef option"
  acExisting :: bool

record StageArtifact =
  saHandle :: string
  saClass :: string
  saDigest :: string
  saSizeBytes :: string
  saTransferId :: string
  saObjectVersion :: string

record StageMessage =
  smStageId :: string
  smAttemptId :: string
  smInstanceId :: string
  smVerdict :: Verdict
  smFailureCode :: string
  smResultDigest :: string
  smObserverIdentity :: string
  smProfileId :: string
  smExecutionEpoch :: string
  smRecoveryEpoch :: string
  smArtifacts :: "StageArtifact list"

record ProgressResponse =
  prEventSeq :: string
  prTransitionId :: string
  prExisting :: bool

section \<open>Requests to Control\<close>

record GetInstanceRequest =
  grBackend :: string
  grLaunchKey :: string
  grPodUid :: string

record CommandIdentity =
  ciTenantId :: string
  ciCommandId :: string
  ciActorId :: string
  ciRequestDigest :: string

record BeginTransferRequest =
  brCommand :: CommandIdentity
  brScopeTenantId :: string
  brScopeActorId :: string
  brClass :: ArtifactClass
  brExpectedDigest :: string
  brExpectedSize :: string
  brMediaType :: string
  brOperationId :: string
  brAttemptId :: string
  brDeadline :: time

record FinalizeTransferRequest =
  frCommand :: CommandIdentity
  frHandle :: string
  frObjectVersion :: string
  frInstanceId :: string

record ReadArtifactRequest =
  rrHandle :: string
  rrOperationId :: string
  rrInstanceId :: string
  rrTenantId :: string

record AcceptResultRequest =
  arqCommand :: CommandIdentity
  arqAttemptId :: string
  arqInstanceId :: string
  arqProfileId :: string
  arqVerdict :: Verdict
  arqResultDigest :: string
  arqResultManifest :: bytes
  arqObserverIdentity :: string
  arqExecutionEpoch :: string
  arqFailureCode :: "string option"

record GetAcceptedStageRequest =
  gsAttemptId :: string
  gsTenantId :: string
  gsOperationId :: string

record ProgressRequest =
  pqCommand :: CommandIdentity
  pqAttemptId :: string
  pqInstanceId :: string
  pqExecutionEpoch :: string
  pqNode :: string
  pqState :: string
  pqRound :: string
  pqOutcomeCode :: "string option"

section \<open>Messages of the relays\<close>

text \<open>
  The Model Proxy's content types (messages, tools) are opaque to the sidecar; they are
  carried as the \<open>json\<close> value their contract decodes to.
\<close>

record Money =
  moCurrency :: string
  moAmount :: string

record ExecutionBinding =
  ebTenantId :: string
  ebOperationId :: string
  ebAttemptId :: string
  ebExecutionEpoch :: string
  ebInstanceId :: "string option"

record ModelCallRequest =
  mcCallId :: string
  mcBinding :: ExecutionBinding
  mcRouteId :: string
  mcRequestDigest :: string
  mcMessages :: "json list"
  mcTools :: "json list option"
  mcMaxOutputTokens :: int
  mcMaxExposure :: Money
  mcDeadline :: string

record SubjectScope =
  ssTenantId :: string
  ssProjectId :: string
  ssActorId :: string

record CreateCallRequest =
  ccCommand :: CommandIdentity
  ccScope :: SubjectScope
  ccGrantId :: string
  ccGrantRevision :: string
  ccMethod :: string
  ccArgumentRef :: string
  ccArgumentDigest :: string
  ccArguments :: bytes
  ccOperationId :: string
  ccAttemptId :: string
  ccInstanceId :: string
  ccExecutionEpoch :: string
  ccDeadline :: time

record ToolCallMessage =
  tcCallId :: string
  tcState :: string
  tcFailureCode :: string
  tcResult :: bytes
  tcResultDigest :: string

record CreateCallResponse =
  crCall :: "ToolCallMessage option"
  crExisting :: bool

record KSearchRequest =
  kqScope :: SubjectScope
  kqSnapshotId :: string
  kqQuery :: string
  kqMaxContextItems :: nat
  kqRetrievalProfileId :: string
  kqDeadline :: time

record Citation =
  ctOrdinal :: string
  ctSourceId :: string
  ctSourceRevision :: string
  ctChunkId :: string
  ctLocator :: string
  ctContentDigest :: string
  ctScore :: string

record KItem =
  kiText :: string
  kiCitation :: "Citation option"

record KSearchResponse =
  krItems :: "KItem list"
  krNoAnswer :: bool
  krIndexGeneration :: string
  krAuthorizationRevision :: string

section \<open>Plain HTTP of the transfer capabilities and the Model Proxy\<close>

record http_request =
  hqMethod :: string
  hqUrl :: string
  hqHeaders :: "(string \<times> string) list"
  hqBody :: bytes

text \<open>
  A response: its body as delivered, and whether reading it ended with an error (a torn
  connection) after those bytes.
\<close>

record http_response =
  hpStatus :: int
  hpHeaders :: "(string \<times> string) list"
  hpBody :: bytes
  hpTorn :: bool

section \<open>The history of outbound calls\<close>

datatype event =
    ReadClock
  | GetInstance GetInstanceRequest
  | BeginTransfer BeginTransferRequest
  | FinalizeTransfer FinalizeTransferRequest
  | ReadArtifact ReadArtifactRequest
  | AcceptResult AcceptResultRequest
  | GetAcceptedStage GetAcceptedStageRequest
  | RecordAttemptProgress ProgressRequest
  | HttpDo http_request
  | CreateModelCall ModelCallRequest
  | CreateCall CreateCallRequest
  | KnowledgeSearch KSearchRequest

type_synonym hist = "event list"

text \<open>
  Everything outside the process: each answer may depend on all that was asked before it.
  A deadline of a context is the peer's business: an overrun is one of its error answers.
\<close>

record upstream =
  clock :: "hist \<Rightarrow> time"
  getInstance :: "hist \<Rightarrow> GetInstanceRequest \<Rightarrow> rpc_error + GetInstanceResponse"
  beginTransfer :: "hist \<Rightarrow> BeginTransferRequest \<Rightarrow> rpc_error + BeginTransferResponse"
  finalizeTransfer :: "hist \<Rightarrow> FinalizeTransferRequest \<Rightarrow> rpc_error + ArtifactTransfer option"
  readArtifact :: "hist \<Rightarrow> ReadArtifactRequest \<Rightarrow> rpc_error + ReadArtifactResponse"
  acceptResult :: "hist \<Rightarrow> AcceptResultRequest \<Rightarrow> rpc_error + AcceptResultResponse"
  getAcceptedStage :: "hist \<Rightarrow> GetAcceptedStageRequest \<Rightarrow> rpc_error + StageMessage option"
  recordAttemptProgress :: "hist \<Rightarrow> ProgressRequest \<Rightarrow> rpc_error + ProgressResponse"
  newRequest :: "string \<Rightarrow> string \<Rightarrow> string option"
  httpDo :: "hist \<Rightarrow> http_request \<Rightarrow> http_response option"
  createModelCall :: "hist \<Rightarrow> ModelCallRequest \<Rightarrow> string + http_response"
  createCall :: "hist \<Rightarrow> CreateCallRequest \<Rightarrow> rpc_error + CreateCallResponse"
  knowledgeSearchRpc :: "hist \<Rightarrow> KSearchRequest \<Rightarrow> rpc_error + KSearchResponse"

text \<open>One remote call: its answer, and the history with the call appended.\<close>

definition rpc :: "(hist \<Rightarrow> 'q \<Rightarrow> 'a) \<Rightarrow> ('q \<Rightarrow> event) \<Rightarrow> 'q \<Rightarrow> hist \<Rightarrow> 'a \<times> hist" where
  "rpc f ev q h = (f h q, h @ [ev q])"

section \<open>Operations: a result and the history\<close>

type_synonym 'a act = "hist \<Rightarrow> (err + 'a) \<times> hist"

definition bind_act :: "'a act \<Rightarrow> ('a \<Rightarrow> 'b act) \<Rightarrow> 'b act" where
  "bind_act m f h = (case m h of (Inl e, h') \<Rightarrow> (Inl e, h') | (Inr x, h') \<Rightarrow> f x h')"

lemma bind_act_Inr [result_simps]:
  "bind_act m f h = (Inr y, h'') \<longleftrightarrow> (\<exists>x h'. m h = (Inr x, h') \<and> f x h' = (Inr y, h''))"
  by (auto simp: bind_act_def split: prod.splits sum.splits)

end
