(* ===== verification/GoText.thy ===== *)
theory GoText
  imports Json
begin

text \<open>
  Two more pieces of Go's standard library the components share: \<open>strconv.Quote\<close> (the
  \<open>%q\<close> verb), with the Unicode printability table of the code points above ASCII as a
  parameter, and the canonical header keys and header maps of net/http.
\<close>

section \<open>Quote\<close>

text \<open>The code point of a valid encoding.\<close>

definition rune_of :: "bytes \<Rightarrow> nat" where
  "rune_of s =
     (case s of
        [a] \<Rightarrow> byte a
      | [a, b] \<Rightarrow> byte a mod 32 * 64 + byte b mod 64
      | [a, b, c] \<Rightarrow> byte a mod 16 * 4096 + byte b mod 64 * 64 + byte c mod 64
      | [a, b, c, d] \<Rightarrow> byte a mod 8 * 262144 + byte b mod 64 * 4096 + byte c mod 64 * 64 + byte d mod 64
      | _ \<Rightarrow> 65533)"

definition hex_pad :: "nat \<Rightarrow> nat \<Rightarrow> string" where
  "hex_pad w n = map (\<lambda>i. hex_digit (n div 16 ^ i mod 16)) (rev [0..<w])"

definition control_escape :: "char \<Rightarrow> string" where
  "control_escape c =
     (if c = CHR 0x07 then [backslash, CHR ''a'']
      else if c = CHR 0x08 then [backslash, CHR ''b'']
      else if c = CHR 0x0C then [backslash, CHR ''f'']
      else if c = CHR 0x0A then [backslash, CHR ''n'']
      else if c = CHR 0x0D then [backslash, CHR ''r'']
      else if c = CHR 0x09 then [backslash, CHR ''t'']
      else if c = CHR 0x0B then [backslash, CHR ''v'']
      else backslash # CHR ''x'' # hex_pad 2 (byte c))"

definition go_quote_step :: "(nat \<Rightarrow> bool) \<Rightarrow> bytes \<Rightarrow> string \<times> bytes" where
  "go_quote_step printable s =
     (case s of
        [] \<Rightarrow> ([], [])
      | c # r \<Rightarrow>
          if byte c < 128 then
            (if c = quote_char \<or> c = backslash then ([backslash, c], r)
             else if 32 \<le> byte c \<and> byte c < 127 then ([c], r)
             else (control_escape c, r))
          else if utf8_len s = 0 then (backslash # CHR ''x'' # hex_pad 2 (byte c), r)
          else (let e = take (utf8_len s) s; u = rune_of e; t = drop (utf8_len s) s in
                if printable u then (e, t)
                else if u < 65536 then (backslash # CHR ''u'' # hex_pad 4 u, t)
                else (backslash # CHR ''U'' # hex_pad 8 u, t)))"

lemma go_quote_step_shorter: "s \<noteq> [] \<Longrightarrow> length (snd (go_quote_step pr s)) < length s"
  by (cases s) (auto simp: go_quote_step_def Let_def)

function go_quote_body :: "(nat \<Rightarrow> bool) \<Rightarrow> bytes \<Rightarrow> string" where
  "go_quote_body pr s =
     (if s = [] then [] else fst (go_quote_step pr s) @ go_quote_body pr (snd (go_quote_step pr s)))"
  by pat_completeness auto
termination
  by (relation "measure (\<lambda>(pr, s). length s)") (auto simp: go_quote_step_shorter)

declare go_quote_body.simps [simp del]

definition Quote :: "(nat \<Rightarrow> bool) \<Rightarrow> bytes \<Rightarrow> string" where
  "Quote pr s = quote_char # go_quote_body pr s @ [quote_char]"

section \<open>Headers\<close>

definition is_token_char :: "char \<Rightarrow> bool" where
  "is_token_char c = (is_lower c \<or> is_upper c \<or> is_digit c \<or>
     c \<in> set ''!#$%&*+-.^_|~'' \<or> byte c = 39 \<or> byte c = 96)"

fun canonical_from :: "bool \<Rightarrow> string \<Rightarrow> string" where
  "canonical_from up [] = []"
| "canonical_from up (c # s) =
     (if up then upper_char c else lower_char c) # canonical_from (c = CHR ''-'') s"

definition canonical_key :: "string \<Rightarrow> string" where
  "canonical_key k = (if list_all is_token_char k then canonical_from True k else k)"

text \<open>A header: its entries by canonical key, first set first.\<close>

type_synonym header = "(string \<times> string) list"

definition header_set :: "string \<Rightarrow> string \<Rightarrow> header \<Rightarrow> header" where
  "header_set k v h = filter (\<lambda>e. fst e \<noteq> canonical_key k) h @ [(canonical_key k, v)]"

definition header_get :: "header \<Rightarrow> string \<Rightarrow> string" where
  "header_get h k = (case map_of h (canonical_key k) of None \<Rightarrow> [] | Some v \<Rightarrow> v)"

text \<open>\<open>strings.EqualFold\<close> with a text of ASCII letters other than k and s.\<close>

definition equal_fold :: "string \<Rightarrow> string \<Rightarrow> bool" where
  "equal_fold a b = (map lower_char a = map lower_char b)"

lemma header_get_set [simp]: "header_get (header_set k v h) k = v"
proof -
  have "map_of (filter (\<lambda>e. fst e \<noteq> c) h @ [(c, v)]) c = Some v" for c :: string
    by (induction h) auto
  then show ?thesis by (simp add: header_get_def header_set_def)
qed

lemma header_get_set_other:
  "canonical_key k \<noteq> canonical_key j \<Longrightarrow> header_get (header_set k v h) j = header_get h j"
proof -
  assume ne: "canonical_key k \<noteq> canonical_key j"
  have "c \<noteq> d \<Longrightarrow> map_of (filter (\<lambda>e. fst e \<noteq> c) h @ [(c, v)]) d = map_of h d" for c d :: string
    by (induction h) auto
  from this [OF ne] show ?thesis by (simp add: header_get_def header_set_def)
qed

end
