(* ===== verification/Authz.thy ===== *)
theory Authz
  imports Spiffe Contracts GoText
begin

text \<open>
  internal/identity/authz.go: the method policy, its validation against the registered
  methods and the decision that runs ahead of every handler.  A policy is its entries in
  the order a loop over the Go map visits them; its keys are distinct.
\<close>

definition AnyAuthenticated :: Workload where
  "AnyAuthenticated = \<lparr>woNamespace = ''*'', woServiceAccount = ''*''\<rparr>"

type_synonym Policy = "(string \<times> Workload list) list"

record Authorizer =
  azTrustDomain :: string
  azPolicy :: Policy

section \<open>Construction\<close>

datatype policy_error =
    BadTrustDomain string | BadMethod string | AllowsNobody string | BadWorkload string Workload

fun refused_workload :: "string \<Rightarrow> Workload list \<Rightarrow> policy_error option" where
  "refused_workload method [] = None"
| "refused_workload method (w # ws) =
     (if w = AnyAuthenticated then refused_workload method ws
      else if \<not> matches label_re (woNamespace w) \<or> \<not> matches label_re (woServiceAccount w)
      then Some (BadWorkload method w)
      else refused_workload method ws)"

definition count_char :: "char \<Rightarrow> string \<Rightarrow> nat" where
  "count_char c s = length (filter (\<lambda>x. x = c) s)"

fun refused_policy :: "Policy \<Rightarrow> policy_error option" where
  "refused_policy [] = None"
| "refused_policy ((method, allowed) # rest) =
     (if \<not> has_prefix method ''/'' \<or> count_char CHR ''/'' method \<noteq> 2 then Some (BadMethod method)
      else if length allowed = 0 then Some (AllowsNobody method)
      else (case refused_workload method allowed of
              Some e \<Rightarrow> Some e
            | None \<Rightarrow> refused_policy rest))"

definition NewAuthorizer :: "string \<Rightarrow> Policy \<Rightarrow> policy_error + Authorizer" where
  "NewAuthorizer td policy =
     (if \<not> ValidTrustDomain td then Inl (BadTrustDomain td)
      else (case refused_policy policy of
              Some e \<Rightarrow> Inl e
            | None \<Rightarrow> Inr \<lparr>azTrustDomain = td, azPolicy = policy\<rparr>))"

section \<open>The registered methods\<close>

text \<open>\<open>grpc.Server.GetServiceInfo\<close>: the services with the names of their methods.\<close>

type_synonym services = "(string \<times> string list) list"

definition full_method :: "string \<Rightarrow> string \<Rightarrow> string" where
  "full_method service m = ''/'' @ service @ ''/'' @ m"

definition registered_methods :: "services \<Rightarrow> string list" where
  "registered_methods srv = concat (map (\<lambda>(name, ms). map (full_method name) ms) srv)"

text \<open>The methods without an entry and the entries without a method, when there are any.\<close>

definition Check :: "Authorizer \<Rightarrow> services \<Rightarrow> (string list \<times> string list) option" where
  "Check a srv =
     (let registered = registered_methods srv;
          missing = sort (filter (\<lambda>m. map_of (azPolicy a) m = None) registered);
          stale = sort (filter (\<lambda>m. m \<notin> set registered) (map fst (azPolicy a)))
      in if length missing > 0 \<or> length stale > 0 then Some (missing, stale) else None)"

section \<open>The decision\<close>

definition policy_entry :: "Authorizer \<Rightarrow> string \<Rightarrow> Workload list" where
  "policy_entry a method = (case map_of (azPolicy a) method of None \<Rightarrow> [] | Some ws \<Rightarrow> ws)"

definition Allowed :: "Authorizer \<Rightarrow> string \<Rightarrow> Principal \<Rightarrow> bool" where
  "Allowed a method p =
     (if prTrustDomain p \<noteq> azTrustDomain a then False
      else list_ex (\<lambda>w. w = AnyAuthenticated
             \<or> (woNamespace w = prNamespace p \<and> woServiceAccount w = prServiceAccount p))
             (policy_entry a method))"

record PeerInfo =
  pfPrincipal :: Principal
  pfErr :: "spiffe_error option"
  pfRoot :: Certificate

text \<open>What \<open>peer.FromContext\<close> answers: no peer, one without transport identity, one of other credentials, or ours.\<close>

datatype peer_auth = NoPeer | NoAuthInfo | OtherAuthInfo | WorkloadPeer PeerInfo

fun spiffe_error_text :: "(nat \<Rightarrow> bool) \<Rightarrow> (url \<Rightarrow> string) \<Rightarrow> spiffe_error \<Rightarrow> string" where
  "spiffe_error_text pr str NoURI = ''no uri''"
| "spiffe_error_text pr str (NotWorkloadIdentity u) =
     ''uri '' @ Quote pr (str u) @ '' is not a workload identity''"
| "spiffe_error_text pr str (NoTrustDomain u) = ''uri '' @ Quote pr (str u) @ '' has no valid trust domain''"
| "spiffe_error_text pr str (BadPath u) =
     ''uri '' @ Quote pr (str u) @ '' path is not /ns/<namespace>/sa/<service-account>''"
| "spiffe_error_text pr str NoPeerCertificate = ''no peer certificate''"
| "spiffe_error_text pr str (URICount n) =
     ''peer certificate carries '' @ show_nat n @ '' URI SANs, exactly one workload identity is required''"

definition Authorize ::
  "(spiffe_error \<Rightarrow> string) \<Rightarrow> Authorizer \<Rightarrow> peer_auth \<Rightarrow> string \<Rightarrow> rpc_error option" where
  "Authorize text_of a pr method =
     (case pr of
        NoPeer \<Rightarrow> Some (Status Unauthenticated ''UNAUTHENTICATED: no transport identity'')
      | NoAuthInfo \<Rightarrow> Some (Status Unauthenticated ''UNAUTHENTICATED: no transport identity'')
      | OtherAuthInfo \<Rightarrow>
          Some (Status Unauthenticated ''UNAUTHENTICATED: no workload identity on this connection'')
      | WorkloadPeer info \<Rightarrow>
          (case pfErr info of
             Some e \<Rightarrow> Some (Status Unauthenticated (''UNAUTHENTICATED: '' @ text_of e))
           | None \<Rightarrow>
               if \<not> Allowed a method (pfPrincipal info)
               then Some (Status PermissionDenied
                 (''PERMISSION_DENIED: '' @ Principal_String (pfPrincipal info) @ '' may not call '' @ method))
               else None))"

text \<open>The interceptor of unary and of streaming calls: the handler runs on the state only when authorized.\<close>

definition Intercept ::
  "(spiffe_error \<Rightarrow> string) \<Rightarrow> Authorizer \<Rightarrow> peer_auth \<Rightarrow> string \<Rightarrow> ('s \<Rightarrow> (rpc_error + 'a) \<times> 's) \<Rightarrow> 's \<Rightarrow> (rpc_error + 'a) \<times> 's" where
  "Intercept text_of a pr method handler s =
     (case Authorize text_of a pr method of
        Some e \<Rightarrow> (Inl e, s)
      | None \<Rightarrow> handler s)"

definition Caller :: "peer_auth \<Rightarrow> Principal option" where
  "Caller pr =
     (case pr of
        WorkloadPeer info \<Rightarrow> if pfErr info \<noteq> None then None else Some (pfPrincipal info)
      | _ \<Rightarrow> None)"

section \<open>Lemmas\<close>

definition workload_ok :: "Workload \<Rightarrow> bool" where
  "workload_ok w \<longleftrightarrow> w = AnyAuthenticated \<or> is_label (woNamespace w) \<and> is_label (woServiceAccount w)"

definition policy_ok :: "Policy \<Rightarrow> bool" where
  "policy_ok policy \<longleftrightarrow>
     list_all (\<lambda>(method, allowed).
       has_prefix method ''/'' \<and> count_char CHR ''/'' method = 2 \<and> allowed \<noteq> [] \<and> list_all workload_ok allowed) policy"

lemma refused_workload_None: "refused_workload method ws = None \<longleftrightarrow> list_all workload_ok ws"
  by (induction ws) (auto simp: workload_ok_def)

lemma refused_policy_None: "refused_policy policy = None \<longleftrightarrow> policy_ok policy"
proof (induction policy rule: refused_policy.induct)
  case (2 m ws rest)
  then show ?case
    using refused_workload_None [of m ws]
    by (cases "refused_workload m ws") (auto simp: policy_ok_def)
qed (simp add: policy_ok_def)

lemma NewAuthorizer_Inr:
  "NewAuthorizer td policy = Inr a \<longleftrightarrow>
     is_trust_domain td \<and> policy_ok policy \<and> a = \<lparr>azTrustDomain = td, azPolicy = policy\<rparr>"
  by (auto simp: NewAuthorizer_def ValidTrustDomain_def refused_policy_None [symmetric] split: option.splits)

lemma in_registered: "x \<in> set (registered_methods srv) \<longleftrightarrow> (\<exists>n ms m. (n, ms) \<in> set srv \<and> m \<in> set ms \<and> x = full_method n m)"
  by (force simp: registered_methods_def)

lemma Check_None:
  "Check a srv = None \<longleftrightarrow> set (registered_methods srv) = fst ` set (azPolicy a)"
proof -
  have "(if length (sort xs) > 0 \<or> length (sort ys) > 0 then Some r else None) = None \<longleftrightarrow> xs = [] \<and> ys = []"
    for xs ys :: "string list" and r :: "string list \<times> string list"
    by (cases xs; cases ys) simp_all
  then have "Check a srv = None \<longleftrightarrow>
      filter (\<lambda>m. map_of (azPolicy a) m = None) (registered_methods srv) = []
      \<and> filter (\<lambda>m. m \<notin> set (registered_methods srv)) (map fst (azPolicy a)) = []"
    unfolding Check_def Let_def .
  also have "\<dots> \<longleftrightarrow> set (registered_methods srv) \<subseteq> fst ` set (azPolicy a)
      \<and> fst ` set (azPolicy a) \<subseteq> set (registered_methods srv)"
    unfolding filter_empty_conv map_of_eq_None_iff by (simp only: set_map) blast
  finally show ?thesis by blast
qed

lemma Allowed_iff:
  "Allowed a method p \<longleftrightarrow> prTrustDomain p = azTrustDomain a
     \<and> (\<exists>ws. map_of (azPolicy a) method = Some ws
          \<and> (AnyAuthenticated \<in> set ws \<or> \<lparr>woNamespace = prNamespace p, woServiceAccount = prServiceAccount p\<rparr> \<in> set ws))"
proof -
  have "(\<exists>w \<in> set ws. w = AnyAuthenticated \<or> woNamespace w = prNamespace p \<and> woServiceAccount w = prServiceAccount p)
      \<longleftrightarrow> AnyAuthenticated \<in> set ws \<or> \<lparr>woNamespace = prNamespace p, woServiceAccount = prServiceAccount p\<rparr> \<in> set ws" for ws
    by (metis (full_types) Workload.cases Workload.select_convs(1) Workload.select_convs(2))
  then show ?thesis
    by (cases "map_of (azPolicy a) method") (simp_all add: Allowed_def policy_entry_def list_ex_iff)
qed

lemma Authorize_None:
  "Authorize txt a pr method = None \<longleftrightarrow> (\<exists>p. Caller pr = Some p \<and> Allowed a method p)"
  by (auto simp: Authorize_def Caller_def split: peer_auth.splits option.splits)

lemma Authorize_code:
  "Authorize txt a pr method = Some e \<Longrightarrow>
     status_code e = (if Caller pr = None then Unauthenticated else PermissionDenied)"
  by (auto simp: Authorize_def Caller_def split: peer_auth.splits option.splits if_splits)

end
