(* ===== verification/Credentials.thy ===== *)
theory Credentials
  imports Reloader Authz
begin

text \<open>
  internal/identity/credentials.go: the connections a server accepted, by the root that
  verified each; the configuration of every handshake from the current material; and the
  closing of what a reload retires.  A connection is a number; the TLS handshake itself is
  a parameter.
\<close>

type_synonym conn = nat
type_synonym tracker = "(bytes \<times> conn list) list"

section \<open>The tracker\<close>

definition tracker_add :: "Certificate \<Rightarrow> conn \<Rightarrow> tracker \<Rightarrow> tracker" where
  "tracker_add root c t =
     (let fp = fingerprint root;
          conns = (case map_of t fp of None \<Rightarrow> [] | Some cs \<Rightarrow> cs)
      in AList.update fp (List.insert c conns) t)"

definition tracker_remove :: "Certificate \<Rightarrow> conn \<Rightarrow> tracker \<Rightarrow> tracker" where
  "tracker_remove root c t =
     (let fp = fingerprint root in
      case map_of t fp of
        None \<Rightarrow> t
      | Some cs \<Rightarrow>
          let cs' = removeAll c cs in
          if length cs' = 0 then AList.delete fp t else AList.update fp cs' t)"

text \<open>The entries that stay and the connections closed, in the order of the loop.\<close>

fun close_retired :: "(bytes \<times> Certificate) list \<Rightarrow> tracker \<Rightarrow> tracker \<times> conn list" where
  "close_retired roots [] = ([], [])"
| "close_retired roots ((fp, cs) # rest) =
     (case close_retired roots rest of (keep, closed) \<Rightarrow>
        if map_of roots fp \<noteq> None then ((fp, cs) # keep, closed) else (keep, cs @ closed))"

definition closeRetired :: "Material \<Rightarrow> tracker \<Rightarrow> tracker \<times> conn list \<times> nat" where
  "closeRetired current t =
     (case close_retired (maRoots current) t of (t', closed) \<Rightarrow> (t', closed, length closed))"

section \<open>The state of a server's and a client's connections\<close>

text \<open>
  \<open>cnLog\<close> is the lines "closed connections of retired trust", each with its number of connections.
\<close>

record conns =
  cnTracker :: tracker
  cnClosed :: "conn list"
  cnIdle :: "conn list"
  cnLog :: "nat list"

definition on_server_change :: "Material \<Rightarrow> Material \<Rightarrow> conns \<Rightarrow> conns" where
  "on_server_change previous current s =
     (case closeRetired current (cnTracker s) of
        (t, closed, n) \<Rightarrow>
          let s' = s\<lparr>cnTracker := t, cnClosed := cnClosed s @ closed\<rparr> in
          if n > 0 then s'\<lparr>cnLog := cnLog s' @ [n]\<rparr> else s')"

definition NewServerCredentials :: "conns Reloader \<Rightarrow> conns Reloader" where
  "NewServerCredentials r = OnChange on_server_change r"

text \<open>\<open>trackedConn.Close\<close>: the entry goes once, the connection is closed every time.\<close>

record trackedConn =
  tkConn :: conn
  tkRoot :: Certificate
  tkDone :: bool

definition tracked_close :: "trackedConn \<Rightarrow> conns \<Rightarrow> trackedConn \<times> conns" where
  "tracked_close k s =
     (let s1 = (if tkDone k then s else s\<lparr>cnTracker := tracker_remove (tkRoot k) (tkConn k) (cnTracker s)\<rparr>)
      in (k\<lparr>tkDone := True\<rparr>, s1\<lparr>cnClosed := cnClosed s1 @ [tkConn k]\<rparr>))"

section \<open>Handshakes\<close>

datatype client_auth = NoClientCert | RequireAndVerifyClientCert
datatype tls_version = VersionTLS12 | VersionTLS13

record tls_config =
  tcCertificates :: "tls_certificate list"
  tcClientCAs :: "Certificate list"
  tcRootCAs :: "Certificate list"
  tcClientAuth :: client_auth
  tcMinVersion :: tls_version
  tcSessionTicketsDisabled :: bool
  tcServerName :: string
  tcGetClientCertificate :: "(Material \<Rightarrow> tls_certificate) option"

definition server_config :: "Material \<Rightarrow> tls_config" where
  "server_config m =
     \<lparr>tcCertificates = [maCertificate m], tcClientCAs = maPool m, tcRootCAs = [],
      tcClientAuth = RequireAndVerifyClientCert, tcMinVersion = VersionTLS13,
      tcSessionTicketsDisabled = True, tcServerName = [], tcGetClientCertificate = None\<rparr>"

text \<open>What a finished TLS handshake answers: its verified chains, when its state is one of TLS.\<close>

type_synonym tls_handshake = "tls_config \<Rightarrow> conn \<Rightarrow> string + Certificate list list option"

datatype handshake_error = HandshakeFailed string | ChainNotVerified | NotThisSide

definition peer_info :: "Certificate list \<Rightarrow> PeerInfo" where
  "peer_info chain =
     (let root = chain ! (length chain - 1) in
      case PeerPrincipal (Some (chain ! 0)) of
        Inl e \<Rightarrow> \<lparr>pfPrincipal = \<lparr>prTrustDomain = [], prNamespace = [], prServiceAccount = []\<rparr>,
                  pfErr = Some e, pfRoot = root\<rparr>
      | Inr p \<Rightarrow> \<lparr>pfPrincipal = p, pfErr = None, pfRoot = root\<rparr>)"

definition ServerHandshake ::
  "tls_handshake \<Rightarrow> conns Reloader \<Rightarrow> conn \<Rightarrow> conns \<Rightarrow> (handshake_error + trackedConn \<times> PeerInfo) \<times> conns" where
  "ServerHandshake hs r raw s =
     (case hs (server_config (Current r)) raw of
        Inl e \<Rightarrow> (Inl (HandshakeFailed e), s)
      | Inr info \<Rightarrow>
          let chains = (case info of None \<Rightarrow> [] | Some cs \<Rightarrow> cs) in
          if length chains = 0 \<or> length (chains ! 0) = 0
          then (Inl ChainNotVerified, s\<lparr>cnClosed := cnClosed s @ [raw]\<rparr>)
          else let peer = peer_info (chains ! 0) in
            (Inr (\<lparr>tkConn = raw, tkRoot = pfRoot peer, tkDone = False\<rparr>, peer),
             s\<lparr>cnTracker := tracker_add (pfRoot peer) raw (cnTracker s)\<rparr>))"

text \<open>Server credentials do not dial, and client credentials do not serve.\<close>

definition server_ClientHandshake :: "conn \<Rightarrow> handshake_error + trackedConn \<times> PeerInfo" where
  "server_ClientHandshake raw = Inl NotThisSide"

definition client_ServerHandshake :: "conn \<Rightarrow> handshake_error + trackedConn \<times> PeerInfo" where
  "client_ServerHandshake raw = Inl NotThisSide"

record protocol_info =
  ptSecurityProtocol :: string
  ptSecurityVersion :: string
  ptServerName :: string

definition server_Info :: protocol_info where
  "server_Info = \<lparr>ptSecurityProtocol = ''tls'', ptSecurityVersion = ''1.3'', ptServerName = []\<rparr>"

section \<open>Clients\<close>

record clientCreds =
  ckServerName :: string

definition NewClientCredentials :: "string \<Rightarrow> string + clientCreds" where
  "NewClientCredentials serverName =
     (if serverName = [] then Inl ''identity: server_name is required for hostname verification''
      else Inr \<lparr>ckServerName = serverName\<rparr>)"

definition client_config :: "clientCreds \<Rightarrow> Material \<Rightarrow> tls_config" where
  "client_config c m =
     \<lparr>tcCertificates = [maCertificate m], tcClientCAs = [], tcRootCAs = maPool m,
      tcClientAuth = NoClientCert, tcMinVersion = VersionTLS13, tcSessionTicketsDisabled = False,
      tcServerName = ckServerName c, tcGetClientCertificate = None\<rparr>"

definition ClientHandshake :: "tls_handshake \<Rightarrow> clientCreds \<Rightarrow> 's Reloader \<Rightarrow> conn \<Rightarrow> string + Certificate list list option" where
  "ClientHandshake hs c r raw = hs (client_config c (Current r)) raw"

definition client_Info :: "clientCreds \<Rightarrow> protocol_info" where
  "client_Info c =
     \<lparr>ptSecurityProtocol = ''tls'', ptSecurityVersion = ''1.3'', ptServerName = ckServerName c\<rparr>"

definition client_Clone :: "clientCreds \<Rightarrow> clientCreds" where
  "client_Clone c = \<lparr>ckServerName = ckServerName c\<rparr>"

definition OverrideServerName :: "string \<Rightarrow> clientCreds \<Rightarrow> clientCreds" where
  "OverrideServerName name c = c"

definition ClientTLSConfig :: "Material \<Rightarrow> string \<Rightarrow> tls_config" where
  "ClientTLSConfig m serverName =
     \<lparr>tcCertificates = [], tcClientCAs = [], tcRootCAs = maPool m, tcClientAuth = NoClientCert,
      tcMinVersion = VersionTLS13, tcSessionTicketsDisabled = False, tcServerName = serverName,
      tcGetClientCertificate = Some maCertificate\<rparr>"

text \<open>\<open>HTTPTransport\<close>: what a new connection of it is, and its callback.\<close>

definition DialTLS ::
  "(string \<Rightarrow> string + conn) \<Rightarrow> tls_handshake \<Rightarrow> Material \<Rightarrow> string \<Rightarrow> string \<Rightarrow> conns \<Rightarrow> (string + conn) \<times> conns" where
  "DialTLS dial hs m serverName addr s =
     (case dial addr of
        Inl e \<Rightarrow> (Inl e, s)
      | Inr raw \<Rightarrow>
          (case hs (ClientTLSConfig m serverName) raw of
             Inl e \<Rightarrow> (Inl e, s\<lparr>cnClosed := cnClosed s @ [raw]\<rparr>)
           | Inr _ \<Rightarrow> (Inr raw, s)))"

definition on_transport_change :: "Material \<Rightarrow> Material \<Rightarrow> conns \<Rightarrow> conns" where
  "on_transport_change previous current s =
     (if length (RetiredRoots previous current) > 0
      then s\<lparr>cnClosed := cnClosed s @ cnIdle s, cnIdle := []\<rparr> else s)"

definition HTTPTransport :: "conns Reloader \<Rightarrow> conns Reloader" where
  "HTTPTransport r = OnChange on_transport_change r"

section \<open>What is tracked\<close>

definition tracked :: "tracker \<Rightarrow> (bytes \<times> conn) set" where
  "tracked t = {(fp, c). \<exists>cs. map_of t fp = Some cs \<and> c \<in> set cs}"

definition tracker_ok :: "tracker \<Rightarrow> bool" where
  "tracker_ok t \<longleftrightarrow> distinct (map fst t) \<and> list_all (\<lambda>(fp, cs). cs \<noteq> [] \<and> distinct cs) t"

lemma tracker_ok_map_of:
  "tracker_ok t \<longleftrightarrow> distinct (map fst t) \<and> (\<forall>fp cs. map_of t fp = Some cs \<longrightarrow> cs \<noteq> [] \<and> distinct cs)"
  by (auto simp: tracker_ok_def list_all_iff) (metis map_of_SomeD case_prodD)+

lemma tracked_add: "tracked (tracker_add root c t) = insert (fingerprint root, c) (tracked t)"
  by (auto simp: tracked_def tracker_add_def Let_def update_conv' split: option.splits if_splits)

lemma tracked_remove: "tracked (tracker_remove root c t) = tracked t - {(fingerprint root, c)}"
proof (cases "map_of t (fingerprint root)")
  case None
  then show ?thesis by (auto simp: tracked_def tracker_remove_def Let_def)
next
  case (Some cs)
  show ?thesis
  proof (cases "removeAll c cs = []")
    case True
    then have "set cs \<subseteq> {c}" by (metis Diff_eq_empty_iff set_empty set_removeAll)
    with Some True show ?thesis
      by (auto simp: tracked_def tracker_remove_def Let_def delete_conv' split: if_splits)
  next
    case False
    with Some show ?thesis
      by (auto simp: tracked_def tracker_remove_def Let_def update_conv' split: if_splits)
  qed
qed

lemma close_retired_keep: "fst (close_retired roots t) = filter (\<lambda>(fp, cs). map_of roots fp \<noteq> None) t"
  by (induction roots t rule: close_retired.induct) (auto split: prod.splits)

lemma close_retired_closed:
  "snd (close_retired roots t) = concat (map snd (filter (\<lambda>(fp, cs). map_of roots fp = None) t))"
  by (induction roots t rule: close_retired.induct) (auto split: prod.splits)

lemma map_of_filter_key: "map_of (filter (\<lambda>(k, v). P k) t) k = (if P k then map_of t k else None)"
  by (induction t) auto

definition retired_conns :: "Material \<Rightarrow> tracker \<Rightarrow> conn list" where
  "retired_conns m t = concat (map snd (filter (\<lambda>(fp, cs). map_of (maRoots m) fp = None) t))"

lemma closeRetired_eq:
  "closeRetired m t = (filter (\<lambda>(fp, cs). map_of (maRoots m) fp \<noteq> None) t, retired_conns m t, length (retired_conns m t))"
  using close_retired_keep [of "maRoots m" t] close_retired_closed [of "maRoots m" t]
  by (cases "close_retired (maRoots m) t") (simp add: closeRetired_def retired_conns_def)

lemma tracked_closeRetired:
  "tracked (fst (closeRetired m t)) = {(fp, c) \<in> tracked t. map_of (maRoots m) fp \<noteq> None}"
  by (auto simp: closeRetired_eq tracked_def map_of_filter_key split: if_splits)

lemma set_retired_conns:
  "tracker_ok t \<Longrightarrow> set (retired_conns m t) = {c. \<exists>fp. (fp, c) \<in> tracked t \<and> map_of (maRoots m) fp = None}"
proof -
  assume "tracker_ok t"
  then have "(fp, cs) \<in> set t \<longleftrightarrow> map_of t fp = Some cs" for fp cs
    by (simp add: tracker_ok_def)
  moreover have "set (retired_conns m t) = {c. \<exists>fp cs. (fp, cs) \<in> set t \<and> map_of (maRoots m) fp = None \<and> c \<in> set cs}"
    by (force simp: retired_conns_def)
  ultimately show ?thesis by (simp add: tracked_def) blast
qed

lemma tracker_ok_update:
  "tracker_ok t \<Longrightarrow> cs \<noteq> [] \<Longrightarrow> distinct cs \<Longrightarrow> tracker_ok (AList.update fp cs t)"
  by (auto simp: tracker_ok_map_of update_conv' distinct_update)

lemma tracker_ok_add: "tracker_ok t \<Longrightarrow> tracker_ok (tracker_add root c t)"
  unfolding tracker_add_def Let_def
  by (rule tracker_ok_update) (auto simp: tracker_ok_map_of List.insert_def split: option.split)

lemma tracker_ok_delete: "tracker_ok t \<Longrightarrow> tracker_ok (AList.delete fp t)"
  unfolding tracker_ok_map_of delete_conv' by (simp add: distinct_delete)

lemma tracker_ok_remove:
  assumes "tracker_ok t" shows "tracker_ok (tracker_remove root c t)"
proof (cases "map_of t (fingerprint root)")
  case (Some cs)
  then have "distinct cs" using assms by (simp add: tracker_ok_map_of)
  with Some assms show ?thesis
    by (simp add: tracker_remove_def Let_def tracker_ok_delete tracker_ok_update distinct_removeAll)
qed (simp add: tracker_remove_def assms)

lemma tracker_ok_closeRetired: "tracker_ok t \<Longrightarrow> tracker_ok (fst (closeRetired m t))"
  by (auto simp: tracker_ok_map_of closeRetired_eq map_of_filter_key distinct_map_filter split: if_splits)

section \<open>Handshakes and reloads interleaved\<close>

text \<open>
  The poller and the handshakes run in their own goroutines.  A handshake takes its
  configuration, verifies its peer under it and is added to the tracker in three steps; a
  reload stores its material and then runs the callback in two.  Any step of one may fall
  between two of another.
\<close>

record race =
  raCurrent :: Material
  raTracker :: tracker
  raConfigured :: "(conn \<times> Material) list"
  raVerified :: "(conn \<times> Certificate) list"
  raHanded :: "(conn \<times> Certificate) list"
  raClosed :: "conn list"
  raCallback :: "Material option"

definition used :: "race \<Rightarrow> conn set" where
  "used s = fst ` set (raConfigured s) \<union> fst ` set (raVerified s) \<union> fst ` set (raHanded s) \<union> set (raClosed s)"

inductive race_step :: "race \<Rightarrow> race \<Rightarrow> bool" where
  configure: "c \<notin> used s \<Longrightarrow> race_step s (s\<lparr>raConfigured := (c, raCurrent s) # raConfigured s\<rparr>)"
| verify: "(c, m) \<in> set (raConfigured s) \<Longrightarrow> root \<in> set (maPool m) \<Longrightarrow>
     race_step s (s\<lparr>raConfigured := remove1 (c, m) (raConfigured s), raVerified := (c, root) # raVerified s\<rparr>)"
| add: "(c, root) \<in> set (raVerified s) \<Longrightarrow>
     race_step s (s\<lparr>raVerified := remove1 (c, root) (raVerified s), raTracker := tracker_add root c (raTracker s),
       raHanded := (c, root) # raHanded s\<rparr>)"
| remove: "(c, root) \<in> set (raHanded s) \<Longrightarrow>
     race_step s (s\<lparr>raTracker := tracker_remove root c (raTracker s), raClosed := raClosed s @ [c]\<rparr>)"
| publish: "raCallback s = None \<Longrightarrow> race_step s (s\<lparr>raCurrent := m, raCallback := Some m\<rparr>)"
| callback: "raCallback s = Some m \<Longrightarrow> closeRetired m (raTracker s) = (t, closed, n) \<Longrightarrow>
     race_step s (s\<lparr>raTracker := t, raClosed := raClosed s @ closed, raCallback := None\<rparr>)"

text \<open>A step that adds a connection whose root the current material no longer trusts, no callback to come.\<close>

definition late_add :: "race \<Rightarrow> race \<Rightarrow> bool" where
  "late_add s s' \<longleftrightarrow> raCallback s = None \<and>
     (\<exists>c root. (c, root) \<in> set (raVerified s) \<and> map_of (maRoots (raCurrent s)) (fingerprint root) = None
        \<and> raTracker s' = tracker_add root c (raTracker s))"

definition all_trusted :: "race \<Rightarrow> bool" where
  "all_trusted s \<longleftrightarrow> (\<forall>(fp, c) \<in> tracked (raTracker s). map_of (maRoots (raCurrent s)) fp \<noteq> None)"

text \<open>Between callbacks everything tracked is trusted; a pending callback is of the current material.\<close>

definition race_inv :: "race \<Rightarrow> bool" where
  "race_inv s \<longleftrightarrow> (case raCallback s of None \<Rightarrow> all_trusted s | Some m \<Rightarrow> m = raCurrent s)"

lemma race_inv_step:
  assumes "race_step s s'" "race_inv s" "\<not> late_add s s'"
  shows "race_inv s'"
  using assms
proof (cases rule: race_step.cases)
  case (add c root)
  show ?thesis
  proof (cases "raCallback s")
    case None
    then have "map_of (maRoots (raCurrent s)) (fingerprint root) \<noteq> None"
      using assms(3) add by (auto simp: late_add_def)
    with add assms(2) None show ?thesis by (simp add: race_inv_def all_trusted_def tracked_add)
  qed (use add assms(2) in \<open>simp add: race_inv_def\<close>)
next
  case (remove c root)
  with assms(2) show ?thesis
    by (cases "raCallback s") (auto simp: race_inv_def all_trusted_def tracked_remove)
next
  case (callback m t closed n)
  have "tracked t = {(fp, c) \<in> tracked (raTracker s). map_of (maRoots m) fp \<noteq> None}"
    using tracked_closeRetired [of m "raTracker s"] callback(3) by simp
  with callback(1,2) assms(2) show ?thesis by (auto simp: race_inv_def all_trusted_def)
next
  case (configure c)
  with assms(2) show ?thesis by (cases "raCallback s") (simp_all add: race_inv_def all_trusted_def)
next
  case (verify c m root)
  with assms(2) show ?thesis by (cases "raCallback s") (simp_all add: race_inv_def all_trusted_def)
next
  case (publish m)
  then show ?thesis by (simp add: race_inv_def)
qed

inductive race_run :: "race \<Rightarrow> race \<Rightarrow> bool" for s0 where
  start: "race_run s0 s0"
| more: "race_run s0 s \<Longrightarrow> race_step s s' \<Longrightarrow> race_run s0 s'"

text \<open>Runs none of whose steps is a late addition.\<close>

inductive timely_run :: "race \<Rightarrow> race \<Rightarrow> bool" for s0 where
  timely_start: "timely_run s0 s0"
| timely_more: "timely_run s0 s \<Longrightarrow> race_step s s' \<Longrightarrow> \<not> late_add s s' \<Longrightarrow> timely_run s0 s'"

lemma timely_inv: "timely_run s0 s \<Longrightarrow> race_inv s0 \<Longrightarrow> race_inv s"
  by (induction rule: timely_run.induct) (auto intro: race_inv_step)

end
