(* ===== verification/Envelope.thy ===== *)
theory Envelope
  imports Json GoTime Patterns
begin

text \<open>
  internal/envelope/envelope.go: the launch envelope and its strict reader.  The slice
  \<open>Inputs\<close> is kept as the decoder leaves it (backing array and length); \<open>elems\<close> reads it.
  The two Go loops over a map of named fields have no fixed order, so the error of a
  field that fails there does not carry its name.
\<close>

record Input =
  inName :: string
  inDigest :: string
  inHandle :: string

record Component =
  coComponentID :: string
  coPuckType :: string
  coPackageName :: string
  coSourceRevision :: string

record Envelope =
  eSchemaVersion :: int
  eLaunchID :: string
  eLaunchKey :: string
  eOperationID :: string
  eAttemptID :: string
  eProfileID :: string
  eProfileRevision :: string
  eJobKind :: string
  eExecutionEpoch :: string
  eLaunchEpoch :: string
  eDeadline :: string
  eComponent :: "Component option"
  eInputs :: "Input slice"

definition zeroInput :: Input where
  "zeroInput = \<lparr>inName = [], inDigest = [], inHandle = []\<rparr>"

definition zeroComponent :: Component where
  "zeroComponent = \<lparr>coComponentID = [], coPuckType = [], coPackageName = [], coSourceRevision = []\<rparr>"

definition zeroEnvelope :: Envelope where
  "zeroEnvelope =
     \<lparr>eSchemaVersion = 0, eLaunchID = [], eLaunchKey = [], eOperationID = [], eAttemptID = [],
      eProfileID = [], eProfileRevision = [], eJobKind = [], eExecutionEpoch = [],
      eLaunchEpoch = [], eDeadline = [], eComponent = None, eInputs = ([], 0)\<rparr>"

definition inputFields :: "(string \<times> Input decoder) list" where
  "inputFields =
     [(''name'', on_field inName inName_update dec_string),
      (''digest'', on_field inDigest inDigest_update dec_string),
      (''handle'', on_field inHandle inHandle_update dec_string)]"

definition componentFields :: "(string \<times> Component decoder) list" where
  "componentFields =
     [(''componentId'', on_field coComponentID coComponentID_update dec_string),
      (''puckType'', on_field coPuckType coPuckType_update dec_string),
      (''packageName'', on_field coPackageName coPackageName_update dec_string),
      (''sourceRevision'', on_field coSourceRevision coSourceRevision_update dec_string)]"

definition envelopeFields :: "(string \<times> Envelope decoder) list" where
  "envelopeFields =
     [(''schemaVersion'', on_field eSchemaVersion eSchemaVersion_update dec_int64),
      (''launchId'', on_field eLaunchID eLaunchID_update dec_string),
      (''launchKey'', on_field eLaunchKey eLaunchKey_update dec_string),
      (''operationId'', on_field eOperationID eOperationID_update dec_string),
      (''attemptId'', on_field eAttemptID eAttemptID_update dec_string),
      (''profileId'', on_field eProfileID eProfileID_update dec_string),
      (''profileRevision'', on_field eProfileRevision eProfileRevision_update dec_string),
      (''jobKind'', on_field eJobKind eJobKind_update dec_string),
      (''executionEpoch'', on_field eExecutionEpoch eExecutionEpoch_update dec_string),
      (''launchEpoch'', on_field eLaunchEpoch eLaunchEpoch_update dec_string),
      (''deadline'', on_field eDeadline eDeadline_update dec_string),
      (''component'', on_field eComponent eComponent_update
         (dec_pointer zeroComponent (decode_struct componentFields))),
      (''inputs'', on_field eInputs eInputs_update
         (dec_slice zeroInput (decode_struct inputFields)))]"

datatype envelope_error =
    DecodeFailed
  | TrailingData
  | WrongVersion int
  | NotAnId
  | NotADnsLabel string
  | NotASequence
  | UnknownKind string
  | NotADeadline string
  | NotAComponent
  | TooManyInputs
  | NotAnInput string

definition jobKinds :: "string list" where
  "jobKinds = [''codegen'', ''validator'', ''preview'', ''parser'', ''migration'']"

definition DeadlineTime :: "Envelope \<Rightarrow> envelope_error + time" where
  "DeadlineTime e =
     (case parse_rfc3339 (eDeadline e) of
        None \<Rightarrow> Inl (NotADeadline (eDeadline e))
      | Some (t, utc) \<Rightarrow> if \<not> utc then Inl (NotADeadline (eDeadline e)) else Inr t)"

definition idRefused :: "string \<Rightarrow> bool" where
  "idRefused v = (length v = 0 \<or> length v > 128 \<or> \<not> matches id_re v)"

definition componentRefused :: "Component \<Rightarrow> bool" where
  "componentRefused c =
     (let named = length (filter (\<lambda>v. v \<noteq> []) [coComponentID c, coPuckType c, coPackageName c])
      in \<not> matches sequence_re (coSourceRevision c) \<or> (named \<noteq> 0 \<and> named \<noteq> 3)
         \<or> (named = 3 \<and> (\<not> matches component_re (coComponentID c)
              \<or> \<not> matches puck_type_re (coPuckType c) \<or> length (coPackageName c) > 214)))"

fun checkInputs :: "string list \<Rightarrow> Input list \<Rightarrow> envelope_error + unit" where
  "checkInputs seen [] = Inr ()"
| "checkInputs seen (i # is) =
     (if \<not> matches input_name_re (inName i) \<or> \<not> matches digest_re (inDigest i)
         \<or> length (inHandle i) > 256 \<or> inName i \<in> set seen
      then Inl (NotAnInput (inName i))
      else checkInputs (inName i # seen) is)"

text \<open>The checks on a decoded envelope, in the order of the source.\<close>

definition checkEnvelope :: "Envelope \<Rightarrow> envelope_error + Envelope" where
  "checkEnvelope e =
     (if eSchemaVersion e \<noteq> 1 then Inl (WrongVersion (eSchemaVersion e))
      else if list_ex idRefused [eLaunchID e, eOperationID e, eAttemptID e, eProfileID e]
      then Inl NotAnId
      else if \<not> matches label_re (eLaunchKey e) then Inl (NotADnsLabel (eLaunchKey e))
      else if list_ex (\<lambda>v. \<not> matches sequence_re v)
                [eProfileRevision e, eExecutionEpoch e, eLaunchEpoch e]
      then Inl NotASequence
      else if eJobKind e \<notin> set jobKinds then Inl (UnknownKind (eJobKind e))
      else bind_res (DeadlineTime e) (\<lambda>_.
        if (case eComponent e of None \<Rightarrow> False | Some c \<Rightarrow> componentRefused c) then Inl NotAComponent
        else if length (elems (eInputs e)) > 64 then Inl TooManyInputs
        else bind_res (checkInputs [] (elems (eInputs e))) (\<lambda>_. Inr e)))"

definition Parse :: "string \<Rightarrow> envelope_error + Envelope" where
  "Parse raw =
     (case decode_strict envelopeFields zeroEnvelope raw of
        None \<Rightarrow> Inl DecodeFailed
      | Some (e, rest) \<Rightarrow> if dec_more rest then Inl TrailingData else checkEnvelope e)"

section \<open>What an accepted envelope is\<close>

definition input_ok :: "Input \<Rightarrow> bool" where
  "input_ok i = (is_input_name (inName i) \<and> is_digest (inDigest i) \<and> length (inHandle i) \<le> 256)"

text \<open>The revision always; the allocated identity whole or not at all.\<close>

definition component_ok :: "Component \<Rightarrow> bool" where
  "component_ok c =
     (is_sequence (coSourceRevision c) \<and>
      ((coComponentID c = [] \<and> coPuckType c = [] \<and> coPackageName c = []) \<or>
       (is_id (coComponentID c) \<and> length (coComponentID c) \<le> 128 \<and> is_puck_type (coPuckType c)
        \<and> coPackageName c \<noteq> [] \<and> length (coPackageName c) \<le> 214)))"

definition envelope_ok :: "Envelope \<Rightarrow> bool" where
  "envelope_ok e =
     (eSchemaVersion e = 1
      \<and> list_all (\<lambda>v. is_id v \<and> length v \<le> 128) [eLaunchID e, eOperationID e, eAttemptID e, eProfileID e]
      \<and> is_label (eLaunchKey e)
      \<and> list_all is_sequence [eProfileRevision e, eExecutionEpoch e, eLaunchEpoch e]
      \<and> eJobKind e \<in> set jobKinds
      \<and> map_option snd (parse_rfc3339 (eDeadline e)) = Some True
      \<and> (\<forall>c \<in> set_option (eComponent e). component_ok c)
      \<and> length (elems (eInputs e)) \<le> 64
      \<and> list_all input_ok (elems (eInputs e))
      \<and> distinct (map inName (elems (eInputs e))))"

section \<open>Lemmas\<close>

lemma idRefused_iff: "idRefused v \<longleftrightarrow> \<not> (is_id v \<and> length v \<le> 128)"
  by (auto simp: idRefused_def is_id_def)

lemma is_id_nonempty: "is_id v \<Longrightarrow> v \<noteq> []" "is_puck_type v \<Longrightarrow> v \<noteq> []"
  by (auto simp: is_id_def is_puck_type_def)

lemma componentRefused_iff: "componentRefused c \<longleftrightarrow> \<not> component_ok c"
proof -
  let ?a = "coComponentID c" and ?b = "coPuckType c" and ?p = "coPackageName c"
  let ?n = "length (filter (\<lambda>v. v \<noteq> []) [?a, ?b, ?p])"
  have "?n \<noteq> 0 \<and> ?n \<noteq> 3 \<longleftrightarrow> \<not> (?a = [] \<and> ?b = [] \<and> ?p = []) \<and> (?a = [] \<or> ?b = [] \<or> ?p = [])"
    and "?n = 3 \<longleftrightarrow> ?a \<noteq> [] \<and> ?b \<noteq> [] \<and> ?p \<noteq> []" by simp_all
  then show ?thesis
    using is_id_nonempty [of ?a] is_id_nonempty [of ?b]
    unfolding componentRefused_def component_ok_def Let_def by (auto simp: not_le)
qed

lemma checkInputs_Inr [result_simps]:
  "checkInputs seen is = Inr u \<longleftrightarrow>
     list_all input_ok is \<and> distinct (map inName is) \<and> set (map inName is) \<inter> set seen = {}"
  by (induction seen "is" rule: checkInputs.induct) (auto simp: input_ok_def not_le)

lemma DeadlineTime_Inr [result_simps]:
  "DeadlineTime e = Inr t \<longleftrightarrow> parse_rfc3339 (eDeadline e) = Some (t, True)"
  by (auto simp: DeadlineTime_def split: option.splits)

lemma checkEnvelope_Inr [result_simps]: "checkEnvelope e = Inr e' \<longleftrightarrow> e' = e \<and> envelope_ok e"
proof -
  have "(\<exists>t. DeadlineTime e = Inr t) \<longleftrightarrow> map_option snd (parse_rfc3339 (eDeadline e)) = Some True"
    by (auto simp: result_simps)
  moreover have "(case eComponent e of None \<Rightarrow> False | Some c \<Rightarrow> componentRefused c)
      \<longleftrightarrow> \<not> (\<forall>c \<in> set_option (eComponent e). component_ok c)"
    by (auto simp: componentRefused_iff split: option.splits)
  ultimately show ?thesis
    by (auto simp: checkEnvelope_def envelope_ok_def idRefused_iff result_simps not_le)
qed

lemma Parse_Inr [result_simps]:
  "Parse raw = Inr e \<longleftrightarrow>
     (\<exists>rest. decode_strict envelopeFields zeroEnvelope raw = Some (e, rest)
        \<and> \<not> dec_more rest \<and> envelope_ok e)"
  by (auto simp: Parse_def result_simps split: option.splits)

lemma dec_more_iff: "\<not> dec_more rest \<longleftrightarrow> (skip_ws rest = [] \<or> hd (skip_ws rest) \<in> set '']}'')"
  by (auto simp: dec_more_def split: list.splits)

section \<open>Properties\<close>

text \<open>
  C28: Parse accepts a launch envelope exactly when the text decodes under the field table,
  nothing but white space or a closing bracket follows, and the envelope is well formed:
  version 1, four ids of at most 128 characters, a DNS label, three canonical sequences, a
  known kind, a UTC deadline, a component that is whole or absent, and at most 64 inputs
  with distinct well-formed names, SHA-256 digests and handles of at most 256 bytes.  What
  it returns is the envelope decoded, unchanged.
\<close>

theorem Parse_accepts:
  "Parse raw = Inr e \<longleftrightarrow>
     (\<exists>rest. decode_strict envelopeFields zeroEnvelope raw = Some (e, rest)
        \<and> skip_ws rest \<in> {[]} \<union> {c # r | c r. c \<in> set '']}''}
        \<and> envelope_ok e)"
proof -
  have "skip_ws rest \<in> {[]} \<union> {c # r | c r. c \<in> set '']}''} \<longleftrightarrow> \<not> dec_more rest" for rest
    unfolding dec_more_iff by (cases "skip_ws rest") auto
  then show ?thesis by (simp only: Parse_Inr)
qed

end
