(* ===== verification/Peer.thy ===== *)
theory Peer
  imports Digest
begin

text \<open>
  internal/peer/peer.go: the second peer binding of the sidecar's sockets.  The launch
  secret, the peer token derived from it for a socket's role, the nonce of a request and
  the sidecar's proof for it, with the exact byte layouts of the source.
\<close>

definition HeaderToken :: string where "HeaderToken = ''Anvilkit-Peer-Token''"
definition HeaderNonce :: string where "HeaderNonce = ''Anvilkit-Peer-Nonce''"
definition HeaderProof :: string where "HeaderProof = ''Anvilkit-Sidecar-Proof''"
definition RoleTrusted :: string where "RoleTrusted = ''trusted''"
definition RoleCandidate :: string where "RoleCandidate = ''candidate''"
definition tokenPrefix :: string where "tokenPrefix = ''anvilkit/peer-token/v1/''"
definition proofPrefix :: string where "proofPrefix = ''anvilkit/sidecar-proof/v1/''"
definition secretHexLen :: nat where "secretHexLen = 64"
definition nonceHexLen :: nat where "nonceHexLen = 32"

datatype peer_error = ErrSecret | ErrTokenFormat | ErrNonceFormat | ErrHexDecode

fun hex_loop :: "string \<Rightarrow> bool" where
  "hex_loop [] = True"
| "hex_loop (c # s) =
     (if \<not> (CHR ''0'' \<le> c \<and> c \<le> CHR ''9'') \<and> \<not> (CHR ''a'' \<le> c \<and> c \<le> CHR ''f'')
      then False else hex_loop s)"

definition lowerHex :: "string \<Rightarrow> nat \<Rightarrow> bool" where
  "lowerHex s n = (if length s \<noteq> n then False else hex_loop s)"

definition ParseSecret :: "string \<Rightarrow> peer_error + bytes" where
  "ParseSecret s =
     (if \<not> lowerHex s secretHexLen then Inl ErrSecret
      else case hex_decode s of None \<Rightarrow> Inl ErrHexDecode | Some b \<Rightarrow> Inr b)"

definition Token :: "bytes \<Rightarrow> string \<Rightarrow> string" where
  "Token secret role = hex_encode (hmac_sha256 secret (tokenPrefix @ role))"

definition ValidNonce :: "string \<Rightarrow> bool" where
  "ValidNonce s = lowerHex s nonceHexLen"

definition Proof :: "string \<Rightarrow> string \<Rightarrow> peer_error + string" where
  "Proof token nonce =
     (case hex_decode token of
        None \<Rightarrow> Inl ErrTokenFormat
      | Some key \<Rightarrow>
          (if length key \<noteq> 32 then Inl ErrTokenFormat
           else if \<not> ValidNonce nonce then Inl ErrNonceFormat
           else Inr (hex_encode (hmac_sha256 key (proofPrefix @ nonce)))))"

text \<open>The entropy source is the argument: \<open>None\<close> is a failed read of \<open>rand.Read\<close>.\<close>

definition NewNonce :: "bytes option \<Rightarrow> string option" where
  "NewNonce entropy = map_option (\<lambda>b. hex_encode (take (nonceHexLen div 2) b)) entropy"

text \<open>
  \<open>subtle.ConstantTimeCompare\<close> accumulates the differences of all bytes before it decides;
  \<open>diff_bytes\<close> is that accumulator.
\<close>

fun diff_bytes :: "bool \<Rightarrow> bytes \<Rightarrow> bytes \<Rightarrow> bool" where
  "diff_bytes acc (x # xs) (y # ys) = diff_bytes (acc \<or> x \<noteq> y) xs ys"
| "diff_bytes acc xs ys = acc"

definition Equal :: "string \<Rightarrow> string \<Rightarrow> bool" where
  "Equal a b = (length a = length b \<and> \<not> diff_bytes False a b)"

section \<open>Lemmas\<close>

lemma hex_loop_list_all: "hex_loop s \<longleftrightarrow> list_all is_lower_hex s"
  by (induction s) (auto simp: is_lower_hex_def is_digit_def in_range_def)

lemma lowerHex_iff: "lowerHex s n \<longleftrightarrow> length s = n \<and> list_all is_lower_hex s"
  by (simp add: lowerHex_def hex_loop_list_all)

lemma diff_bytes_iff: "length a = length b \<Longrightarrow> diff_bytes acc a b \<longleftrightarrow> acc \<or> a \<noteq> b"
  by (induction acc a b rule: diff_bytes.induct) auto

lemma Equal_iff [simp]: "Equal a b \<longleftrightarrow> a = b"
  by (auto simp: Equal_def diff_bytes_iff)


text \<open>Hexadecimal round trips.\<close>

lemma is_lower_hex_code:
  "is_lower_hex c \<longleftrightarrow> (48 \<le> (of_char c :: nat) \<and> of_char c \<le> (57 :: nat))
     \<or> (97 \<le> (of_char c :: nat) \<and> of_char c \<le> (102 :: nat))"
  by (simp add: is_lower_hex_def is_digit_def in_range_def less_eq_char_def)

lemma hex_digit_facts:
  assumes "n < 16"
  shows "hex_value (hex_digit n) = Some n" and "is_lower_hex (hex_digit n)"
  using assms by (auto simp: hex_value_def hex_digit_def is_lower_hex_code Let_def)

lemma of_char_div_mod: "of_char c div 16 < (16::nat)" "of_char c mod 16 < (16::nat)"
  using nat_of_char_less_256 [of c] by (simp_all add: less_mult_imp_div_less)

lemma hex_decode_encode [simp]: "hex_decode (hex_encode b) = Some b"
  by (induction b) (simp_all add: hex_byte_def hex_digit_facts of_char_div_mod)

lemma list_all_hex_encode: "list_all is_lower_hex (hex_encode b)"
  by (induction b) (simp_all add: hex_byte_def hex_digit_facts of_char_div_mod)

lemma hex_value_lower:
  assumes "is_lower_hex c"
  shows "\<exists>n < 16. hex_value c = Some n \<and> hex_digit n = c"
proof (cases "of_char c \<le> (57::nat)")
  case True
  with assms have "48 \<le> (of_char c :: nat)" by (auto simp: is_lower_hex_code)
  with True show ?thesis
    by (intro exI [of _ "of_char c - 48"]) (auto simp add: hex_value_def hex_digit_def Let_def)
next
  case False
  with assms have "97 \<le> (of_char c :: nat)" and "of_char c \<le> (102 :: nat)"
    by (auto simp: is_lower_hex_code)
  then show ?thesis
    by (intro exI [of _ "of_char c - 87"]) (auto simp: hex_value_def hex_digit_def Let_def)
qed

lemma hex_decode_lower:
  "list_all is_lower_hex s \<Longrightarrow> even (length s) \<Longrightarrow>
     \<exists>b. hex_decode s = Some b \<and> hex_encode b = s \<and> 2 * length b = length s"
proof (induction s rule: hex_decode.induct)
  case (3 c d s)
  from "3.prems" obtain h l where hl: "h < 16" "hex_value c = Some h" "hex_digit h = c"
      "l < 16" "hex_value d = Some l" "hex_digit l = d"
    using hex_value_lower [of c] hex_value_lower [of d] by auto
  from "3.IH" [OF refl hl(2) hl(5)] "3.prems" hl obtain b
    where b: "hex_decode s = Some b" "hex_encode b = s" "2 * length b = length s" by auto
  from hl have "of_char (char_of (16 * h + l) :: char) = 16 * h + l" by simp
  with b hl show ?case by (simp add: hex_byte_def)
qed simp_all

text \<open>The token of a socket is 64 lowercase hexadecimal characters, so it always carries a proof.\<close>

lemma Token_format: "lowerHex (Token secret role) 64"
  by (simp add: Token_def lowerHex_iff list_all_hex_encode)

lemma Proof_Token [simp]:
  "ValidNonce nonce \<Longrightarrow>
     Proof (Token secret role) nonce
       = Inr (hex_encode (hmac_sha256 (hmac_sha256 secret (tokenPrefix @ role)) (proofPrefix @ nonce)))"
  by (simp add: Proof_def Token_def)

lemma Proof_Inr [result_simps]:
  "Proof token nonce = Inr p \<longleftrightarrow>
     (\<exists>key. hex_decode token = Some key \<and> length key = 32 \<and> ValidNonce nonce
        \<and> p = hex_encode (hmac_sha256 key (proofPrefix @ nonce)))"
  by (auto simp: Proof_def split: option.splits)

lemma ParseSecret_Inr [result_simps]:
  "ParseSecret s = Inr b \<longleftrightarrow> lowerHex s 64 \<and> hex_decode s = Some b"
  by (auto simp: ParseSecret_def secretHexLen_def split: option.splits)

section \<open>Properties\<close>

text \<open>
  ParseSecret accepts exactly the 64 lowercase hexadecimal characters of the format, never
  fails in the decoder, and the decoded secret is the 32 bytes whose hexadecimal form it is.
\<close>

theorem ParseSecret_correct:
  "(ParseSecret s = Inl ErrSecret \<and> \<not> (length s = 64 \<and> list_all is_lower_hex s))
   \<or> (\<exists>b. ParseSecret s = Inr b \<and> length b = 32 \<and> hex_encode b = s)"
proof (cases "lowerHex s 64")
  case True
  with hex_decode_lower [of s] obtain b
    where "hex_decode s = Some b" "hex_encode b = s" "2 * length b = length s"
    by (auto simp: lowerHex_iff)
  with True show ?thesis by (auto simp: result_simps lowerHex_iff)
next
  case False
  then show ?thesis by (auto simp: ParseSecret_def secretHexLen_def lowerHex_iff)
qed

end
