(* ===== verification/Sockets.thy ===== *)
theory Sockets
  imports GoText "HOL-Library.Word"
begin

unbundle bit_operations_syntax

text \<open>
  internal/sockets/sockets.go: the two abstract sockets, the accept loop that keeps only
  connections of the expected UID, and the read that refuses ancillary data.  The kernel is
  the argument: the connections that arrive with what it reports of their peer, the
  messages received with their control data, and the abstract names already held.  The
  parsers of package unix are parameters.
\<close>

type_synonym uid = "32 word"

record Peer =
  pUID :: uid
  pGID :: uid
  pPID :: int

definition zeroPeer :: Peer where "zeroPeer = \<lparr>pUID = 0, pGID = 0, pPID = 0\<rparr>"

section \<open>Peer credentials\<close>

text \<open>What the system calls of \<open>peerOf\<close> answer for a connection.\<close>

record raw_conn =
  rcId :: nat
  rcSyscallErr :: "string option"
  rcControlErr :: "string option"
  rcCred :: "string + Peer"

definition peerOf :: "raw_conn \<Rightarrow> string + Peer" where
  "peerOf c =
     (case rcSyscallErr c of
        Some e \<Rightarrow> Inl e
      | None \<Rightarrow> (case rcControlErr c of
          Some e \<Rightarrow> Inl e
        | None \<Rightarrow> (case rcCred c of Inl e \<Rightarrow> Inl e | Inr p \<Rightarrow> Inr p)))"

record Conn =
  cnConn :: raw_conn
  cnPeer :: Peer

section \<open>Accept\<close>

datatype arrival = AcceptFailed string | Arrived raw_conn

text \<open>What the loop did on its way: the connections it closed and the peers it reported.\<close>

record accept_log =
  alClosed :: "nat list"
  alRejected :: "Peer list"

text \<open>
  The result is \<open>None\<close> while the loop waits for another connection; otherwise the error of
  the listener or the accepted connection.
\<close>

fun Accept ::
  "uid \<Rightarrow> arrival list \<Rightarrow> accept_log \<Rightarrow> (string + Conn) option \<times> arrival list \<times> accept_log" where
  "Accept expected [] lg = (None, [], lg)"
| "Accept expected (AcceptFailed e # rest) lg = (Some (Inl e), rest, lg)"
| "Accept expected (Arrived c # rest) lg =
     (let p = (case peerOf c of Inl _ \<Rightarrow> zeroPeer | Inr p \<Rightarrow> p) in
      if (case peerOf c of Inl _ \<Rightarrow> True | Inr q \<Rightarrow> pUID q \<noteq> expected)
      then Accept expected rest
             (lg\<lparr>alRejected := alRejected lg @ [p], alClosed := alClosed lg @ [rcId c]\<rparr>)
      else (Some (Inr \<lparr>cnConn = c, cnPeer = p\<rparr>), rest, lg))"

section \<open>Read\<close>

record cmsg =
  cmLevel :: int
  cmType :: int
  cmData :: bytes

record received =
  rvN :: nat
  rvOobn :: nat
  rvFlags :: int
  rvErr :: "string option"

datatype read_error = ErrFDDelegation | ReadFailed string

record conn_state =
  csClosedFds :: "int list"
  csClosed :: bool

definition MSG_CTRUNC :: int where "MSG_CTRUNC = 8"
definition SOL_SOCKET :: int where "SOL_SOCKET = 1"
definition SCM_RIGHTS :: int where "SCM_RIGHTS = 1"

record unix_parsers =
  parse_control :: "bytes \<Rightarrow> cmsg list option"
  parse_rights :: "cmsg \<Rightarrow> int list option"

definition close_fds :: "int list \<Rightarrow> conn_state \<Rightarrow> conn_state" where
  "close_fds fds st = st\<lparr>csClosedFds := csClosedFds st @ fds\<rparr>"

fun close_messages :: "unix_parsers \<Rightarrow> cmsg list \<Rightarrow> conn_state \<Rightarrow> conn_state" where
  "close_messages ux [] st = st"
| "close_messages ux (m # ms) st =
     (if cmLevel m \<noteq> SOL_SOCKET \<or> cmType m \<noteq> SCM_RIGHTS then close_messages ux ms st
      else (case parse_rights ux m of
              None \<Rightarrow> close_messages ux ms st
            | Some fds \<Rightarrow> close_messages ux ms (close_fds fds st)))"

definition closeReceived :: "unix_parsers \<Rightarrow> bytes \<Rightarrow> conn_state \<Rightarrow> conn_state" where
  "closeReceived ux oob st =
     (case parse_control ux oob of None \<Rightarrow> st | Some ms \<Rightarrow> close_messages ux ms st)"

text \<open>\<open>oob\<close> is the connection's control buffer as the receive left it.\<close>

definition Read ::
  "unix_parsers \<Rightarrow> received \<Rightarrow> bytes \<Rightarrow> conn_state \<Rightarrow> (nat \<times> read_error option) \<times> conn_state" where
  "Read ux r oob st =
     (if rvOobn r > 0 \<or> rvFlags r AND MSG_CTRUNC \<noteq> 0
      then ((0, Some ErrFDDelegation), (closeReceived ux (take (rvOobn r) oob) st)\<lparr>csClosed := True\<rparr>)
      else ((rvN r, map_option ReadFailed (rvErr r)), st))"

section \<open>Create\<close>

definition IsAbstract :: "string \<Rightarrow> bool" where
  "IsAbstract name = (has_prefix name ''@'' \<and> length name > 1)"

record Listener =
  lnName :: string
  lnExpectedUID :: uid

record Layout =
  loTrusted :: Listener
  loCandidate :: Listener

datatype socket_error = NotAbstract string | ListenFailed string

text \<open>
  The names held in the network namespace; binding one that is held fails (EADDRINUSE), and
  \<open>bind_fails\<close> is any other refusal of the kernel.
\<close>

definition listen ::
  "(string \<Rightarrow> bool) \<Rightarrow> string \<Rightarrow> uid \<Rightarrow> string list \<Rightarrow> (socket_error + Listener) \<times> string list" where
  "listen bind_fails name expected held =
     (if \<not> IsAbstract name then (Inl (NotAbstract name), held)
      else if name \<in> set held \<or> bind_fails name then (Inl (ListenFailed name), held)
      else (Inr \<lparr>lnName = name, lnExpectedUID = expected\<rparr>, name # held))"

definition Create ::
  "(string \<Rightarrow> bool) \<Rightarrow> string \<Rightarrow> string \<Rightarrow> uid \<Rightarrow> uid \<Rightarrow> string list
     \<Rightarrow> (socket_error + Layout) \<times> string list" where
  "Create bind_fails trustedName candidateName trustedUID candidateUID held =
     (case listen bind_fails trustedName trustedUID held of
        (Inl e, h1) \<Rightarrow> (Inl e, h1)
      | (Inr trusted, h1) \<Rightarrow>
          (case listen bind_fails candidateName candidateUID h1 of
             (Inl e, h2) \<Rightarrow> (Inl e, remove1 (lnName trusted) h2)
           | (Inr candidate, h2) \<Rightarrow> (Inr \<lparr>loTrusted = trusted, loCandidate = candidate\<rparr>, h2)))"

definition Layout_Close :: "Layout \<Rightarrow> string list \<Rightarrow> string list" where
  "Layout_Close l held = remove1 (lnName (loCandidate l)) (remove1 (lnName (loTrusted l)) held)"

section \<open>Lemmas\<close>

text \<open>
  The connections the loop passed over: each was closed and reported, and none of them is
  one whose credentials the kernel reports with the expected UID.
\<close>

definition of_uid :: "uid \<Rightarrow> arrival \<Rightarrow> bool" where
  "of_uid u a = (case a of Arrived c \<Rightarrow> (case peerOf c of Inr p \<Rightarrow> pUID p = u | Inl _ \<Rightarrow> False) | AcceptFailed _ \<Rightarrow> False)"

lemma Accept_run:
  "Accept u as lg = (res, rest, lg') \<Longrightarrow>
     \<exists>skipped. alClosed lg' = alClosed lg @ map rcId skipped \<and> length (alRejected lg') = length (alRejected lg) + length skipped
       \<and> (\<forall>c \<in> set skipped. \<not> of_uid u (Arrived c))
       \<and> (case res of
            None \<Rightarrow> as = map Arrived skipped \<and> rest = []
          | Some (Inl e) \<Rightarrow> as = map Arrived skipped @ AcceptFailed e # rest
          | Some (Inr conn) \<Rightarrow> as = map Arrived skipped @ Arrived (cnConn conn) # rest
              \<and> peerOf (cnConn conn) = Inr (cnPeer conn) \<and> pUID (cnPeer conn) = u)"
proof (induction u as lg rule: Accept.induct)
  case (3 u c rest' lg)
  show ?case
  proof (cases "of_uid u (Arrived c)")
    case True
    then obtain p where "peerOf c = Inr p" "pUID p = u" by (auto simp: of_uid_def split: sum.splits)
    with "3.prems" show ?thesis by (intro exI [of _ "[]"]) auto
  next
    case False
    then have skip: "case peerOf c of Inl _ \<Rightarrow> True | Inr q \<Rightarrow> pUID q \<noteq> u" by (auto simp: of_uid_def split: sum.splits)
    let ?p = "case peerOf c of Inl _ \<Rightarrow> zeroPeer | Inr p \<Rightarrow> p"
    let ?lg = "lg\<lparr>alRejected := alRejected lg @ [?p], alClosed := alClosed lg @ [rcId c]\<rparr>"
    from skip "3.prems" have "Accept u rest' ?lg = (res, rest, lg')" by (simp add: Let_def)
    from "3.IH" [OF refl skip this] obtain sk where
      sk: "alClosed lg' = alClosed lg @ rcId c # map rcId sk" "length (alRejected lg') = Suc (length (alRejected lg) + length sk)"
        "\<forall>c \<in> set sk. \<not> of_uid u (Arrived c)"
      and res: "case res of
            None \<Rightarrow> rest' = map Arrived sk \<and> rest = []
          | Some (Inl e) \<Rightarrow> rest' = map Arrived sk @ AcceptFailed e # rest
          | Some (Inr conn) \<Rightarrow> rest' = map Arrived sk @ Arrived (cnConn conn) # rest
              \<and> peerOf (cnConn conn) = Inr (cnPeer conn) \<and> pUID (cnPeer conn) = u" by auto
    from sk res False show ?thesis
      by (intro exI [of _ "c # sk"]) (auto split: option.splits sum.splits)
  qed
qed auto

lemma close_messages_fds:
  "csClosedFds (close_messages ux ms st) = csClosedFds st @
     concat (map (\<lambda>m. if cmLevel m = SOL_SOCKET \<and> cmType m = SCM_RIGHTS
                      then (case parse_rights ux m of None \<Rightarrow> [] | Some fds \<Rightarrow> fds) else []) ms)"
  by (induction ux ms st rule: close_messages.induct) (auto simp: close_fds_def split: option.splits)

lemma listen_Inr [result_simps]:
  "listen bf n u held = (Inr l, held') \<longleftrightarrow>
     IsAbstract n \<and> n \<notin> set held \<and> \<not> bf n \<and> l = \<lparr>lnName = n, lnExpectedUID = u\<rparr> \<and> held' = n # held"
  by (auto simp: listen_def)

lemma listen_Inl: "listen bf n u held = (Inl e, held') \<Longrightarrow> held' = held"
  by (auto simp: listen_def split: if_splits)

text \<open>What a call of Create can end in.\<close>

lemma Create_cases:
  "case Create bf tn cn tu cu held of
     (Inr l, held') \<Rightarrow>
       IsAbstract tn \<and> IsAbstract cn \<and> tn \<noteq> cn \<and> set held \<inter> {tn, cn} = {} \<and> held' = cn # tn # held
       \<and> l = \<lparr>loTrusted = \<lparr>lnName = tn, lnExpectedUID = tu\<rparr>, loCandidate = \<lparr>lnName = cn, lnExpectedUID = cu\<rparr>\<rparr>
       \<and> Layout_Close l held' = held
   | (Inl e, held') \<Rightarrow> held' = held"
proof -
  obtain r1 h1 where 1: "listen bf tn tu held = (r1, h1)" by (cases "listen bf tn tu held")
  show ?thesis
  proof (cases r1)
    case (Inl e)
    with 1 listen_Inl show ?thesis by (fastforce simp: Create_def)
  next
    case (Inr t)
    obtain r2 h2 where 2: "listen bf cn cu h1 = (r2, h2)" by (cases "listen bf cn cu h1")
    show ?thesis
    proof (cases r2)
      case (Inl e)
      with 2 have "h2 = h1" using listen_Inl by blast
      with 1 2 Inr Inl have "Create bf tn cn tu cu held = (Inl e, remove1 (lnName t) h1)"
        by (simp add: Create_def)
      moreover have "remove1 (lnName t) h1 = held" using 1 Inr by (auto simp: result_simps)
      ultimately show ?thesis by simp
    next
      case (Inr c)
      with 1 2 \<open>r1 = Inr t\<close> have "Create bf tn cn tu cu held = (Inr \<lparr>loTrusted = t, loCandidate = c\<rparr>, h2)"
        by (simp add: Create_def)
      with 1 2 \<open>r1 = Inr t\<close> Inr show ?thesis by (auto simp: Layout_Close_def result_simps)
    qed
  qed
qed

section \<open>Properties\<close>

text \<open>
  C29: Accept hands out only connections whose kernel-reported credentials carry the expected
  UID, with exactly those credentials; every connection that arrived before it was of
  another UID or had none, and each of those was closed and reported.
\<close>

theorem Accept_binds_uid:
  "case Accept u arrivals \<lparr>alClosed = [], alRejected = []\<rparr> of
     (Some (Inr conn), rest, lg) \<Rightarrow>
       \<exists>skipped. arrivals = map Arrived skipped @ Arrived (cnConn conn) # rest
         \<and> peerOf (cnConn conn) = Inr (cnPeer conn) \<and> pUID (cnPeer conn) = u
         \<and> list_all (\<lambda>c. \<not> of_uid u (Arrived c)) skipped
         \<and> alClosed lg = map rcId skipped \<and> length (alRejected lg) = length skipped
   | (Some (Inl e), rest, lg) \<Rightarrow>
       \<exists>skipped. arrivals = map Arrived skipped @ AcceptFailed e # rest
         \<and> list_all (\<lambda>c. \<not> of_uid u (Arrived c)) skipped \<and> alClosed lg = map rcId skipped
   | (None, rest, lg) \<Rightarrow>
       \<exists>skipped. arrivals = map Arrived skipped \<and> rest = []
         \<and> list_all (\<lambda>c. \<not> of_uid u (Arrived c)) skipped \<and> alClosed lg = map rcId skipped"
proof -
  obtain res rest lg where a: "Accept u arrivals \<lparr>alClosed = [], alRejected = []\<rparr> = (res, rest, lg)"
    by (cases "Accept u arrivals \<lparr>alClosed = [], alRejected = []\<rparr>") auto
  from Accept_run [OF this] show ?thesis
    unfolding a by (auto simp: list_all_iff split: option.splits sum.splits)
qed

text \<open>
  C30: A read that brought any control data, or whose control data was truncated, delivers no
  byte, closes the connection and closes every descriptor the control data delegated; any
  other read is passed on as it is.
\<close>

theorem Read_refuses_descriptors:
  "Read ux r oob st =
     (if rvOobn r = 0 \<and> rvFlags r AND MSG_CTRUNC = 0
      then ((rvN r, map_option ReadFailed (rvErr r)), st)
      else ((0, Some ErrFDDelegation), snd (Read ux r oob st)))
   \<and> csClosed (snd (Read ux r oob st)) =
       (if rvOobn r = 0 \<and> rvFlags r AND MSG_CTRUNC = 0 then csClosed st else True)
   \<and> csClosedFds (snd (Read ux r oob st)) = csClosedFds st @
       (if rvOobn r = 0 \<and> rvFlags r AND MSG_CTRUNC = 0 then []
        else concat (map (\<lambda>m. if cmLevel m = SOL_SOCKET \<and> cmType m = SCM_RIGHTS
                 then (case parse_rights ux m of None \<Rightarrow> [] | Some fds \<Rightarrow> fds) else [])
               (case parse_control ux (take (rvOobn r) oob) of None \<Rightarrow> [] | Some ms \<Rightarrow> ms)))"
proof (cases "rvOobn r = 0 \<and> rvFlags r AND MSG_CTRUNC = 0")
  case True
  then show ?thesis by (simp add: Read_def)
next
  case False
  then show ?thesis by (auto simp: Read_def closeReceived_def close_messages_fds split: option.splits)
qed


text \<open>
  C18: Create either binds both names, each for its UID; they are then abstract, distinct, free
  before and held after, or leaves the namespace exactly as it found it; closing the layout gives both
  names back.
\<close>

theorem Create_all_or_nothing:
  "case Create bf tn cn tu cu held of
     (Inr l, held') \<Rightarrow>
       IsAbstract tn \<and> IsAbstract cn \<and> tn \<noteq> cn \<and> set held \<inter> {tn, cn} = {} \<and> held' = cn # tn # held
       \<and> l = \<lparr>loTrusted = \<lparr>lnName = tn, lnExpectedUID = tu\<rparr>, loCandidate = \<lparr>lnName = cn, lnExpectedUID = cu\<rparr>\<rparr>
       \<and> Layout_Close l held' = held
   | (Inl e, held') \<Rightarrow> held' = held"
  by (rule Create_cases)

end
