(* ===== verification/Config.thy ===== *)
theory Config
  imports Envelope Peer Sockets
begin

text \<open>
  internal/config/config.go: the configuration snapshot, the allowlisted environment
  overrides and the validation.  The koanf store is its flat dotted keys; the YAML parser,
  koanf's own merge of a file, mapstructure's unmarshalling and \<open>url.Parse\<close> are parameters.
  An error of \<open>validate\<close> is a constructor per message; \<open>config_ok\<close> states what an accepted
  configuration is.
\<close>

definition IdentityDisabled :: string where "IdentityDisabled = ''disabled''"
definition IdentityDevelopment :: string where "IdentityDevelopment = ''development''"
definition IdentityMTLS :: string where "IdentityMTLS = ''mtls''"
definition envPrefix :: string where "envPrefix = ''ANVILKIT_SIDECAR_''"
definition EnvConfigFile :: string where "EnvConfigFile = ''ANVILKIT_SIDECAR_CONFIG''"
definition DefaultConfigFile :: string where "DefaultConfigFile = ''config.yaml''"

section \<open>The snapshot\<close>

record SocketsConfig =
  scTrustedName :: string
  scCandidateName :: string
  scTrustedUID :: uid
  scCandidateUID :: uid
  scOwnerUID :: uid

record ControlConfig =
  ccAddress :: string
  ccTimeout :: duration

record MTLS =
  mtCertFile :: string
  mtKeyFile :: string
  mtCAFile :: string
  mtServerName :: string

record IdentityConfig =
  icMode :: string
  icMTLS :: MTLS

record Launch =
  laBackend :: string
  laLaunchKey :: string
  laPodUID :: string
  laEnvelope :: string
  laSecret :: string

record ModelProxy =
  mpURL :: string
  mpToken :: string
  mpTimeout :: duration
  mpIdentityMode :: string
  mpServerName :: string

record MCP =
  mcAddress :: string
  mcTimeout :: duration
  mcServerName :: string

record Knowledge =
  knAddress :: string
  knTimeout :: duration
  knServerName :: string

record LimitsConfig =
  liMaxInputBytes :: int
  liMaxTransferBytes :: int
  liMaxManifestBytes :: int
  liRequestTimeout :: duration
  liUploadTimeout :: duration

record Config =
  cfDevelopmentEnabled :: bool
  cfSockets :: SocketsConfig
  cfControl :: ControlConfig
  cfIdentity :: IdentityConfig
  cfLaunch :: Launch
  cfModelProxy :: ModelProxy
  cfMCP :: MCP
  cfKnowledge :: Knowledge
  cfLimits :: LimitsConfig
  cfShutdownTimeout :: duration

section \<open>The store of keys\<close>

datatype cval = CStr string | CInt int | CBool bool

type_synonym store = "(string \<times> cval) list"

definition defaults :: store where
  "defaults =
     [(''sockets.trusted_name'', CStr ''@anvilkit/trusted''),
      (''sockets.candidate_name'', CStr ''@anvilkit/candidate''),
      (''sockets.trusted_uid'', CInt 0),
      (''sockets.candidate_uid'', CInt 10001),
      (''sockets.owner_uid'', CInt 10002),
      (''control.timeout'', CStr ''15s''),
      (''identity.mode'', CStr IdentityDisabled),
      (''identity.mtls.cert_file'', CStr ''/etc/anvilkit/identity/tls.crt''),
      (''identity.mtls.key_file'', CStr ''/etc/anvilkit/identity/tls.key''),
      (''identity.mtls.ca_file'', CStr ''/etc/anvilkit/identity/ca.crt''),
      (''identity.mtls.server_name'', CStr ''anvilkit-agent-control''),
      (''mcp.server_name'', CStr ''anvilkit-agent-mcp''),
      (''knowledge.server_name'', CStr ''anvilkit-agent-knowledge''),
      (''knowledge.timeout'', CStr ''30s''),
      (''development.enabled'', CBool False),
      (''model_proxy.timeout'', CStr ''5m''),
      (''mcp.timeout'', CStr ''2m''),
      (''limits.max_input_bytes'', CInt 1048576),
      (''limits.max_transfer_bytes'', CInt 67108864),
      (''limits.max_manifest_bytes'', CInt 16384),
      (''limits.request_timeout'', CStr ''60s''),
      (''limits.upload_timeout'', CStr ''5m''),
      (''shutdown_timeout'', CStr ''20s'')]"

definition envOverrides :: "(string \<times> string) list" where
  "envOverrides =
     [(''ANVILKIT_SIDECAR_CONTROL_ADDRESS'', ''control.address''),
      (''ANVILKIT_SIDECAR_IDENTITY_MODE'', ''identity.mode''),
      (''ANVILKIT_SIDECAR_LAUNCH_SECRET'', ''launch.secret''),
      (''ANVILKIT_SIDECAR_BACKEND'', ''launch.backend''),
      (''ANVILKIT_SIDECAR_LAUNCH_KEY'', ''launch.launch_key''),
      (''ANVILKIT_SIDECAR_POD_UID'', ''launch.pod_uid''),
      (''ANVILKIT_SIDECAR_LAUNCH_ENVELOPE'', ''launch.envelope''),
      (''ANVILKIT_SIDECAR_MODEL_PROXY_URL'', ''model_proxy.url''),
      (''ANVILKIT_SIDECAR_MODEL_PROXY_TOKEN'', ''model_proxy.token''),
      (''ANVILKIT_SIDECAR_MCP_ADDRESS'', ''mcp.address''),
      (''ANVILKIT_SIDECAR_KNOWLEDGE_ADDRESS'', ''knowledge.address'')]"

text \<open>A key exists when it has a value or is the beginning of a longer key.\<close>

definition key_exists :: "store \<Rightarrow> string \<Rightarrow> bool" where
  "key_exists k key = list_ex (\<lambda>(j, _). j = key \<or> has_prefix j (key @ ''.'')) k"

text \<open>\<open>Koanf.Set\<close>: the value replaces the key, what is below it and a scalar it is below.\<close>

definition key_set :: "string \<Rightarrow> cval \<Rightarrow> store \<Rightarrow> store" where
  "key_set key v k =
     filter (\<lambda>(j, _). j \<noteq> key \<and> \<not> has_prefix j (key @ ''.'') \<and> \<not> has_prefix key (j @ ''.'')) k @ [(key, v)]"

datatype load_error =
    FileFailed string
  | LaunchFactInFile string
  | PlacementInFile string
  | UnknownVariables "string list"
  | UnmarshalFailed string

text \<open>The loop over the environment: the store as set so far and the names not allowed.\<close>

fun env_loop :: "string list \<Rightarrow> store \<Rightarrow> string list \<Rightarrow> store \<times> string list" where
  "env_loop [] k unknown = (k, unknown)"
| "env_loop (kv # rest) k unknown =
     (case str_cut kv ''='' of
        (name, v, _) \<Rightarrow>
          if \<not> has_prefix name envPrefix \<or> name = EnvConfigFile then env_loop rest k unknown
          else (case map_of envOverrides name of
                  None \<Rightarrow> env_loop rest k (unknown @ [name])
                | Some key \<Rightarrow> env_loop rest (key_set key (CStr v) k) unknown))"

definition applyEnv :: "store \<Rightarrow> string list \<Rightarrow> load_error + store" where
  "applyEnv k environ =
     (case env_loop environ k [] of
        (k', unknown) \<Rightarrow>
          if unknown \<noteq> [] then Inl (UnknownVariables (sort unknown)) else Inr k')"

section \<open>Validation\<close>

datatype config_error =
    NotAbstractName string
  | SameName
  | BadSecret
  | SameUIDs
  | RootUID
  | NoControlAddress
  | DevelopmentNotEnabled
  | MTLSFilesMissing
  | MCPServerNameMissing
  | UnknownMode string
  | BadProxyURL
  | ProxyTokenMissing
  | ProxyDevelopmentNotEnabled
  | ProxyNeedsMTLS
  | UnknownProxyMode string
  | TimeoutOutside string
  | BadBackend
  | BadLaunchKey
  | BadPodUID
  | NoEnvelope
  | BadEnvelope envelope_error
  | LimitOutside string

record parsed_url =
  puScheme :: string
  puHost :: string
  puHostname :: string
  puHasUser :: bool

definition Disabled :: "Config \<Rightarrow> bool" where
  "Disabled c = (icMode (cfIdentity c) = IdentityDisabled)"

abbreviation minute :: duration where "minute \<equiv> 60 * second"
abbreviation hour :: duration where "hour \<equiv> 3600 * second"

abbreviation report :: "bool \<Rightarrow> config_error \<Rightarrow> config_error list" where
  "report b e \<equiv> (if b then [e] else [])"

definition outside :: "int \<Rightarrow> int \<Rightarrow> int \<Rightarrow> bool" where
  "outside lo hi v = (v < lo \<or> v > hi)"

definition validate_sockets :: "Config \<Rightarrow> config_error list" where
  "validate_sockets c =
     (let s = cfSockets c in
      report (\<not> IsAbstract (scTrustedName s)) (NotAbstractName (scTrustedName s))
      @ report (\<not> IsAbstract (scCandidateName s)) (NotAbstractName (scCandidateName s))
      @ report (scTrustedName s = scCandidateName s) SameName
      @ report (\<not> Disabled c \<and> (case ParseSecret (laSecret (cfLaunch c)) of Inl _ \<Rightarrow> True | Inr _ \<Rightarrow> False)) BadSecret
      @ report (scTrustedUID s = scCandidateUID s \<or> scOwnerUID s = scTrustedUID s
                \<or> scOwnerUID s = scCandidateUID s) SameUIDs
      @ report (scCandidateUID s = 0 \<or> scOwnerUID s = 0) RootUID)"

definition validate_identity :: "Config \<Rightarrow> config_error list" where
  "validate_identity c =
     (let mode = icMode (cfIdentity c); m = icMTLS (cfIdentity c) in
      if mode = IdentityDisabled then []
      else if mode = IdentityDevelopment then
        report (ccAddress (cfControl c) = []) NoControlAddress
        @ report (\<not> cfDevelopmentEnabled c) DevelopmentNotEnabled
      else if mode = IdentityMTLS then
        report (ccAddress (cfControl c) = []) NoControlAddress
        @ report (mtCertFile m = [] \<or> mtKeyFile m = [] \<or> mtCAFile m = [] \<or> mtServerName m = []) MTLSFilesMissing
        @ report (mcAddress (cfMCP c) \<noteq> [] \<and> mcServerName (cfMCP c) = []) MCPServerNameMissing
      else [UnknownMode mode])"

definition validate_proxy :: "(string \<Rightarrow> parsed_url option) \<Rightarrow> Config \<Rightarrow> config_error list" where
  "validate_proxy url_parse c =
     (let p = cfModelProxy c in
      if mpURL p = [] then []
      else
        report (case url_parse (mpURL p) of None \<Rightarrow> True
                | Some u \<Rightarrow> (puScheme u \<noteq> ''http'' \<and> puScheme u \<noteq> ''https'') \<or> puHost u = [] \<or> puHasUser u)
               BadProxyURL
        @ (if mpIdentityMode p = IdentityDevelopment then
             report (mpToken p = []) ProxyTokenMissing
             @ report (\<not> cfDevelopmentEnabled c) ProxyDevelopmentNotEnabled
           else if mpIdentityMode p = IdentityMTLS then
             report (icMode (cfIdentity c) \<noteq> IdentityMTLS) ProxyNeedsMTLS
           else if mpIdentityMode p = IdentityDisabled then []
           else [UnknownProxyMode (mpIdentityMode p)]))"

definition validate_launch :: "Config \<Rightarrow> config_error list" where
  "validate_launch c =
     (let l = cfLaunch c in
      if Disabled c then []
      else
        report (laBackend l = [] \<or> length (laBackend l) > 64) BadBackend
        @ report (\<not> matches label_re (laLaunchKey l)) BadLaunchKey
        @ report (laPodUID l = [] \<or> length (laPodUID l) > 128) BadPodUID
        @ (if laEnvelope l = [] then [NoEnvelope]
           else (case Parse (laEnvelope l) of Inl e \<Rightarrow> [BadEnvelope e] | Inr _ \<Rightarrow> [])))"

definition validate_limits :: "Config \<Rightarrow> config_error list" where
  "validate_limits c =
     (let lim = cfLimits c in
      report (outside 1 268435456 (liMaxInputBytes lim)) (LimitOutside ''limits.max_input_bytes'')
      @ report (outside 1 1073741824 (liMaxTransferBytes lim)) (LimitOutside ''limits.max_transfer_bytes'')
      @ report (outside 256 16384 (liMaxManifestBytes lim)) (LimitOutside ''limits.max_manifest_bytes'')
      @ report (outside second (10 * minute) (liRequestTimeout lim)) (TimeoutOutside ''limits.request_timeout'')
      @ report (outside second hour (liUploadTimeout lim)) (TimeoutOutside ''limits.upload_timeout'')
      @ report (outside second (5 * minute) (cfShutdownTimeout c)) (TimeoutOutside ''shutdown_timeout''))"

definition validate :: "(string \<Rightarrow> parsed_url option) \<Rightarrow> Config \<Rightarrow> config_error list" where
  "validate url_parse c =
     validate_sockets c @ validate_identity c @ validate_proxy url_parse c
     @ report (outside second hour (mcTimeout (cfMCP c))) (TimeoutOutside ''mcp.timeout'')
     @ report (outside second hour (mpTimeout (cfModelProxy c))) (TimeoutOutside ''model_proxy.timeout'')
     @ report (outside second (5 * minute) (ccTimeout (cfControl c))) (TimeoutOutside ''control.timeout'')
     @ validate_launch c @ validate_limits c"

section \<open>Loading\<close>

record loader =
  read_file :: "string \<Rightarrow> store \<Rightarrow> string + store"
  unmarshal :: "store \<Rightarrow> string + Config"
  url_parse :: "string \<Rightarrow> parsed_url option"

definition launch_facts :: "string list" where
  "launch_facts =
     [''launch.backend'', ''launch.launch_key'', ''launch.pod_uid'', ''launch.envelope'', ''launch.secret'']"

definition placements :: "string list" where
  "placements = [''model_proxy.url'', ''model_proxy.token'']"

definition default_proxy_mode :: "Config \<Rightarrow> Config" where
  "default_proxy_mode c =
     (if mpIdentityMode (cfModelProxy c) = []
      then c\<lparr>cfModelProxy := (cfModelProxy c)\<lparr>mpIdentityMode := icMode (cfIdentity c)\<rparr>\<rparr>
      else c)"

text \<open>The result of a load is an error of reading, or the snapshot and what validation reports.\<close>

definition LoadFrom :: "loader \<Rightarrow> string \<Rightarrow> string list \<Rightarrow> load_error + (Config \<times> config_error list)" where
  "LoadFrom ld path environ =
     (case read_file ld path defaults of
        Inl e \<Rightarrow> Inl (FileFailed e)
      | Inr k \<Rightarrow>
          (case find (key_exists k) launch_facts of
             Some key \<Rightarrow> Inl (LaunchFactInFile key)
           | None \<Rightarrow>
               (case find (key_exists k) placements of
                  Some key \<Rightarrow> Inl (PlacementInFile key)
                | None \<Rightarrow>
                    bind_res (applyEnv k environ) (\<lambda>k'.
                      case unmarshal ld k' of
                        Inl e \<Rightarrow> Inl (UnmarshalFailed e)
                      | Inr c \<Rightarrow> let c' = default_proxy_mode c in Inr (c', validate (url_parse ld) c')))))"

definition Load_config :: "loader \<Rightarrow> (string \<Rightarrow> string) \<Rightarrow> string list \<Rightarrow> load_error + (Config \<times> config_error list)" where
  "Load_config ld getenv environ =
     (let path = getenv EnvConfigFile in
      LoadFrom ld (if path = [] then DefaultConfigFile else path) environ)"

section \<open>What an accepted configuration is\<close>

definition sockets_ok :: "SocketsConfig \<Rightarrow> bool" where
  "sockets_ok s \<longleftrightarrow>
     IsAbstract (scTrustedName s) \<and> IsAbstract (scCandidateName s) \<and> scTrustedName s \<noteq> scCandidateName s
     \<and> distinct [scTrustedUID s, scCandidateUID s, scOwnerUID s] \<and> scCandidateUID s \<noteq> 0 \<and> scOwnerUID s \<noteq> 0"

definition identity_ok :: "Config \<Rightarrow> bool" where
  "identity_ok c \<longleftrightarrow>
     (let mode = icMode (cfIdentity c); m = icMTLS (cfIdentity c) in
      mode = IdentityDisabled
      \<or> mode = IdentityDevelopment \<and> ccAddress (cfControl c) \<noteq> [] \<and> cfDevelopmentEnabled c
      \<or> mode = IdentityMTLS \<and> ccAddress (cfControl c) \<noteq> []
        \<and> [] \<notin> {mtCertFile m, mtKeyFile m, mtCAFile m, mtServerName m}
        \<and> (mcAddress (cfMCP c) = [] \<or> mcServerName (cfMCP c) \<noteq> []))"

definition proxy_ok :: "(string \<Rightarrow> parsed_url option) \<Rightarrow> Config \<Rightarrow> bool" where
  "proxy_ok up c \<longleftrightarrow>
     (let p = cfModelProxy c in
      mpURL p = [] \<or>
      (\<exists>u. up (mpURL p) = Some u \<and> puScheme u \<in> {''http'', ''https''} \<and> puHost u \<noteq> [] \<and> \<not> puHasUser u)
      \<and> (mpIdentityMode p = IdentityDevelopment \<and> mpToken p \<noteq> [] \<and> cfDevelopmentEnabled c
         \<or> mpIdentityMode p = IdentityMTLS \<and> icMode (cfIdentity c) = IdentityMTLS
         \<or> mpIdentityMode p = IdentityDisabled))"

definition launch_ok :: "Launch \<Rightarrow> bool" where
  "launch_ok l \<longleftrightarrow>
     lowerHex (laSecret l) 64 \<and> laBackend l \<noteq> [] \<and> length (laBackend l) \<le> 64 \<and> is_label (laLaunchKey l)
     \<and> laPodUID l \<noteq> [] \<and> length (laPodUID l) \<le> 128 \<and> (\<exists>e. Parse (laEnvelope l) = Inr e)"

definition limits_ok :: "Config \<Rightarrow> bool" where
  "limits_ok c \<longleftrightarrow>
     liMaxInputBytes (cfLimits c) \<in> {1..268435456} \<and> liMaxTransferBytes (cfLimits c) \<in> {1..1073741824}
     \<and> liMaxManifestBytes (cfLimits c) \<in> {256..16384}
     \<and> liRequestTimeout (cfLimits c) \<in> {second..10 * minute} \<and> liUploadTimeout (cfLimits c) \<in> {second..hour}
     \<and> cfShutdownTimeout c \<in> {second..5 * minute} \<and> mcTimeout (cfMCP c) \<in> {second..hour}
     \<and> mpTimeout (cfModelProxy c) \<in> {second..hour} \<and> ccTimeout (cfControl c) \<in> {second..5 * minute}"

definition config_ok :: "(string \<Rightarrow> parsed_url option) \<Rightarrow> Config \<Rightarrow> bool" where
  "config_ok up c \<longleftrightarrow> sockets_ok (cfSockets c) \<and> identity_ok c \<and> proxy_ok up c \<and> limits_ok c
     \<and> (Disabled c \<or> launch_ok (cfLaunch c))"

section \<open>Lemmas\<close>

lemma ParseSecret_Inl_iff: "(case ParseSecret s of Inl _ \<Rightarrow> True | Inr _ \<Rightarrow> False) \<longleftrightarrow> \<not> lowerHex s 64"
proof (cases "lowerHex s 64")
  case True
  with hex_decode_lower [of s] obtain b where "hex_decode s = Some b" by (auto simp: lowerHex_iff)
  with True have "ParseSecret s = Inr b" by (simp add: result_simps)
  with True show ?thesis by simp
qed (simp add: ParseSecret_def secretHexLen_def)

lemma outside_iff: "\<not> outside lo hi v \<longleftrightarrow> v \<in> {lo..hi}"
  by (auto simp: outside_def)

lemma Parse_Nil: "Parse [] = Inl DecodeFailed"
  by (simp add: Parse_def decode_strict_def parse_json_def skip_ws_def)

lemma validate_sockets_Nil:
  "validate_sockets c = [] \<longleftrightarrow> sockets_ok (cfSockets c) \<and> (Disabled c \<or> lowerHex (laSecret (cfLaunch c)) 64)"
  unfolding validate_sockets_def ParseSecret_Inl_iff by (auto simp: sockets_ok_def Let_def)

lemma modes_distinct [simp]:
  "IdentityDisabled \<noteq> IdentityDevelopment" "IdentityDisabled \<noteq> IdentityMTLS" "IdentityDevelopment \<noteq> IdentityMTLS"
  "IdentityDevelopment \<noteq> IdentityDisabled" "IdentityMTLS \<noteq> IdentityDisabled" "IdentityMTLS \<noteq> IdentityDevelopment"
  by (simp_all add: IdentityDisabled_def IdentityDevelopment_def IdentityMTLS_def)

lemma validate_identity_Nil: "validate_identity c = [] \<longleftrightarrow> identity_ok c"
  by (auto simp: validate_identity_def identity_ok_def Let_def)

lemma validate_proxy_Nil: "validate_proxy up c = [] \<longleftrightarrow> proxy_ok up c"
  by (auto simp: validate_proxy_def proxy_ok_def Let_def split: option.splits)

lemma validate_launch_Nil:
  "validate_launch c = [] \<longleftrightarrow> Disabled c \<or>
     (laBackend (cfLaunch c) \<noteq> [] \<and> length (laBackend (cfLaunch c)) \<le> 64 \<and> is_label (laLaunchKey (cfLaunch c))
      \<and> laPodUID (cfLaunch c) \<noteq> [] \<and> length (laPodUID (cfLaunch c)) \<le> 128
      \<and> (\<exists>e. Parse (laEnvelope (cfLaunch c)) = Inr e))"
  by (auto simp: validate_launch_def Let_def not_le Parse_Nil split: sum.splits)

lemma report_outside: "report (outside lo hi v) e = [] \<longleftrightarrow> v \<in> {lo..hi}"
  by (auto simp: outside_def)

lemmas report_append = append_is_Nil_conv report_outside

lemma validate_limits_Nil:
  "validate_limits c = [] \<longleftrightarrow>
     liMaxInputBytes (cfLimits c) \<in> {1..268435456} \<and> liMaxTransferBytes (cfLimits c) \<in> {1..1073741824}
     \<and> liMaxManifestBytes (cfLimits c) \<in> {256..16384}
     \<and> liRequestTimeout (cfLimits c) \<in> {second..10 * minute} \<and> liUploadTimeout (cfLimits c) \<in> {second..hour}
     \<and> cfShutdownTimeout c \<in> {second..5 * minute}"
  unfolding validate_limits_def Let_def report_append by (rule refl)

lemma validate_Nil: "validate up c = [] \<longleftrightarrow> config_ok up c"
  unfolding validate_def report_append validate_limits_Nil validate_sockets_Nil validate_identity_Nil
    validate_proxy_Nil validate_launch_Nil config_ok_def launch_ok_def limits_ok_def
  by blast

end
