(* ===== verification/Authority.thy ===== *)
theory Authority
  imports Contracts
begin

text \<open>
  internal/scope/scope.go, the authority decision: the execution scope, Control's
  registration of this Pod, what the launch envelope binds, the purpose of a decision, and
  \<open>Registration.Confirm\<close>.  \<open>authority\<close> states the decision as a predicate; Confirm succeeds
  exactly when it holds, and it is monotone in the purpose and antitone in the clock.
\<close>

record Scope =
  scTenantID :: string
  scOperationID :: string
  scAttemptID :: string
  scInstanceID :: string
  scCurrent :: bool
  scProfileID :: string
  scExecutionEpoch :: string
  scRecoveryEpoch :: string
  scLaunchKey :: string
  scDeadline :: time
  scProjectID :: string
  scActorID :: string
  scBudgetHeadroom :: "Headroom option"

record Registration =
  rgScope :: Scope
  rgInstance :: "PhysicalInstance option"
  rgAttempt :: "Attempt option"
  rgOperation :: "OperationView option"

record Binding =
  bdOperationID :: string
  bdAttemptID :: string
  bdProfileID :: string
  bdLaunchKey :: string
  bdExecutionEpoch :: string
  bdLaunchEpoch :: string

datatype Purpose = ForNewAuthorization | ForResult

text \<open>The purposes in the order of their constants: a new authorization asks for more.\<close>

instantiation Purpose :: linorder
begin

definition less_eq_Purpose :: "Purpose \<Rightarrow> Purpose \<Rightarrow> bool" where
  "less_eq_Purpose p q = (p = ForNewAuthorization \<or> q = ForResult)"

definition less_Purpose :: "Purpose \<Rightarrow> Purpose \<Rightarrow> bool" where
  "less_Purpose p q = (p = ForNewAuthorization \<and> q = ForResult)"

instance
proof
  fix x y z :: Purpose
  show "x < y \<longleftrightarrow> x \<le> y \<and> \<not> y \<le> x" by (cases x; cases y) (simp_all add: less_eq_Purpose_def less_Purpose_def)
  show "x \<le> x" by (cases x) (simp_all add: less_eq_Purpose_def)
  show "x \<le> y \<Longrightarrow> y \<le> z \<Longrightarrow> x \<le> z" by (cases x; cases y) (simp_all add: less_eq_Purpose_def)
  show "x \<le> y \<Longrightarrow> y \<le> x \<Longrightarrow> x = y" by (cases x; cases y) (simp_all add: less_eq_Purpose_def)
  show "x \<le> y \<or> y \<le> x" by (cases x) (simp_all add: less_eq_Purpose_def)
qed

end

abbreviation as_time :: "time option \<Rightarrow> time" where "as_time t \<equiv> getf (\<lambda>x. x) 0 t"

definition terminal_lifecycle :: "Lifecycle \<Rightarrow> bool" where
  "terminal_lifecycle l = (l = LC_SUCCEEDED \<or> l = LC_FAILED \<or> l = LC_CANCELED)"

definition controlled_state :: "ControlState \<Rightarrow> bool" where
  "controlled_state c = (c \<noteq> CTL_NONE \<and> c \<noteq> CTL_UNSPECIFIED)"

definition executing_state :: "AttemptState \<Rightarrow> bool" where
  "executing_state st = (st = LAUNCH_PREPARED \<or> st = RUNNING)"

definition Registration_Confirm ::
  "Registration \<Rightarrow> Binding \<Rightarrow> time \<Rightarrow> Purpose \<Rightarrow> err + unit" where
  "Registration_Confirm r b now purpose =
     (case (rgInstance r, rgAttempt r) of
        (Some inst, Some at) \<Rightarrow>
          (case rgOperation r of
             None \<Rightarrow> Inl (Wrapped ErrUnavailable
               ''Control answered no operation state; current authority cannot be confirmed'')
           | Some op \<Rightarrow>
               if atAttemptId at \<noteq> bdAttemptID b \<or> atOperationId at \<noteq> bdOperationID b
                  \<or> atProfileId at \<noteq> bdProfileID b \<or> piLaunchKey inst \<noteq> bdLaunchKey b
               then Inl (Wrapped ErrNoAuthority
                 (''registration names attempt '' @ atAttemptId at @ '' of '' @ atOperationId at @ '' (''
                  @ atProfileId at @ '', launch '' @ piLaunchKey inst @ ''), the envelope '' @ bdAttemptID b
                  @ '' of '' @ bdOperationID b @ '' ('' @ bdProfileID b @ '', launch '' @ bdLaunchKey b @ '')''))
               else if piAttemptId inst \<noteq> atAttemptId at \<or> opOperationId op \<noteq> atOperationId at
               then Inl (Wrapped ErrUnavailable
                 ''Control answered an instance, attempt and operation that do not belong together'')
               else if atExecutionEpoch at \<noteq> bdExecutionEpoch b \<or> piLaunchEpoch inst \<noteq> bdLaunchEpoch b
               then Inl (Wrapped ErrNoAuthority
                 (''registration runs under execution epoch '' @ atExecutionEpoch at @ '' and launch epoch ''
                  @ piLaunchEpoch inst @ '', the envelope under '' @ bdExecutionEpoch b @ '' and ''
                  @ bdLaunchEpoch b))
               else if \<not> piCurrent inst then Inl (Plain ErrNoAuthority)
               else if \<not> executing_state (atState at)
                       \<and> \<not> (purpose = ForResult \<and> atState at = RESULT_ACCEPTED)
               then Inl (Wrapped ErrStale
                 (''attempt '' @ atAttemptId at @ '' is ''
                  @ enum_name (AttemptState_String (atState at)) ''ATTEMPT_STATE_''))
               else if opExecutionEpoch op \<noteq> atExecutionEpoch at
               then Inl (Wrapped ErrStale
                 (''operation '' @ opOperationId op @ '' is at execution epoch '' @ opExecutionEpoch op
                  @ '', the attempt at '' @ atExecutionEpoch at))
               else
                 (let terminal = terminal_lifecycle (opLifecycle op);
                      reconciling = (opLifecycle op = LC_RECONCILING);
                      controlled = controlled_state (opControl op);
                      fenced = (controlled \<or> terminal \<or> reconciling)
                  in if fenced \<and> (purpose = ForNewAuthorization \<or> \<not> controlled)
                     then Inl (Wrapped ErrStale
                       (''operation '' @ opOperationId op @ '' is fenced (''
                        @ enum_name (Lifecycle_String (opLifecycle op)) ''LIFECYCLE_'' @ ''/''
                        @ enum_name (ControlState_String (opControl op)) ''CONTROL_STATE_'' @ '')''))
                     else if \<not> now < as_time (atDeadline at) then Inl (Plain ErrDeadline)
                     else if opDeadline op \<noteq> None \<and> \<not> now < as_time (opDeadline op)
                     then Inl (Wrapped ErrDeadline ''operation deadline'')
                     else Inr ()))
      | _ \<Rightarrow> Inl (Wrapped ErrUnavailable ''Control answered no instance or attempt''))"

section \<open>The decision as a predicate\<close>

text \<open>The registration is of the launch the envelope names, under its two epochs.\<close>

definition names_launch :: "PhysicalInstance \<Rightarrow> Attempt \<Rightarrow> Binding \<Rightarrow> bool" where
  "names_launch inst at b =
     (atAttemptId at = bdAttemptID b \<and> atOperationId at = bdOperationID b
      \<and> atProfileId at = bdProfileID b \<and> piLaunchKey inst = bdLaunchKey b
      \<and> atExecutionEpoch at = bdExecutionEpoch b \<and> piLaunchEpoch inst = bdLaunchEpoch b)"

text \<open>The three records are of one another.\<close>

definition belong_together :: "PhysicalInstance \<Rightarrow> Attempt \<Rightarrow> OperationView \<Rightarrow> bool" where
  "belong_together inst at op =
     (piAttemptId inst = atAttemptId at \<and> opOperationId op = atOperationId at
      \<and> opExecutionEpoch op = atExecutionEpoch at)"

definition ended :: "Lifecycle \<Rightarrow> bool" where
  "ended l = (l \<in> {LC_SUCCEEDED, LC_FAILED, LC_CANCELED, LC_RECONCILING})"

fun open_attempt :: "Purpose \<Rightarrow> AttemptState \<Rightarrow> bool" where
  "open_attempt ForNewAuthorization st = (st \<in> {LAUNCH_PREPARED, RUNNING})"
| "open_attempt ForResult st = (st \<in> {LAUNCH_PREPARED, RUNNING, RESULT_ACCEPTED})"

text \<open>A control intent refuses a new authorization; a result only needs the operation not ended without one.\<close>

fun unfenced :: "Purpose \<Rightarrow> OperationView \<Rightarrow> bool" where
  "unfenced ForNewAuthorization op = (opControl op \<in> {CTL_NONE, CTL_UNSPECIFIED} \<and> \<not> ended (opLifecycle op))"
| "unfenced ForResult op = (opControl op \<in> {CTL_NONE, CTL_UNSPECIFIED} \<longrightarrow> \<not> ended (opLifecycle op))"

definition in_time :: "Attempt \<Rightarrow> OperationView \<Rightarrow> time \<Rightarrow> bool" where
  "in_time at op now =
     (now < as_time (atDeadline at) \<and> (case opDeadline op of None \<Rightarrow> True | Some d \<Rightarrow> now < d))"

definition authority :: "Registration \<Rightarrow> Binding \<Rightarrow> time \<Rightarrow> Purpose \<Rightarrow> bool" where
  "authority r b now p =
     (\<exists>inst at op. rgInstance r = Some inst \<and> rgAttempt r = Some at \<and> rgOperation r = Some op
        \<and> names_launch inst at b \<and> belong_together inst at op \<and> piCurrent inst
        \<and> open_attempt p (atState at) \<and> unfenced p op \<and> in_time at op now)"

section \<open>Lemmas\<close>

lemma open_attempt_iff:
  "open_attempt p st \<longleftrightarrow> executing_state st \<or> (p = ForResult \<and> st = RESULT_ACCEPTED)"
  by (cases p) (auto simp: executing_state_def)

lemma unfenced_iff:
  "unfenced p op \<longleftrightarrow>
     \<not> ((controlled_state (opControl op) \<or> terminal_lifecycle (opLifecycle op) \<or> opLifecycle op = LC_RECONCILING)
        \<and> (p = ForNewAuthorization \<or> \<not> controlled_state (opControl op)))"
  by (cases p) (auto simp: controlled_state_def terminal_lifecycle_def ended_def)

lemma in_time_iff:
  "in_time at op now \<longleftrightarrow> now < as_time (atDeadline at) \<and> \<not> (opDeadline op \<noteq> None \<and> \<not> now < as_time (opDeadline op))"
  by (auto simp: in_time_def split: option.splits)

lemma authority_Some:
  assumes "rgInstance r = Some inst" "rgAttempt r = Some at" "rgOperation r = Some op"
  shows "authority r b now p \<longleftrightarrow>
    names_launch inst at b \<and> belong_together inst at op \<and> piCurrent inst
    \<and> open_attempt p (atState at) \<and> unfenced p op \<and> in_time at op now"
  using assms by (simp add: authority_def)

lemma Registration_Confirm_Inr [result_simps]:
  "Registration_Confirm r b now p = Inr u \<longleftrightarrow> authority r b now p"
proof -
  consider (all) inst at op where "rgInstance r = Some inst" "rgAttempt r = Some at" "rgOperation r = Some op"
    | "rgInstance r = None" | "rgAttempt r = None" | "rgOperation r = None" by fastforce
  then show ?thesis
  proof cases
    case all
    have "Registration_Confirm r b now p = Inr u \<longleftrightarrow>
      names_launch inst at b \<and> belong_together inst at op \<and> piCurrent inst
      \<and> open_attempt p (atState at) \<and> unfenced p op \<and> in_time at op now"
      unfolding open_attempt_iff unfenced_iff in_time_iff names_launch_def belong_together_def
        Registration_Confirm_def all option.case prod.case Let_def if_Inl_Inr by auto
    then show ?thesis by (simp add: authority_Some [OF all])
  qed (auto simp: Registration_Confirm_def authority_def split: option.split)
qed

lemma authority_mono: "authority r b t p \<Longrightarrow> p \<le> q \<Longrightarrow> t' \<le> t \<Longrightarrow> authority r b t' q"
  unfolding authority_def in_time_def less_eq_Purpose_def
  by (cases p; cases q) (force split: option.splits)+

end
