(* ===== verification/Client.thy ===== *)
theory Client
  imports Authority Digest GoText
begin

text \<open>
  internal/scope/scope.go, the Control client: the registration lookup, the authority
  decision on it, the scoped artifact upload and download, the result submission, the two
  stage reads and the progress report.  Every operation takes the environment and the
  history of what the process asked of it, and returns its result with the history
  extended by exactly the calls it made.
\<close>

definition ActorID :: string where "ActorID = ''anvilkit-job-access-sidecar''"

record Identity =
  idBackend :: string
  idLaunchKey :: string
  idPodUID :: string

definition refused_codes :: "grpc_code list" where
  "refused_codes =
     [FailedPrecondition, Aborted, InvalidArgument, NotFound, PermissionDenied, ResourceExhausted, DataLoss]"

fun refusal :: "rpc_error \<Rightarrow> err" where
  "refusal (NotStatus t) = Wrapped ErrUnavailable t"
| "refusal (Status c m) =
     (if c \<in> set refused_codes
      then (case str_cut m '':'' of (code, _, _) \<Rightarrow> Wrapped ErrRefused (trim_space code))
      else Wrapped ErrUnavailable (code_string c))"

definition Code :: "err \<Rightarrow> string" where
  "Code e =
     (if \<not> errors_is e ErrRefused then []
      else (case str_cut (err_text e) ''refused: '' of (_, code, _) \<Rightarrow> code))"

section \<open>Lookup and Confirm\<close>

definition registration_of :: "GetInstanceResponse \<Rightarrow> Registration" where
  "registration_of resp =
     (let inst = giInstance resp; at = giAttempt resp; op = giOperation resp in
      \<lparr>rgScope =
         \<lparr>scTenantID = giTenantId resp, scOperationID = getf atOperationId [] at,
          scAttemptID = getf atAttemptId [] at, scInstanceID = getf piInstanceId [] inst,
          scCurrent = getf piCurrent False inst, scProfileID = getf atProfileId [] at,
          scExecutionEpoch = getf atExecutionEpoch [] at, scRecoveryEpoch = giRecoveryEpoch resp,
          scLaunchKey = getf piLaunchKey [] inst, scDeadline = as_time (getf atDeadline None at),
          scProjectID = getf opProjectId [] op, scActorID = getf opActorId [] op,
          scBudgetHeadroom = giBudgetHeadroom resp\<rparr>,
       rgInstance = inst, rgAttempt = at, rgOperation = op\<rparr>)"

definition Lookup :: "upstream \<Rightarrow> Identity \<Rightarrow> Registration act" where
  "Lookup up ident h =
     (case rpc (getInstance up) GetInstance
             \<lparr>grBackend = idBackend ident, grLaunchKey = idLaunchKey ident, grPodUid = idPodUID ident\<rparr> h of
        (Inl (Status c m), h') \<Rightarrow>
          if c = NotFound then (Inl (Plain ErrUnregistered), h') else (Inl (refusal (Status c m)), h')
      | (Inl (NotStatus t), h') \<Rightarrow> (Inl (refusal (NotStatus t)), h')
      | (Inr resp, h') \<Rightarrow>
          let inst = giInstance resp in
          if getf piPodUid [] inst \<noteq> idPodUID ident \<or> getf piLaunchKey [] inst \<noteq> idLaunchKey ident
             \<or> getf piBackend [] inst \<noteq> idBackend ident
          then (Inl (Wrapped ErrUnavailable ''Control answered another registration''), h')
          else (Inr (registration_of resp), h'))"

text \<open>The clock is read after the lookup, immediately before the decision.\<close>

definition Confirm :: "upstream \<Rightarrow> Identity \<Rightarrow> Binding \<Rightarrow> Purpose \<Rightarrow> Scope act" where
  "Confirm up ident b purpose =
     bind_act (Lookup up ident) (\<lambda>r h.
       case Registration_Confirm r b (clock up h) purpose of
         Inl e \<Rightarrow> (Inl e, h @ [ReadClock])
       | Inr _ \<Rightarrow> (Inr (rgScope r), h @ [ReadClock]))"

section \<open>Upload\<close>

definition command :: "string \<Rightarrow> string \<Rightarrow> bytes \<Rightarrow> CommandIdentity" where
  "command tenant cmdID raw =
     \<lparr>ciTenantId = tenant, ciCommandId = cmdID, ciActorId = ActorID, ciRequestDigest = DigestOf raw\<rparr>"

definition classes :: "(string \<times> ArtifactClass) list" where
  "classes =
     [(''prompt'', PROMPT), (''brief'', BRIEF), (''source'', SOURCE), (''stage'', STAGE),
      (''result'', RESULT), (''evidence'', EVIDENCE), (''answer'', ANSWER), (''argument'', ARGUMENT),
      (''npm'', NPM), (''browser'', BROWSER), (''css'', CSS)]"

record Transfer =
  trHandle :: string
  trTransferID :: string
  trClass :: string
  trDigest :: string
  trSizeBytes :: string
  trObjectVersion :: string
  trState :: string
  trExisting :: bool

record transferBinding =
  tbAttempt :: string
  tbClass :: string
  tbDigest :: string
  tbMediaType :: string
  tbSize :: int

definition marshal_transferBinding :: "transferBinding \<Rightarrow> bytes" where
  "marshal_transferBinding b =
     json_object
       [(''Attempt'', json_string (tbAttempt b)), (''Class'', json_string (tbClass b)),
        (''Digest'', json_string (tbDigest b)), (''MediaType'', json_string (tbMediaType b)),
        (''Size'', show_int (tbSize b))]"

definition put_headers :: "(string \<times> string) list \<Rightarrow> header" where
  "put_headers hs =
     foldl (\<lambda>h (k, v). if equal_fold k ''Content-Length'' then h else header_set k v h) [] hs"

definition request_method :: "string \<Rightarrow> string" where
  "request_method m = (if m = [] then ''GET'' else m)"

definition put_request :: "TransferCapability \<Rightarrow> bytes \<Rightarrow> http_request" where
  "put_request cap body =
     \<lparr>hqMethod = request_method (capMethod cap), hqUrl = capUrl cap,
      hqHeaders = put_headers (capHeaders cap), hqBody = body\<rparr>"

definition put :: "upstream \<Rightarrow> TransferCapability \<Rightarrow> bytes \<Rightarrow> string act" where
  "put up cap body h =
     (case newRequest up (capMethod cap) (capUrl cap) of
        Some e \<Rightarrow> (Inl (Wrapped ErrUnavailable (''upload request: '' @ e)), h)
      | None \<Rightarrow>
          (case rpc (httpDo up) HttpDo (put_request cap body) h of
             (None, h') \<Rightarrow> (Inl (Wrapped ErrUnavailable ''upload: transport error''), h')
           | (Some resp, h') \<Rightarrow>
               if hpStatus resp < 200 \<or> hpStatus resp > 299
               then (Inl (Wrapped ErrUnavailable (''upload answered '' @ show_int (hpStatus resp))), h')
               else (let version = header_get (hpHeaders resp) ''x-amz-version-id'' in
                     if version = []
                     then (Inl (Wrapped ErrUnavailable
                             ''the store assigned no object version (versioning is required)''), h')
                     else (Inr version, h'))))"

definition begin_request :: "Scope \<Rightarrow> string \<Rightarrow> ArtifactClass \<Rightarrow> string \<Rightarrow> bytes \<Rightarrow> BeginTransferRequest" where
  "begin_request s class cls mediaType body =
     (let digest = DigestOf body;
          b = \<lparr>tbAttempt = scAttemptID s, tbClass = class, tbDigest = digest, tbMediaType = mediaType,
               tbSize = int (length body)\<rparr>;
          cmdID = scAttemptID s @ '':xfer:'' @ class @ '':'' @ take 32 (trim_prefix digest ''sha256:'')
      in \<lparr>brCommand = command (scTenantID s) cmdID (marshal_transferBinding b),
          brScopeTenantId = scTenantID s, brScopeActorId = ActorID, brClass = cls,
          brExpectedDigest = digest, brExpectedSize = show_int (int (length body)),
          brMediaType = mediaType, brOperationId = scOperationID s, brAttemptId = scAttemptID s,
          brDeadline = scDeadline s\<rparr>)"

definition finalize_request :: "Scope \<Rightarrow> string \<Rightarrow> string \<Rightarrow> FinalizeTransferRequest" where
  "finalize_request s handle version =
     \<lparr>frCommand = command (scTenantID s) (scAttemptID s @ '':fin:'' @ handle)
        (marshal_map [(''handle'', handle), (''objectVersion'', version)]),
      frHandle = handle, frObjectVersion = version, frInstanceId = scInstanceID s\<rparr>"

definition transfer_state_name :: "TransferState \<Rightarrow> string" where
  "transfer_state_name st = enum_name (TransferState_String st) ''TRANSFER_STATE_''"

definition Upload ::
  "upstream \<Rightarrow> (nat \<Rightarrow> bool) \<Rightarrow> Scope \<Rightarrow> string \<Rightarrow> string \<Rightarrow> bytes \<Rightarrow> Transfer act" where
  "Upload up pr s class mediaType body h =
     (case map_of classes class of
        None \<Rightarrow> (Inl (Wrapped ErrRefused (''INVALID_ARGUMENT unknown artifact class '' @ Quote pr class)), h)
      | Some cls \<Rightarrow>
          (case rpc (beginTransfer up) BeginTransfer (begin_request s class cls mediaType body) h of
             (Inl e, h1) \<Rightarrow> (Inl (refusal e), h1)
           | (Inr begun, h1) \<Rightarrow>
               let t = btTransfer begun;
                   out = \<lparr>trHandle = getf arHandle [] t, trTransferID = getf arTransferId [] t,
                     trClass = class, trDigest = DigestOf body, trSizeBytes = show_int (int (length body)),
                     trObjectVersion = [], trState = [], trExisting = btExisting begun\<rparr>;
                   st = getf arState (TransferState_other ''TRANSFER_STATE_UNSPECIFIED'') t
               in if st = FINALIZED
                  then (Inr (out\<lparr>trObjectVersion := getf arObjectVersion [] t, trState := ''finalized''\<rparr>), h1)
                  else if getf capUrl [] (btUpload begun) = []
                  then (Inl (Wrapped ErrRefused
                          (''STALE_EXECUTION transfer '' @ getf arTransferId [] t @ '' is ''
                           @ transfer_state_name st @ '' and no upload capability was issued'')), h1)
                  else bind_act (put up (the (btUpload begun)) body) (\<lambda>version h2.
                    (case rpc (finalizeTransfer up) FinalizeTransfer
                            (finalize_request s (getf arHandle [] t) version) h2 of
                       (Inl e, h3) \<Rightarrow> (Inl (refusal e), h3)
                     | (Inr ft, h3) \<Rightarrow>
                         let fin = getf arState (TransferState_other ''TRANSFER_STATE_UNSPECIFIED'') ft in
                         if fin \<noteq> FINALIZED
                         then (Inl (Wrapped ErrRefused
                                 (getf arReasonCode [] ft @ '' transfer '' @ getf arTransferId [] ft
                                  @ '' rejected'')), h3)
                         else (Inr (out\<lparr>trObjectVersion := getf arObjectVersion [] ft,
                                 trState := transfer_state_name fin\<rparr>), h3))) h1))"

section \<open>Results and stages\<close>

definition verdicts :: "(string \<times> Verdict) list" where
  "verdicts =
     [(''certified'', CERTIFIED), (''repairable'', REPAIRABLE), (''invalid'', INVALID),
      (''infrastructure_failed'', INFRASTRUCTURE_FAILED), (''canceled'', CANCELED)]"

record Stage =
  stStageID :: string
  stResultDigest :: string
  stExisting :: bool

record AcceptedArtifact =
  aaHandle :: string
  aaClass :: string
  aaDigest :: string
  aaSizeBytes :: string
  aaTransferID :: string
  aaObjectVersion :: string

record AcceptedStage =
  asStageID :: string
  asAttemptID :: string
  asInstanceID :: string
  asVerdict :: string
  asFailureCode :: string
  asResultDigest :: string
  asObserverIdentity :: string
  asProfileID :: string
  asExecutionEpoch :: string
  asRecoveryEpoch :: string
  asArtifacts :: "AcceptedArtifact list"

definition accept_request :: "Scope \<Rightarrow> string \<Rightarrow> Verdict \<Rightarrow> string \<Rightarrow> bytes \<Rightarrow> AcceptResultRequest" where
  "accept_request s verdict v failureCode manifest =
     (let digest = DigestOf manifest in
      \<lparr>arqCommand = command (scTenantID s) (scAttemptID s @ '':accept'')
         (marshal_map [(''attempt'', scAttemptID s), (''instance'', scInstanceID s),
            (''digest'', digest), (''verdict'', verdict)]),
       arqAttemptId = scAttemptID s, arqInstanceId = scInstanceID s, arqProfileId = scProfileID s,
       arqVerdict = v, arqResultDigest = digest, arqResultManifest = manifest,
       arqObserverIdentity = ActorID, arqExecutionEpoch = scExecutionEpoch s,
       arqFailureCode = (if failureCode \<noteq> [] then Some failureCode else None)\<rparr>)"

definition Submit ::
  "upstream \<Rightarrow> (nat \<Rightarrow> bool) \<Rightarrow> Scope \<Rightarrow> string \<Rightarrow> string \<Rightarrow> bytes \<Rightarrow> Stage act" where
  "Submit up pr s verdict failureCode manifest h =
     (case map_of verdicts verdict of
        None \<Rightarrow> (Inl (Wrapped ErrRefused (''INVALID_ARGUMENT unknown verdict '' @ Quote pr verdict)), h)
      | Some v \<Rightarrow>
          (case rpc (acceptResult up) AcceptResult (accept_request s verdict v failureCode manifest) h of
             (Inl e, h') \<Rightarrow> (Inl (refusal e), h')
           | (Inr resp, h') \<Rightarrow>
               (Inr \<lparr>stStageID = getf srStageId [] (acStage resp),
                  stResultDigest = getf srResultDigest [] (acStage resp),
                  stExisting = acExisting resp\<rparr>, h')))"

definition fromArtifact :: "StageArtifact \<Rightarrow> AcceptedArtifact" where
  "fromArtifact a =
     \<lparr>aaHandle = saHandle a, aaClass = saClass a, aaDigest = saDigest a, aaSizeBytes = saSizeBytes a,
      aaTransferID = saTransferId a, aaObjectVersion = saObjectVersion a\<rparr>"

definition fromAcceptedStage :: "StageMessage option \<Rightarrow> AcceptedStage option" where
  "fromAcceptedStage m =
     (case m of
        None \<Rightarrow> None
      | Some st \<Rightarrow> Some
          \<lparr>asStageID = smStageId st, asAttemptID = smAttemptId st, asInstanceID = smInstanceId st,
           asVerdict = enum_name (Verdict_String (smVerdict st)) ''VERDICT_'',
           asFailureCode = smFailureCode st, asResultDigest = smResultDigest st,
           asObserverIdentity = smObserverIdentity st, asProfileID = smProfileId st,
           asExecutionEpoch = smExecutionEpoch st, asRecoveryEpoch = smRecoveryEpoch st,
           asArtifacts = map fromArtifact (smArtifacts st)\<rparr>)"

text \<open>The read both stage operations share: a stage Control does not find is nil, not an error.\<close>

definition read_stage :: "upstream \<Rightarrow> GetAcceptedStageRequest \<Rightarrow> AcceptedStage option act" where
  "read_stage up q h =
     (case rpc (getAcceptedStage up) GetAcceptedStage q h of
        (Inl e, h') \<Rightarrow>
          if status_code e = NotFound then (Inr None, h') else (Inl (refusal e), h')
      | (Inr m, h') \<Rightarrow> (Inr (fromAcceptedStage m), h'))"

definition AcceptedStage_read :: "upstream \<Rightarrow> Scope \<Rightarrow> AcceptedStage option act" where
  "AcceptedStage_read up s =
     read_stage up \<lparr>gsAttemptId = scAttemptID s, gsTenantId = scTenantID s, gsOperationId = []\<rparr>"

definition PriorStage :: "upstream \<Rightarrow> Scope \<Rightarrow> string \<Rightarrow> AcceptedStage option act" where
  "PriorStage up s attemptID =
     read_stage up
       \<lparr>gsAttemptId = attemptID, gsTenantId = scTenantID s, gsOperationId = scOperationID s\<rparr>"

section \<open>Load\<close>

record Loaded =
  ldHandle :: string
  ldClass :: string
  ldDigest :: string
  ldSizeBytes :: int
  ldBytes :: bytes

text \<open>
  \<open>io.ReadAll(io.LimitReader(body, size + 1))\<close>: the sum wraps at 64 bits, a limit below 1
  reads nothing, and a torn body is an error only when the reader gets to the tear.
\<close>

definition limit_after :: "int \<Rightarrow> int" where
  "limit_after sz = (if sz = 2 ^ 63 - 1 then - (2 ^ 63) else sz + 1)"

definition read_limited :: "int \<Rightarrow> http_response \<Rightarrow> bytes option" where
  "read_limited n resp =
     (if n \<le> 0 then Some []
      else if hpTorn resp \<and> int (length (hpBody resp)) < n then None
      else Some (take (nat n) (hpBody resp)))"

definition load_headers :: "(string \<times> string) list \<Rightarrow> header" where
  "load_headers hs = foldl (\<lambda>h (k, v). header_set k v h) [] hs"

definition load_request :: "TransferCapability \<Rightarrow> http_request" where
  "load_request cap =
     \<lparr>hqMethod = request_method (capMethod cap), hqUrl = capUrl cap,
      hqHeaders = load_headers (capHeaders cap), hqBody = []\<rparr>"

definition declared_size :: "ArtifactTransfer option \<Rightarrow> int option" where
  "declared_size t =
     (case parse_int64 (getf arExpectedSize [] t) of
        None \<Rightarrow> None
      | Some sz \<Rightarrow> if sz < 0 then None else Some sz)"

definition fetch :: "upstream \<Rightarrow> string \<Rightarrow> ArtifactTransfer option \<Rightarrow> TransferCapability \<Rightarrow> int \<Rightarrow> Loaded act" where
  "fetch up handle t cap sz h =
     (case newRequest up (capMethod cap) (capUrl cap) of
        Some e \<Rightarrow> (Inl (Wrapped ErrUnavailable (''download request: '' @ e)), h)
      | None \<Rightarrow>
          (case rpc (httpDo up) HttpDo (load_request cap) h of
             (None, h') \<Rightarrow> (Inl (Wrapped ErrUnavailable ''download: transport error''), h')
           | (Some res, h') \<Rightarrow>
               if hpStatus res \<noteq> 200
               then (Inl (Wrapped ErrUnavailable (''download answered '' @ show_int (hpStatus res))), h')
               else
                 (case read_limited (limit_after sz) res of
                    None \<Rightarrow> (Inl (Wrapped ErrUnavailable ''download: transport error''), h')
                  | Some body \<Rightarrow>
                      if int (length body) \<noteq> sz \<or> DigestOf body \<noteq> getf arExpectedDigest [] t
                      then (Inl (Wrapped ErrRefused
                              (''STALE_EXECUTION artifact '' @ handle @ '': the downloaded bytes (''
                               @ show_int (int (length body)) @ '', '' @ DigestOf body
                               @ '') are not the recorded object ('' @ getf arExpectedSize [] t @ '', ''
                               @ getf arExpectedDigest [] t @ '')'')), h')
                      else (Inr \<lparr>ldHandle = getf arHandle [] t,
                              ldClass = enum_name (ArtifactClass_String
                                (getf arClass (ArtifactClass_other ''ARTIFACT_CLASS_UNSPECIFIED'') t))
                                ''ARTIFACT_CLASS_'',
                              ldDigest = getf arExpectedDigest [] t, ldSizeBytes = sz,
                              ldBytes = body\<rparr>, h'))))"

definition Load ::
  "upstream \<Rightarrow> (nat \<Rightarrow> bool) \<Rightarrow> Scope \<Rightarrow> string \<Rightarrow> int \<Rightarrow> Loaded act" where
  "Load up pr s handle maxBytes h =
     (case rpc (readArtifact up) ReadArtifact
             \<lparr>rrHandle = handle, rrOperationId = scOperationID s, rrInstanceId = scInstanceID s,
              rrTenantId = scTenantID s\<rparr> h of
        (Inl e, h') \<Rightarrow> (Inl (refusal e), h')
      | (Inr resp, h') \<Rightarrow>
          let t = raTransfer resp in
          (case declared_size t of
             None \<Rightarrow> (Inl (Wrapped ErrUnavailable
                 (''transfer '' @ getf arTransferId [] t @ '' declares size ''
                  @ Quote pr (getf arExpectedSize [] t))), h')
           | Some sz \<Rightarrow>
               if maxBytes > 0 \<and> sz > maxBytes
               then (Inl (Wrapped ErrRefused
                       (''INVALID_ARGUMENT artifact '' @ handle @ '' holds '' @ show_int sz
                        @ '' bytes, the input bound is '' @ show_int maxBytes)), h')
               else if getf capUrl [] (raDownload resp) = []
               then (Inl (Wrapped ErrUnavailable ''no download capability was issued''), h')
               else fetch up handle t (the (raDownload resp)) sz h'))"

section \<open>Progress\<close>

record ProgressRecord =
  pgEventSeq :: string
  pgTransitionID :: string
  pgExisting :: bool

definition progress_request ::
  "Scope \<Rightarrow> string \<Rightarrow> string \<Rightarrow> string \<Rightarrow> string \<Rightarrow> ProgressRequest" where
  "progress_request s node state rnd outcomeCode =
     \<lparr>pqCommand = command (scTenantID s)
        (scAttemptID s @ '':progress:'' @ node @ '':'' @ rnd @ '':'' @ state)
        (marshal_map [(''attempt'', scAttemptID s), (''instance'', scInstanceID s), (''node'', node),
           (''state'', state), (''round'', rnd), (''outcomeCode'', outcomeCode)]),
      pqAttemptId = scAttemptID s, pqInstanceId = scInstanceID s,
      pqExecutionEpoch = scExecutionEpoch s, pqNode = node, pqState = state, pqRound = rnd,
      pqOutcomeCode = (if outcomeCode \<noteq> [] then Some outcomeCode else None)\<rparr>"

definition Progress ::
  "upstream \<Rightarrow> Scope \<Rightarrow> string \<Rightarrow> string \<Rightarrow> string \<Rightarrow> string \<Rightarrow> ProgressRecord act" where
  "Progress up s node state rnd outcomeCode h =
     (case rpc (recordAttemptProgress up) RecordAttemptProgress
             (progress_request s node state rnd outcomeCode) h of
        (Inl e, h') \<Rightarrow> (Inl (refusal e), h')
      | (Inr resp, h') \<Rightarrow>
          (Inr \<lparr>pgEventSeq = prEventSeq resp, pgTransitionID = prTransitionId resp,
             pgExisting = prExisting resp\<rparr>, h'))"

section \<open>Lemmas\<close>

lemma rpc_eq: "rpc f ev q h = (r, h') \<longleftrightarrow> r = f h q \<and> h' = h @ [ev q]"
  by (auto simp: rpc_def)

section \<open>The confirmed scope\<close>

definition instance_query :: "Identity \<Rightarrow> GetInstanceRequest" where
  "instance_query ident =
     \<lparr>grBackend = idBackend ident, grLaunchKey = idLaunchKey ident, grPodUid = idPodUID ident\<rparr>"

definition same_pod :: "Identity \<Rightarrow> GetInstanceResponse \<Rightarrow> bool" where
  "same_pod ident resp =
     (getf piPodUid [] (giInstance resp) = idPodUID ident
      \<and> getf piLaunchKey [] (giInstance resp) = idLaunchKey ident
      \<and> getf piBackend [] (giInstance resp) = idBackend ident)"

lemma Lookup_history: "snd (Lookup up ident h) = h @ [GetInstance (instance_query ident)]"
  by (auto simp: Lookup_def rpc_def instance_query_def Let_def split: sum.splits rpc_error.splits)

lemma Lookup_Inr [result_simps]:
  "Lookup up ident h = (Inr r, h') \<longleftrightarrow>
     (\<exists>resp. getInstance up h (instance_query ident) = Inr resp \<and> same_pod ident resp
        \<and> r = registration_of resp \<and> h' = h @ [GetInstance (instance_query ident)])"
  by (auto simp: Lookup_def rpc_def instance_query_def same_pod_def Let_def
      split: sum.splits rpc_error.splits if_splits)

lemma Confirm_Inr [result_simps]:
  "Confirm up ident b p h = (Inr s, h') \<longleftrightarrow>
     (\<exists>resp. getInstance up h (instance_query ident) = Inr resp \<and> same_pod ident resp
        \<and> authority (registration_of resp) b (clock up (h @ [GetInstance (instance_query ident)])) p
        \<and> s = rgScope (registration_of resp)
        \<and> h' = h @ [GetInstance (instance_query ident), ReadClock])"
proof -
  have "(case Registration_Confirm r b t p of Inl e \<Rightarrow> (Inl e, k) | Inr _ \<Rightarrow> (Inr (rgScope r), k)) = (Inr s, h')
      \<longleftrightarrow> authority r b t p \<and> s = rgScope r \<and> h' = k" for r t k
    using Registration_Confirm_Inr [of r b t p "()"]
    by (cases "Registration_Confirm r b t p") auto
  then show ?thesis by (auto simp: Confirm_def result_simps)
qed

lemma Confirm_history:
  "snd (Confirm up ident b p h) \<in>
     {h @ [GetInstance (instance_query ident)], h @ [GetInstance (instance_query ident), ReadClock]}"
proof (cases "Lookup up ident h")
  case (Pair r k)
  then have "k = h @ [GetInstance (instance_query ident)]"
    using Lookup_history [of up ident h] by simp
  with Pair show ?thesis by (auto simp: Confirm_def bind_act_def split: sum.splits)
qed

text \<open>What a confirmed scope is: the launch the binding names, on the current instance, in time.\<close>

lemma Confirm_scope:
  assumes "Confirm up ident b p h = (Inr s, h')"
  shows "scAttemptID s = bdAttemptID b \<and> scOperationID s = bdOperationID b
    \<and> scProfileID s = bdProfileID b \<and> scLaunchKey s = bdLaunchKey b
    \<and> scExecutionEpoch s = bdExecutionEpoch b \<and> scCurrent s
    \<and> clock up (h @ [GetInstance (instance_query ident)]) < scDeadline s"
  using assms
  by (auto simp: result_simps authority_def names_launch_def in_time_def registration_of_def Let_def)

section \<open>One remote call\<close>

text \<open>The result of an operation that is one remote call, by the answer of the call.\<close>

lemma read_stage_eq:
  "read_stage up q h =
     (case getAcceptedStage up h q of
        Inl e \<Rightarrow> (if status_code e = NotFound then Inr None else Inl (refusal e))
      | Inr m \<Rightarrow> Inr (fromAcceptedStage m), h @ [GetAcceptedStage q])"
  by (auto simp: read_stage_def rpc_def split: sum.splits)

lemma read_stage_history: "read_stage up q h = (r, h') \<Longrightarrow> h' = h @ [GetAcceptedStage q]"
  by (auto simp: read_stage_eq)

lemma Progress_history:
  "snd (Progress up s n st r oc h) = h @ [RecordAttemptProgress (progress_request s n st r oc)]"
  by (auto simp: Progress_def rpc_def split: sum.splits)

lemma refused_code_of:
  "errors_is (refusal e) ErrRefused \<longleftrightarrow> (\<exists>c m. e = Status c m \<and> c \<in> set refused_codes)"
  by (cases e) (auto simp: errors_is_def split: prod.splits)
section \<open>The upload protocol\<close>

lemma put_history:
  "snd (put up cap body h) \<in> {h, h @ [HttpDo (put_request cap body)]}"
  by (auto simp: put_def rpc_def Let_def split: option.splits)

lemma put_Inr:
  "put up cap body h = (Inr v, h') \<longleftrightarrow>
     newRequest up (capMethod cap) (capUrl cap) = None
     \<and> (\<exists>resp. httpDo up h (put_request cap body) = Some resp
          \<and> 200 \<le> hpStatus resp \<and> hpStatus resp \<le> 299
          \<and> v = header_get (hpHeaders resp) ''x-amz-version-id'')
     \<and> v \<noteq> [] \<and> h' = h @ [HttpDo (put_request cap body)]"
  by (auto simp: put_def rpc_def Let_def split: option.splits)

text \<open>
  The calls of an upload: nothing for a class that does not exist; otherwise the transfer is
  begun, then the one request the capability authorizes carries the bytes, then the transfer
  is finalized naming this instance and a nonempty object version.  Every error cuts this
  sequence short.
\<close>

fun upload_calls :: "Scope \<Rightarrow> string \<Rightarrow> string \<Rightarrow> bytes \<Rightarrow> event list \<Rightarrow> bool" where
  "upload_calls s class mediaType body [] = True"
| "upload_calls s class mediaType body (BeginTransfer b # rest) =
     ((\<exists>cls. map_of classes class = Some cls \<and> b = begin_request s class cls mediaType body) \<and>
      (case rest of
         [] \<Rightarrow> True
       | [HttpDo q] \<Rightarrow> (\<exists>cap. q = put_request cap body)
       | [HttpDo q, FinalizeTransfer f] \<Rightarrow>
           (\<exists>cap. q = put_request cap body) \<and> (\<exists>handle v. v \<noteq> [] \<and> f = finalize_request s handle v)
       | _ \<Rightarrow> False))"
| "upload_calls s class mediaType body _ = False"

lemma upload_calls_cases:
  assumes "upload_calls s c m body (BeginTransfer b # rest)"
  obtains "rest = []" | cap where "rest = [HttpDo (put_request cap body)]"
  | cap h v where "rest = [HttpDo (put_request cap body), FinalizeTransfer (finalize_request s h v)]"
proof (cases rest)
  case (Cons e r)
  with assms obtain q where e: "e = HttpDo q" by (cases e; cases r) auto
  show thesis
  proof (cases r)
    case Nil
    with assms Cons e that(2) show thesis by auto
  next
    case r: (Cons e2 r2)
    with assms Cons e obtain f where "e2 = FinalizeTransfer f" "r2 = []" by (cases e2; cases r2) auto
    with assms Cons r e that(3) show thesis by auto
  qed
qed (rule that(1))

lemma Upload_calls:
  "\<exists>calls. snd (Upload up pr s class mt body h) = h @ calls \<and> upload_calls s class mt body calls"
proof (cases "map_of classes class")
  case None
  then show ?thesis by (intro exI [of _ "[]"]) (simp add: Upload_def)
next
  case cls: (Some cls)
  let ?b = "begin_request s class cls mt body"
  have one: "upload_calls s class mt body [BeginTransfer ?b]" using cls by simp
  show ?thesis
  proof (cases "beginTransfer up h ?b")
    case (Inl e)
    with one cls show ?thesis
      by (intro exI [of _ "[BeginTransfer ?b]"]) (simp add: Upload_def rpc_def)
  next
    case (Inr begun)
    let ?h1 = "h @ [BeginTransfer ?b]"
    let ?t = "btTransfer begun"
    show ?thesis
    proof (cases "getf arState (TransferState_other ''TRANSFER_STATE_UNSPECIFIED'') ?t = FINALIZED
        \<or> getf capUrl [] (btUpload begun) = []")
      case True
      with one cls Inr show ?thesis
        by (intro exI [of _ "[BeginTransfer ?b]"]) (auto simp: Upload_def rpc_def Let_def)
    next
      case go: False
      let ?p = "put up (the (btUpload begun)) body ?h1"
      have two: "upload_calls s class mt body [BeginTransfer ?b, HttpDo q]" if "q = put_request cap body" for q cap
        using that cls by auto
      show ?thesis
      proof (cases ?p)
        case (Pair r h2)
        show ?thesis
        proof (cases r)
          case (Inl e)
          with Pair put_history [of up "the (btUpload begun)" body ?h1]
          consider "h2 = ?h1" | q where "q = put_request (the (btUpload begun)) body" "h2 = ?h1 @ [HttpDo q]" by auto
          then show ?thesis
          proof cases
            case 1
            with Pair Inl go cls \<open>beginTransfer up h ?b = Inr begun\<close> one show ?thesis
              by (intro exI [of _ "[BeginTransfer ?b]"]) (auto simp: Upload_def rpc_def Let_def bind_act_def)
          next
            case 2
            with Pair Inl go cls \<open>beginTransfer up h ?b = Inr begun\<close> two [OF 2(1)] show ?thesis
              by (intro exI [of _ "[BeginTransfer ?b, HttpDo q]"]) (auto simp: Upload_def rpc_def Let_def bind_act_def)
          qed
        next
          case (Inr v)
          from Pair Inr have q: "v \<noteq> []" "h2 = ?h1 @ [HttpDo (put_request (the (btUpload begun)) body)]"
            by (auto simp: put_Inr)
          let ?q = "put_request (the (btUpload begun)) body"
          let ?f = "finalize_request s (getf arHandle [] ?t) v"
          have "upload_calls s class mt body [BeginTransfer ?b, HttpDo ?q, FinalizeTransfer ?f]"
            using q cls by auto
          moreover have "snd (Upload up pr s class mt body h)
              = h @ [BeginTransfer ?b, HttpDo ?q, FinalizeTransfer ?f]"
            using Pair Inr go cls \<open>beginTransfer up h ?b = Inr begun\<close> q
            by (auto simp: Upload_def rpc_def Let_def bind_act_def split: sum.splits)
          ultimately show ?thesis by blast
        qed
      qed
    qed
  qed
qed

text \<open>
  An upload that succeeds left the bytes in a finalized transfer: one Control had already
  finalized for the same command, or the one this upload began, put and finalized.
\<close>

lemma Upload_Inr:
  assumes "Upload up pr s class mt body h = (Inr t, h')"
  obtains cls begun b where "map_of classes class = Some cls" "b = begin_request s class cls mt body"
    "beginTransfer up h b = Inr begun" "trDigest t = DigestOf body" "trClass t = class"
    "trState t = ''finalized''" "trHandle t = getf arHandle [] (btTransfer begun)"
    "(getf arState (TransferState_other ''TRANSFER_STATE_UNSPECIFIED'') (btTransfer begun) = FINALIZED
        \<and> h' = h @ [BeginTransfer b]) \<or>
     (\<exists>cap v f ft. btUpload begun = Some cap \<and> capUrl cap \<noteq> []
        \<and> put up cap body (h @ [BeginTransfer b]) = (Inr v, h @ [BeginTransfer b, HttpDo (put_request cap body)])
        \<and> f = finalize_request s (trHandle t) v
        \<and> finalizeTransfer up (h @ [BeginTransfer b, HttpDo (put_request cap body)]) f = Inr (Some ft)
        \<and> arState ft = FINALIZED \<and> trObjectVersion t = arObjectVersion ft
        \<and> h' = h @ [BeginTransfer b, HttpDo (put_request cap body), FinalizeTransfer f])"
proof -
  from assms obtain cls where cls: "map_of classes class = Some cls"
    by (auto simp: Upload_def split: option.splits)
  let ?b = "begin_request s class cls mt body"
  from assms cls obtain begun where begun: "beginTransfer up h ?b = Inr begun"
    by (auto simp: Upload_def rpc_def split: sum.splits)
  let ?u = "TransferState_other ''TRANSFER_STATE_UNSPECIFIED''"
  have name: "transfer_state_name FINALIZED = ''finalized''" by code_simp
  show thesis
  proof (cases "getf arState ?u (btTransfer begun) = FINALIZED")
    case True
    with assms cls begun show thesis
      by (intro that [of cls ?b begun]) (auto simp: Upload_def rpc_def Let_def)
  next
    case False
    with assms cls begun have url: "getf capUrl [] (btUpload begun) \<noteq> []"
      by (auto simp: Upload_def rpc_def Let_def split: if_splits)
    then obtain cap where cap: "btUpload begun = Some cap" "capUrl cap \<noteq> []"
      by (cases "btUpload begun") auto
    let ?h1 = "h @ [BeginTransfer ?b]"
    from assms cls begun False url cap obtain v h2 where put: "put up cap body ?h1 = (Inr v, h2)"
      by (auto simp: Upload_def rpc_def Let_def bind_act_def split: prod.splits sum.splits)
    then have h2: "h2 = h @ [BeginTransfer ?b, HttpDo (put_request cap body)]" by (simp add: put_Inr)
    let ?f = "finalize_request s (getf arHandle [] (btTransfer begun)) v"
    from assms cls begun False url cap put obtain ft
      where ft: "finalizeTransfer up h2 ?f = Inr ft" "getf arState ?u ft = FINALIZED"
        "t = \<lparr>trHandle = getf arHandle [] (btTransfer begun), trTransferID = getf arTransferId [] (btTransfer begun),
               trClass = class, trDigest = DigestOf body, trSizeBytes = show_int (int (length body)),
               trObjectVersion = getf arObjectVersion [] ft, trState = ''finalized'', trExisting = btExisting begun\<rparr>"
        "h' = h2 @ [FinalizeTransfer ?f]"
      by (auto simp: Upload_def rpc_def Let_def bind_act_def name split: sum.splits if_splits)
    then obtain ft' where "ft = Some ft'" by (cases ft) auto
    with ft cls begun cap put h2 show thesis
      by (intro that [of cls ?b begun]) auto
  qed
qed

section \<open>The verified download\<close>

lemma fetch_Inr:
  assumes "fetch up handle t cap sz h = (Inr l, h')" "sz < 2 ^ 63"
  shows "int (length (ldBytes l)) = sz \<and> ldSizeBytes l = sz
    \<and> DigestOf (ldBytes l) = ldDigest l \<and> ldDigest l = getf arExpectedDigest [] t
    \<and> h' = h @ [HttpDo (load_request cap)]
    \<and> (\<exists>res. httpDo up h (load_request cap) = Some res \<and> hpStatus res = 200 \<and> ldBytes l = hpBody res)"
proof -
  have new: "newRequest up (capMethod cap) (capUrl cap) = None"
    using assms(1) by (cases "newRequest up (capMethod cap) (capUrl cap)") (simp_all add: fetch_def)
  obtain res where res1: "httpDo up h (load_request cap) = Some res"
    using assms(1) new by (cases "httpDo up h (load_request cap)") (simp_all add: fetch_def rpc_def)
  have st: "hpStatus res = 200"
    using assms(1) new res1 by (cases "hpStatus res = 200") (simp_all add: fetch_def rpc_def)
  obtain body where b: "read_limited (limit_after sz) res = Some body"
    using assms(1) new res1 st by (cases "read_limited (limit_after sz) res") (simp_all add: fetch_def rpc_def)
  have ok: "int (length body) = sz \<and> DigestOf body = getf arExpectedDigest [] t"
    using assms(1) new res1 st b
    by (cases "int (length body) = sz \<and> DigestOf body = getf arExpectedDigest [] t")
       (simp_all add: fetch_def rpc_def)
  have l: "ldBytes l = body \<and> ldSizeBytes l = sz \<and> ldDigest l = getf arExpectedDigest [] t
      \<and> h' = h @ [HttpDo (load_request cap)]"
    using assms(1) new res1 st b ok by (auto simp: fetch_def rpc_def)
  note res = res1 st b ok l
  have "body = hpBody res"
  proof (cases "sz = 2 ^ 63 - 1")
    case True
    with b ok show ?thesis by (auto simp: read_limited_def limit_after_def)
  next
    case False
    with b ok assms(2) have "body = take (nat (sz + 1)) (hpBody res)"
      by (auto simp: read_limited_def limit_after_def split: if_splits)
    moreover from this ok have "length body < nat (sz + 1)" by linarith
    ultimately show ?thesis by (metis length_take min_less_iff_conj nat_neq_iff take_all_iff not_le)
  qed
  with res show ?thesis by auto
qed

lemma parse_int64_bound: "parse_int64 s = Some n \<Longrightarrow> n < 2 ^ 63"
  by (auto simp: parse_int64_def Let_def split: list.splits option.splits if_splits prod.splits)

lemma declared_size_bounds: "declared_size t = Some sz \<Longrightarrow> 0 \<le> sz \<and> sz < 2 ^ 63"
  by (auto simp: declared_size_def dest: parse_int64_bound split: option.splits if_splits)

lemma Load_Inr:
  assumes "Load up pr s handle maxBytes h = (Inr l, h')"
  obtains q resp cap sz where
    "q = \<lparr>rrHandle = handle, rrOperationId = scOperationID s, rrInstanceId = scInstanceID s, rrTenantId = scTenantID s\<rparr>"
    "readArtifact up h q = Inr resp" "raDownload resp = Some cap" "capUrl cap \<noteq> []"
    "declared_size (raTransfer resp) = Some sz" "maxBytes > 0 \<longrightarrow> sz \<le> maxBytes"
    "fetch up handle (raTransfer resp) cap sz (h @ [ReadArtifact q]) = (Inr l, h')"
proof -
  let ?q = "\<lparr>rrHandle = handle, rrOperationId = scOperationID s, rrInstanceId = scInstanceID s, rrTenantId = scTenantID s\<rparr>"
  from assms obtain resp sz where r: "readArtifact up h ?q = Inr resp" "declared_size (raTransfer resp) = Some sz"
      "maxBytes > 0 \<longrightarrow> sz \<le> maxBytes" "getf capUrl [] (raDownload resp) \<noteq> []"
      "fetch up handle (raTransfer resp) (the (raDownload resp)) sz (h @ [ReadArtifact ?q]) = (Inr l, h')"
    by (auto simp: Load_def rpc_def Let_def split: sum.splits option.splits if_splits)
  then obtain cap where "raDownload resp = Some cap" by (cases "raDownload resp") auto
  with r show thesis by (intro that [of ?q resp cap sz]) auto
qed

lemma Load_verified:
  assumes "Load up pr s handle maxBytes h = (Inr l, h')"
  shows "int (length (ldBytes l)) = ldSizeBytes l \<and> DigestOf (ldBytes l) = ldDigest l
    \<and> (maxBytes > 0 \<longrightarrow> ldSizeBytes l \<le> maxBytes)"
  using assms by (elim Load_Inr) (auto dest!: fetch_Inr declared_size_bounds)

text \<open>The calls of a load: Control is asked first; at most one download follows.\<close>

fun load_calls :: "Scope \<Rightarrow> string \<Rightarrow> event list \<Rightarrow> bool" where
  "load_calls s handle (ReadArtifact q # rest) =
     (q = \<lparr>rrHandle = handle, rrOperationId = scOperationID s, rrInstanceId = scInstanceID s,
           rrTenantId = scTenantID s\<rparr>
      \<and> (rest = [] \<or> (\<exists>cap. rest = [HttpDo (load_request cap)])))"
| "load_calls s handle _ = False"

lemma fetch_history: "snd (fetch up handle t cap sz h) \<in> {h, h @ [HttpDo (load_request cap)]}"
  by (auto simp: fetch_def rpc_def split: option.splits)

lemma Load_calls:
  "\<exists>calls. snd (Load up pr s handle maxBytes h) = h @ calls \<and> load_calls s handle calls"
proof -
  let ?q = "\<lparr>rrHandle = handle, rrOperationId = scOperationID s, rrInstanceId = scInstanceID s, rrTenantId = scTenantID s\<rparr>"
  let ?h = "h @ [ReadArtifact ?q]"
  have "snd (Load up pr s handle maxBytes h) = ?h \<or>
      (\<exists>t cap sz. snd (Load up pr s handle maxBytes h) = snd (fetch up handle t cap sz ?h))"
    by (auto simp: Load_def rpc_def Let_def split: sum.splits option.splits)
  then have "snd (Load up pr s handle maxBytes h) = ?h \<or>
      (\<exists>cap. snd (Load up pr s handle maxBytes h) = ?h @ [HttpDo (load_request cap)])"
    by (elim disjE exE) (use fetch_history [of up handle _ _ _ ?h] in \<open>force+\<close>)
  then show ?thesis by auto
qed

section \<open>Submission\<close>

lemma Submit_eq:
  "Submit up pr s verdict fc manifest h =
     (case map_of verdicts verdict of
        None \<Rightarrow> (Inl (Wrapped ErrRefused (''INVALID_ARGUMENT unknown verdict '' @ Quote pr verdict)), h)
      | Some v \<Rightarrow>
          (case acceptResult up h (accept_request s verdict v fc manifest) of
             Inl e \<Rightarrow> Inl (refusal e)
           | Inr r \<Rightarrow> Inr \<lparr>stStageID = getf srStageId [] (acStage r),
                stResultDigest = getf srResultDigest [] (acStage r), stExisting = acExisting r\<rparr>,
           h @ [AcceptResult (accept_request s verdict v fc manifest)]))"
  by (auto simp: Submit_def rpc_def split: option.splits sum.splits)

lemma Submit_history:
  "Submit up pr sc v fc mf h = (r, h') \<Longrightarrow> h' = h \<or> (\<exists>x. h' = h @ [AcceptResult (accept_request sc v x fc mf)])"
  by (auto simp: Submit_eq split: option.splits)

end
