(* ===== verification/Dial.thy ===== *)
theory Dial
  imports Credentials Config Client
begin

text \<open>
  The constructors of the outbound clients: the transport credentials and \<open>Dial\<close>
  (internal/scope/scope.go), \<open>NewRelay\<close> (relay.go), \<open>NewMCPRelay\<close> (mcp.go) and
  \<open>NewKnowledgeRelay\<close> (knowledge.go).  The targets \<open>grpc.NewClient\<close> and the generated Proxy
  client refuse, and \<open>url.Parse\<close>, are the fields of \<open>host\<close>, with the mounted files and the
  kernel's part of start-up.
\<close>

record host =
  hoUID :: uid
  hoEUID :: uid
  hoPKI :: pki
  hoMount :: mount
  hoBindFails :: "string \<Rightarrow> bool"
  hoURLParse :: "string \<Rightarrow> parsed_url option"
  hoTargetError :: "string \<Rightarrow> string option"
  hoProxyError :: "string \<Rightarrow> string option"

record TLSFiles =
  tfCertFile :: string
  tfKeyFile :: string
  tfCAFile :: string
  tfServerName :: string
  tfReloader :: "conns Reloader option"

definition tls_files :: "TLSFiles \<Rightarrow> Files" where
  "tls_files f = \<lparr>fiCertFile = tfCertFile f, fiKeyFile = tfKeyFile f, fiCAFile = tfCAFile f\<rparr>"

text \<open>The shared reloader, or a new one over the files, which the files then share.\<close>

definition tls_reloader :: "host \<Rightarrow> TLSFiles \<Rightarrow> nat \<Rightarrow> (material_error + conns Reloader \<times> TLSFiles) \<times> nat" where
  "tls_reloader ho f t =
     (case tfReloader f of
        Some r \<Rightarrow> (Inr (r, f), t)
      | None \<Rightarrow>
          (case New (hoPKI ho) (hoMount ho) (tls_files f) 0 t of
             (Inl e, t') \<Rightarrow> (Inl e, t')
           | (Inr r, t') \<Rightarrow> (Inr (Start r, f\<lparr>tfReloader := Some (Start r)\<rparr>), t')))"

section \<open>gRPC clients\<close>

datatype transport_creds = Plaintext | WorkloadCreds clientCreds

datatype dial_error = DialIdentity material_error | DialServerName string | DialTarget string

definition transportCredentials ::
  "host \<Rightarrow> TLSFiles option \<Rightarrow> nat \<Rightarrow> (dial_error + transport_creds) \<times> nat" where
  "transportCredentials ho files t =
     (case files of
        None \<Rightarrow> (Inr Plaintext, t)
      | Some f \<Rightarrow>
          (case tls_reloader ho f t of
             (Inl e, t') \<Rightarrow> (Inl (DialIdentity e), t')
           | (Inr (r, f'), t') \<Rightarrow>
               (case NewClientCredentials (tfServerName f) of
                  Inl e \<Rightarrow> (Inl (DialServerName e), t')
                | Inr c \<Rightarrow> (Inr (WorkloadCreds c), t'))))"

text \<open>What the three gRPC constructors share: credentials, then a client of the target.\<close>

definition dial_target :: "host \<Rightarrow> string \<Rightarrow> TLSFiles option \<Rightarrow> nat \<Rightarrow> (dial_error + transport_creds) \<times> nat" where
  "dial_target ho address files t =
     (case transportCredentials ho files t of
        (Inl e, t') \<Rightarrow> (Inl e, t')
      | (Inr creds, t') \<Rightarrow>
          (case hoTargetError ho address of
             Some e \<Rightarrow> (Inl (DialTarget e), t')
           | None \<Rightarrow> (Inr creds, t')))"

record ControlClient =
  coAddress :: string
  coCreds :: transport_creds
  coTimeout :: duration
  coUploadTimeout :: duration
  coIdentity :: Identity

record Options =
  opAddress :: string
  opTimeout :: duration
  opTLS :: "TLSFiles option"
  opUpload :: "duration option"

definition Dial :: "host \<Rightarrow> Identity \<Rightarrow> Options \<Rightarrow> nat \<Rightarrow> (dial_error + ControlClient) \<times> nat" where
  "Dial ho ident o' t =
     (case dial_target ho (opAddress o') (opTLS o') t of
        (Inl e, t') \<Rightarrow> (Inl e, t')
      | (Inr creds, t') \<Rightarrow>
          (Inr \<lparr>coAddress = opAddress o', coCreds = creds, coTimeout = opTimeout o',
             coUploadTimeout = (case opUpload o' of None \<Rightarrow> 5 * minute | Some d \<Rightarrow> d),
             coIdentity = ident\<rparr>, t'))"

record GrpcRelay =
  gcAddress :: string
  gcCreds :: transport_creds
  gcTimeout :: duration

definition NewMCPRelay ::
  "host \<Rightarrow> string \<Rightarrow> TLSFiles option \<Rightarrow> duration \<Rightarrow> nat \<Rightarrow> (dial_error + GrpcRelay) \<times> nat" where
  "NewMCPRelay ho address files timeout t =
     (case dial_target ho address files t of
        (Inl e, t') \<Rightarrow> (Inl e, t')
      | (Inr creds, t') \<Rightarrow> (Inr \<lparr>gcAddress = address, gcCreds = creds, gcTimeout = timeout\<rparr>, t'))"

definition NewKnowledgeRelay ::
  "host \<Rightarrow> string \<Rightarrow> TLSFiles option \<Rightarrow> duration \<Rightarrow> nat \<Rightarrow> (dial_error + GrpcRelay) \<times> nat" where
  "NewKnowledgeRelay ho address files timeout t =
     (case dial_target ho address files t of
        (Inl e, t') \<Rightarrow> (Inl e, t')
      | (Inr creds, t') \<Rightarrow> (Inr \<lparr>gcAddress = address, gcCreds = creds, gcTimeout = timeout\<rparr>, t'))"

section \<open>The Model Proxy client\<close>

record RelayOptions =
  roURL :: string
  roToken :: string
  roTLS :: "TLSFiles option"
  roTimeout :: duration

record Relay =
  pxServer :: string
  pxAuthorization :: "string option"
  pxServerName :: "string option"
  pxDisableCompression :: bool
  pxFollowRedirects :: bool
  pxTimeout :: duration

datatype relay_error = URLRequired | OneIdentity | RelayIdentity material_error | URLNoHost | ProxyClient string

definition trim_right :: "char \<Rightarrow> string \<Rightarrow> string" where
  "trim_right c s = rev (dropWhile (\<lambda>x. x = c) (rev s))"

text \<open>The name the Proxy is verified under: the configured one, or the host of its URL.\<close>

definition proxy_server_name :: "host \<Rightarrow> string \<Rightarrow> string \<Rightarrow> relay_error + string" where
  "proxy_server_name ho name address =
     (if name \<noteq> [] then Inr name
      else (case hoURLParse ho address of
              None \<Rightarrow> Inl URLNoHost
            | Some u \<Rightarrow> if puHostname u = [] then Inl URLNoHost else Inr (puHostname u)))"

text \<open>The files come back with the transport's callback registered on their reloader.\<close>

definition proxy_transport ::
  "host \<Rightarrow> RelayOptions \<Rightarrow> nat \<Rightarrow> (relay_error + string option \<times> TLSFiles option) \<times> nat" where
  "proxy_transport ho o' t =
     (case roTLS o' of
        None \<Rightarrow> (Inr (None, None), t)
      | Some f \<Rightarrow>
          (case tls_reloader ho f t of
             (Inl e, t') \<Rightarrow> (Inl (RelayIdentity e), t')
           | (Inr (r, f'), t') \<Rightarrow>
               (case proxy_server_name ho (tfServerName f) (roURL o') of
                  Inl e \<Rightarrow> (Inl e, t')
                | Inr name \<Rightarrow> (Inr (Some name, Some (f'\<lparr>tfReloader := Some (HTTPTransport r)\<rparr>)), t'))))"

definition NewRelay ::
  "host \<Rightarrow> RelayOptions \<Rightarrow> nat \<Rightarrow> (relay_error + Relay \<times> TLSFiles option) \<times> nat" where
  "NewRelay ho o' t =
     (if roURL o' = [] then (Inl URLRequired, t)
      else if (roToken o' = []) = (roTLS o' = None) then (Inl OneIdentity, t)
      else (case proxy_transport ho o' t of
              (Inl e, t') \<Rightarrow> (Inl e, t')
            | (Inr (name, files), t') \<Rightarrow>
                let server = trim_right CHR ''/'' (roURL o') @ ''/api/v1'' in
                (case hoProxyError ho server of
                   Some e \<Rightarrow> (Inl (ProxyClient e), t')
                 | None \<Rightarrow>
                     (Inr (\<lparr>pxServer = server,
                        pxAuthorization = (if roToken o' \<noteq> [] then Some (''Bearer '' @ roToken o') else None),
                        pxServerName = name, pxDisableCompression = True, pxFollowRedirects = False,
                        pxTimeout = (if roTimeout o' \<le> 0 then 5 * minute else roTimeout o')\<rparr>, files), t'))))"

section \<open>Lemmas\<close>

lemma dial_target_Inr:
  "dial_target ho a files t = (Inr creds, t') \<Longrightarrow>
     hoTargetError ho a = None
     \<and> (case files of None \<Rightarrow> creds = Plaintext
        | Some f \<Rightarrow> tfServerName f \<noteq> [] \<and> creds = WorkloadCreds \<lparr>ckServerName = tfServerName f\<rparr>)"
  by (auto simp: dial_target_def transportCredentials_def NewClientCredentials_def
      split: option.splits sum.splits prod.splits if_splits)

lemma dial_target_shared:
  "tfReloader f = Some r \<Longrightarrow> tfServerName f \<noteq> [] \<Longrightarrow> hoTargetError ho a = None \<Longrightarrow>
     dial_target ho a (Some f) t = (Inr (WorkloadCreds \<lparr>ckServerName = tfServerName f\<rparr>), t)"
  by (simp add: dial_target_def transportCredentials_def tls_reloader_def NewClientCredentials_def)

lemma dial_target_plain:
  "hoTargetError ho a = None \<Longrightarrow> dial_target ho a None t = (Inr Plaintext, t)"
  by (simp add: dial_target_def transportCredentials_def)

lemma NewRelay_Inr:
  "NewRelay ho o' t = (Inr (rl, files), t') \<Longrightarrow>
     roURL o' \<noteq> [] \<and> \<not> pxFollowRedirects rl \<and> 0 < pxTimeout rl
     \<and> (case roTLS o' of
          None \<Rightarrow> pxAuthorization rl = Some (''Bearer '' @ roToken o') \<and> pxServerName rl = None \<and> files = None
        | Some f \<Rightarrow> roToken o' = [] \<and> pxAuthorization rl = None \<and> pxServerName rl \<noteq> None)"
  by (auto simp: NewRelay_def proxy_transport_def Let_def split: if_splits option.splits sum.splits prod.splits)

end
