(* ===== verification/Relays.thy ===== *)
theory Relays
  imports Client
begin

text \<open>
  internal/scope/relay.go, mcp.go and knowledge.go: the strict readers of the three relay
  requests, the binding of a request to the confirmed scope (deadline, execution binding,
  digests), the relays' one remote call each, and the copy loop of the model relay's event
  stream.  The contract packages' own decoders, the text of a decoder's or a time parser's
  error, the printability table and the form of a redirect are the fields of \<open>externals\<close>.
\<close>

record externals =
  dec_message :: "json decoder"
  zero_message :: json
  dec_tool :: "json decoder"
  zero_tool :: json
  dec_money :: "Money decoder"
  marshal_binding :: "ExecutionBinding \<Rightarrow> bytes"
  json_error :: "string \<Rightarrow> bytes \<Rightarrow> string"
  time_error :: "string \<Rightarrow> string"
  printable :: "nat \<Rightarrow> bool"
  redirect_status :: int
  redirect_target :: "string \<Rightarrow> string"
  redirect_body :: "string \<Rightarrow> bytes"

section \<open>The deadline of a bound request\<close>

text \<open>The attempt's deadline, unless the caller asks for an earlier one.\<close>

definition bound_deadline :: "externals \<Rightarrow> time \<Rightarrow> string \<Rightarrow> string + time" where
  "bound_deadline ext deadline requested =
     (if requested = [] then Inr deadline
      else (case parse_rfc3339 requested of
              None \<Rightarrow> Inl (''deadline: '' @ time_error ext requested)
            | Some (t, _) \<Rightarrow> Inr (if t < deadline then t else deadline)))"

section \<open>The model relay\<close>

record RelayRequest =
  rqCallID :: string
  rqRouteID :: string
  rqMessages :: "json slice"
  rqTools :: "json slice"
  rqMaxOutputTokens :: int
  rqMaxExposure :: Money
  rqDeadline :: string

definition zeroRelayRequest :: RelayRequest where
  "zeroRelayRequest =
     \<lparr>rqCallID = [], rqRouteID = [], rqMessages = ([], 0), rqTools = ([], 0), rqMaxOutputTokens = 0,
      rqMaxExposure = \<lparr>moCurrency = [], moAmount = []\<rparr>, rqDeadline = []\<rparr>"

definition relayFields :: "externals \<Rightarrow> (string \<times> RelayRequest decoder) list" where
  "relayFields ext =
     [(''callId'', on_field rqCallID rqCallID_update dec_string),
      (''routeId'', on_field rqRouteID rqRouteID_update dec_string),
      (''messages'', on_field rqMessages rqMessages_update (dec_slice (zero_message ext) (dec_message ext))),
      (''tools'', on_field rqTools rqTools_update (dec_slice (zero_tool ext) (dec_tool ext))),
      (''maxOutputTokens'', on_field rqMaxOutputTokens rqMaxOutputTokens_update dec_int64),
      (''maxExposure'', on_field rqMaxExposure rqMaxExposure_update (dec_money ext)),
      (''deadline'', on_field rqDeadline rqDeadline_update dec_string)]"

text \<open>The strict reader the three request types share; its last argument is the required fields.\<close>

definition parse_request ::
  "externals \<Rightarrow> string \<Rightarrow> (string \<times> 's decoder) list \<Rightarrow> 's \<Rightarrow> ('s \<Rightarrow> bool) \<Rightarrow> string \<Rightarrow> bytes \<Rightarrow> string + 's" where
  "parse_request ext target table zero missing required raw =
     (case decode_strict table zero raw of
        None \<Rightarrow> Inl (json_error ext target raw)
      | Some (r, rest) \<Rightarrow>
          if dec_more rest then Inl ''trailing data''
          else if missing r then Inl required
          else Inr r)"

definition ParseRelayRequest :: "externals \<Rightarrow> bytes \<Rightarrow> string + RelayRequest" where
  "ParseRelayRequest ext raw =
     parse_request ext ''RelayRequest'' (relayFields ext) zeroRelayRequest
       (\<lambda>r. rqCallID r = [] \<or> rqRouteID r = [] \<or> length (elems (rqMessages r)) = 0
          \<or> rqMaxOutputTokens r < 1 \<or> moCurrency (rqMaxExposure r) = [] \<or> moAmount (rqMaxExposure r) = [])
       ''callId, routeId, messages, maxOutputTokens and maxExposure are required'' raw"

definition execution_binding :: "Scope \<Rightarrow> ExecutionBinding" where
  "execution_binding s =
     \<lparr>ebTenantId = scTenantID s, ebOperationId = scOperationID s, ebAttemptId = scAttemptID s,
      ebExecutionEpoch = scExecutionEpoch s,
      ebInstanceId = (if scInstanceID s \<noteq> [] then Some (scInstanceID s) else None)\<rparr>"

definition Bind :: "externals \<Rightarrow> Scope \<Rightarrow> RelayRequest \<Rightarrow> bytes \<Rightarrow> string + ModelCallRequest" where
  "Bind ext s r raw =
     bind_res (bound_deadline ext (scDeadline s) (rqDeadline r)) (\<lambda>deadline.
       let binding = execution_binding s; tools = elems (rqTools r) in
       Inr \<lparr>mcCallId = rqCallID r, mcBinding = binding, mcRouteId = rqRouteID r,
          mcRequestDigest = DigestOf (marshal_binding ext binding @ [CHR 0x0A] @ raw),
          mcMessages = elems (rqMessages r),
          mcTools = (if length tools > 0 then Some tools else None),
          mcMaxOutputTokens = rqMaxOutputTokens r, mcMaxExposure = rqMaxExposure r,
          mcDeadline = format_ms (truncate_ms deadline)\<rparr>)"

section \<open>The response writer\<close>

datatype wr = Written bytes | Flushed

record writer =
  wHeader :: header
  wSent :: "(int \<times> header) option"
  wOut :: "wr list"
  wDeadline :: "time option"

definition new_writer :: writer where
  "new_writer = \<lparr>wHeader = [], wSent = None, wOut = [], wDeadline = None\<rparr>"

definition set_header :: "string \<Rightarrow> string \<Rightarrow> writer \<Rightarrow> writer" where
  "set_header k v w = w\<lparr>wHeader := header_set k v (wHeader w)\<rparr>"

text \<open>The first call fixes the status and the headers of the answer.\<close>

definition write_header :: "int \<Rightarrow> writer \<Rightarrow> writer" where
  "write_header st w =
     (if wSent w = None then w\<lparr>wSent := Some (st, wHeader w)\<rparr> else w)"

definition write_bytes :: "bytes \<Rightarrow> writer \<Rightarrow> writer" where
  "write_bytes b w = (write_header 200 w)\<lparr>wOut := wOut w @ [Written b]\<rparr>"

definition flush :: "writer \<Rightarrow> writer" where
  "flush w = (write_header 200 w)\<lparr>wOut := wOut w @ [Flushed]\<rparr>"

fun written :: "wr list \<Rightarrow> bytes" where
  "written [] = []"
| "written (Written b # ws) = b @ written ws"
| "written (Flushed # ws) = written ws"

section \<open>Forwarding the event stream\<close>

definition slice_size :: nat where "slice_size = 65536"

text \<open>
  \<open>ReadSlice('\n')\<close> on a reader with 64 KiB of buffer, over the bytes still to come: a line
  with its newline, a full buffer without one, or what is left when the stream ends.  The
  result is the slice, the bytes after it and whether the stream ended.
\<close>

definition read_slice :: "bytes \<Rightarrow> bytes \<times> bytes \<times> bool" where
  "read_slice s =
     (let p = takeWhile (\<lambda>c. c \<noteq> CHR 0x0A) s; n = length p in
      if n < length s \<and> n < slice_size then (take (n + 1) s, drop (n + 1) s, False)
      else if length s < slice_size then (s, [], True)
      else (take slice_size s, drop slice_size s, False))"

lemma read_slice_shorter:
  "read_slice s = (line, rest, False) \<Longrightarrow> length rest < length s"
  by (auto simp: read_slice_def Let_def slice_size_def split: if_splits)

text \<open>
  The copy loop.  \<open>accepts\<close> tells whether the connection still takes a write: when it does
  not, the caller went away and the loop returns.
\<close>

function copy_stream :: "(writer \<Rightarrow> bytes \<Rightarrow> bool) \<Rightarrow> bytes \<Rightarrow> writer \<Rightarrow> writer" where
  "copy_stream accepts s w =
     (case read_slice s of (line, rest, eof) \<Rightarrow>
        if line \<noteq> [] \<and> \<not> accepts w line then w
        else
          let w1 = (if line = [] then w
                    else if length line = 1 then flush (write_bytes line w) else write_bytes line w)
          in if eof then flush w1 else copy_stream accepts rest w1)"
  by pat_completeness auto
termination
  by (relation "measure (\<lambda>(a, s, w). length s)") (auto dest: read_slice_shorter [OF sym])

declare copy_stream.simps [simp del]

definition thirty_seconds :: duration where "thirty_seconds = 30 * second"

definition Forward ::
  "upstream \<Rightarrow> (writer \<Rightarrow> bytes \<Rightarrow> bool) \<Rightarrow> writer \<Rightarrow> ModelCallRequest \<Rightarrow> time \<Rightarrow> hist
     \<Rightarrow> (err option \<times> writer) \<times> hist" where
  "Forward up accepts w req deadline h =
     (case rpc (createModelCall up) CreateModelCall req h of
        (Inl e, h') \<Rightarrow> ((Some (Wrapped ErrUnavailable (''model proxy: '' @ e)), w), h')
      | (Inr resp, h') \<Rightarrow>
          let w1 = set_header ''Connection'' ''close''
                     (set_header ''Content-Type'' (header_get (hpHeaders resp) ''Content-Type'') w)
          in if hpStatus resp \<noteq> 200
             then ((None, write_bytes (take slice_size (hpBody resp)) (write_header (hpStatus resp) w1)), h')
             else
               let w2 = (write_header 200 w1)\<lparr>wDeadline := Some (deadline + thirty_seconds)\<rparr>
               in ((None, copy_stream accepts (hpBody resp) (flush w2)), h'))"

section \<open>The MCP relay\<close>

record CallRequest =
  caCommandID :: string
  caGrantID :: string
  caGrantRevision :: string
  caMethod :: string
  caArguments :: bytes
  caDeadline :: string

definition zeroCallRequest :: CallRequest where
  "zeroCallRequest =
     \<lparr>caCommandID = [], caGrantID = [], caGrantRevision = [], caMethod = [], caArguments = [],
      caDeadline = []\<rparr>"

definition callFields :: "(string \<times> CallRequest decoder) list" where
  "callFields =
     [(''commandId'', on_field caCommandID caCommandID_update dec_string),
      (''grantId'', on_field caGrantID caGrantID_update dec_string),
      (''grantRevision'', on_field caGrantRevision caGrantRevision_update dec_string),
      (''method'', on_field caMethod caMethod_update dec_string),
      (''arguments'', on_field caArguments caArguments_update dec_raw),
      (''deadline'', on_field caDeadline caDeadline_update dec_string)]"

definition ParseCallRequest :: "externals \<Rightarrow> bytes \<Rightarrow> string + CallRequest" where
  "ParseCallRequest ext raw =
     parse_request ext ''CallRequest'' callFields zeroCallRequest
       (\<lambda>r. caCommandID r = [] \<or> length (caCommandID r) > 64 \<or> caGrantID r = []
          \<or> caGrantRevision r = [] \<or> caMethod r = [] \<or> length (caArguments r) = 0)
       ''commandId (at most 64 characters), grantId, grantRevision, method and arguments are required'' raw"

definition no_actor :: string where "no_actor = ''the operation names no actor''"

text \<open>The bound scope as the request digest covers it: a map of seven fields.\<close>

definition bound_scope :: "Scope \<Rightarrow> bytes" where
  "bound_scope s =
     marshal_map
       [(''tenantId'', scTenantID s), (''projectId'', scProjectID s), (''actorId'', scActorID s),
        (''operationId'', scOperationID s), (''attemptId'', scAttemptID s),
        (''instanceId'', scInstanceID s), (''executionEpoch'', scExecutionEpoch s)]"

definition subject :: "Scope \<Rightarrow> SubjectScope" where
  "subject s = \<lparr>ssTenantId = scTenantID s, ssProjectId = scProjectID s, ssActorId = scActorID s\<rparr>"

definition BindCall :: "externals \<Rightarrow> Scope \<Rightarrow> CallRequest \<Rightarrow> bytes \<Rightarrow> string + CreateCallRequest" where
  "BindCall ext s r raw =
     bind_res (bound_deadline ext (scDeadline s) (caDeadline r)) (\<lambda>deadline.
       if scActorID s = [] then Inl no_actor
       else Inr
         \<lparr>ccCommand = \<lparr>ciTenantId = scTenantID s,
             ciCommandId = ''sidecar:'' @ scInstanceID s @ '':'' @ caCommandID r,
             ciActorId = scActorID s,
             ciRequestDigest = DigestOf (bound_scope s @ [CHR 0x0A] @ raw)\<rparr>,
          ccScope = subject s, ccGrantId = caGrantID r, ccGrantRevision = caGrantRevision r,
          ccMethod = caMethod r, ccArgumentRef = ''inline'', ccArgumentDigest = DigestOf (caArguments r),
          ccArguments = caArguments r, ccOperationId = scOperationID s, ccAttemptId = scAttemptID s,
          ccInstanceId = scInstanceID s, ccExecutionEpoch = scExecutionEpoch s,
          ccDeadline = truncate_ms deadline\<rparr>)"

definition Call :: "upstream \<Rightarrow> CreateCallRequest \<Rightarrow> hist \<Rightarrow> (rpc_error + CreateCallResponse) \<times> hist" where
  "Call up req h = rpc (createCall up) CreateCall req h"

section \<open>The Knowledge relay\<close>

record SearchRequest =
  seSnapshotID :: string
  seQuery :: string
  seMaxContextItems :: nat
  seRetrievalProfileID :: string
  seDeadline :: string

definition zeroSearchRequest :: SearchRequest where
  "zeroSearchRequest =
     \<lparr>seSnapshotID = [], seQuery = [], seMaxContextItems = 0, seRetrievalProfileID = [], seDeadline = []\<rparr>"

definition searchFields :: "(string \<times> SearchRequest decoder) list" where
  "searchFields =
     [(''snapshotId'', on_field seSnapshotID seSnapshotID_update dec_string),
      (''query'', on_field seQuery seQuery_update dec_string),
      (''maxContextItems'', on_field seMaxContextItems seMaxContextItems_update dec_uint32),
      (''retrievalProfileId'', on_field seRetrievalProfileID seRetrievalProfileID_update dec_string),
      (''deadline'', on_field seDeadline seDeadline_update dec_string)]"

definition ParseSearchRequest :: "externals \<Rightarrow> bytes \<Rightarrow> string + SearchRequest" where
  "ParseSearchRequest ext raw =
     parse_request ext ''SearchRequest'' searchFields zeroSearchRequest
       (\<lambda>r. seSnapshotID r = [] \<or> seQuery r = [] \<or> seRetrievalProfileID r = []
          \<or> seMaxContextItems r < 1 \<or> seMaxContextItems r > 64)
       ''snapshotId, query, retrievalProfileId and maxContextItems (1..64) are required'' raw"

definition BindSearch :: "externals \<Rightarrow> Scope \<Rightarrow> SearchRequest \<Rightarrow> string + KSearchRequest" where
  "BindSearch ext s r =
     (if scActorID s = [] then Inl no_actor
      else bind_res (bound_deadline ext (scDeadline s) (seDeadline r)) (\<lambda>deadline.
        Inr \<lparr>kqScope = subject s, kqSnapshotId = seSnapshotID r, kqQuery = seQuery r,
           kqMaxContextItems = seMaxContextItems r, kqRetrievalProfileId = seRetrievalProfileID r,
           kqDeadline = truncate_ms deadline\<rparr>))"

definition Search :: "upstream \<Rightarrow> KSearchRequest \<Rightarrow> hist \<Rightarrow> (rpc_error + KSearchResponse) \<times> hist" where
  "Search up req h = rpc (knowledgeSearchRpc up) KnowledgeSearch req h"

text \<open>An object of string members determines its values, given its keys.\<close>

definition string_members :: "(string \<times> string) list \<Rightarrow> (string \<times> string) list" where
  "string_members = map (\<lambda>(k, v). (k, json_string v))"

lemma string_members_inj:
  assumes "join_with '','' (map json_member (string_members ms)) @ ''}'' @ x
      = join_with '','' (map json_member (string_members ns)) @ ''}'' @ y"
    and "map fst ms = map fst ns" "\<forall>(k, v) \<in> set ms. valid_utf8 v" "\<forall>(k, v) \<in> set ns. valid_utf8 v"
  shows "ms = ns \<and> x = y"
  using assms
proof (induction ms arbitrary: ns)
  case Nil
  then show ?case by (simp add: string_members_def)
next
  case (Cons m ms)
  obtain k v where m: "m = (k, v)" by (cases m)
  with "Cons.prems"(2) obtain u ns' where ns: "ns = (k, u) # ns'" "map fst ms = map fst ns'"
    by (cases ns) auto
  have val: "valid_utf8 v" "valid_utf8 u" using "Cons.prems"(3,4) m ns by auto
  show ?case
  proof (cases ms)
    case Nil
    with ns have "ns' = []" by simp
    with "Cons.prems"(1) m ns Nil have "json_string v @ ''}'' @ x = json_string u @ ''}'' @ y"
      by (simp add: string_members_def json_member_def)
    from json_string_prefix_inj [OF this val] show ?thesis using m ns Nil \<open>ns' = []\<close> by simp
  next
    case (Cons m2 ms2)
    with ns obtain n2 ns2 where n2: "ns' = n2 # ns2" by (cases ns') auto
    let ?j = "\<lambda>ms. join_with '','' (map json_member (string_members ms))"
    have "?j (m # ms) = json_string k @ '':'' @ json_string v @ '','' @ ?j ms"
      using Cons m by (simp add: string_members_def json_member_def)
    moreover have "?j ns = json_string k @ '':'' @ json_string u @ '','' @ ?j ns'"
      using n2 ns by (simp add: string_members_def json_member_def)
    ultimately have "json_string v @ '','' @ ?j ms @ ''}'' @ x = json_string u @ '','' @ ?j ns' @ ''}'' @ y"
      using "Cons.prems"(1) by simp
    from json_string_prefix_inj [OF this val] have "v = u" and rest: "?j ms @ ''}'' @ x = ?j ns' @ ''}'' @ y"
      by simp_all
    have "ms = ns' \<and> x = y"
      by (rule "Cons.IH" [OF rest ns(2)]) (use "Cons.prems"(3,4) ns in auto)
    with \<open>v = u\<close> m ns show ?thesis by simp
  qed
qed

section \<open>Deadlines and digests of bound requests\<close>

lemma bound_deadline_le: "bound_deadline ext d r = Inr t \<Longrightarrow> t \<le> d"
  by (auto simp: bound_deadline_def split: if_splits option.splits)

lemma truncate_ms_le: "truncate_ms t \<le> t"
  by (simp add: truncate_ms_def)

lemma parse_request_Inr [result_simps]:
  "parse_request ext target table z missing required raw = Inr r \<longleftrightarrow>
     (\<exists>rest. decode_strict table z raw = Some (r, rest) \<and> \<not> dec_more rest \<and> \<not> missing r)"
  by (auto simp: parse_request_def split: option.splits)

text \<open>
  The request digest of a tool call covers the bound scope and the caller's bytes: what is
  hashed determines both.
\<close>

definition call_preimage :: "Scope \<Rightarrow> bytes \<Rightarrow> bytes" where
  "call_preimage s raw = bound_scope s @ [CHR 0x0A] @ raw"

definition scope_members :: "Scope \<Rightarrow> (string \<times> string) list" where
  "scope_members s =
     [(''actorId'', scActorID s), (''attemptId'', scAttemptID s), (''executionEpoch'', scExecutionEpoch s),
      (''instanceId'', scInstanceID s), (''operationId'', scOperationID s), (''projectId'', scProjectID s),
      (''tenantId'', scTenantID s)]"

lemma bound_scope_text: "bound_scope s = json_object (string_members (scope_members s))"
  by (simp add: bound_scope_def marshal_map_def scope_members_def string_members_def
      less_eq_char_def list_le_def list_less_def)

lemma call_preimage_inj:
  assumes "call_preimage s raw = call_preimage s' raw'"
    and "\<forall>(k, v) \<in> set (scope_members s). valid_utf8 v" "\<forall>(k, v) \<in> set (scope_members s'). valid_utf8 v"
  shows "scope_members s = scope_members s' \<and> raw = raw'"
proof -
  have keys: "map fst (scope_members s) = map fst (scope_members s')" by (simp add: scope_members_def)
  have "join_with '','' (map json_member (string_members (scope_members s))) @ ''}'' @ [CHR 0x0A] @ raw
      = join_with '','' (map json_member (string_members (scope_members s'))) @ ''}'' @ [CHR 0x0A] @ raw'"
    using assms(1) by (simp add: call_preimage_def bound_scope_text json_object_def)
  from string_members_inj [OF this keys assms(2,3)] show ?thesis by simp
qed

section \<open>The copied stream\<close>

lemma wOut_writes [simp]:
  "wOut (write_bytes b w) = wOut w @ [Written b]" "wOut (flush w) = wOut w @ [Flushed]"
  by (simp_all add: write_bytes_def flush_def write_header_def)

lemma written_append [simp]: "written (a @ b) = written a @ written b"
  by (induction a rule: written.induct) simp_all

lemma read_slice_text: "read_slice s = (line, rest, eof) \<Longrightarrow> s = line @ rest \<and> (eof \<longrightarrow> rest = [])"
  by (auto simp: read_slice_def Let_def split: if_splits)

text \<open>A newline inside a slice is its last byte, and a slice at the end of the stream has none.\<close>

lemma read_slice_newline:
  assumes "read_slice s = (line, rest, eof)" "i < length line" "line ! i = CHR 0x0A"
  shows "i = length line - 1 \<and> \<not> eof"
proof -
  let ?n = "length (takeWhile (\<lambda>c. c \<noteq> CHR 0x0A) s)"
  from read_slice_text [OF assms(1)] have s: "s = line @ rest" by simp
  then have "s ! i = CHR 0x0A" using assms by (simp add: nth_append)
  then have n: "?n \<le> i"
    by (metis (mono_tags, lifting) nth_mem set_takeWhileD takeWhile_nth linorder_not_less)
  with assms(2) s have len: "?n < length s" by auto
  show ?thesis
  proof (cases "?n < slice_size")
    case True
    with len assms(1) have "line = take (?n + 1) s" "\<not> eof" by (auto simp: read_slice_def Let_def)
    with assms(2) n len show ?thesis by auto
  next
    case False
    with n have i: "slice_size \<le> i" by simp
    from False len assms(1) have "line = take slice_size s"
      by (auto simp: read_slice_def Let_def split: if_splits)
    with assms(2) i show ?thesis by simp
  qed
qed

text \<open>What the loop writes is a prefix of the stream, whatever the connection does.\<close>

lemma copy_stream_prefix:
  "\<exists>out t. wOut (copy_stream acc s w) = wOut w @ out \<and> s = written out @ t"
proof (induction acc s w rule: copy_stream.induct)
  case (1 acc s w)
  obtain line rest eof where r: "read_slice s = (line, rest, eof)" by (cases "read_slice s") auto
  from read_slice_text [OF r] have s: "s = line @ rest" by simp
  let ?w1 = "if line = [] then w
             else if length line = 1 then flush (write_bytes line w) else write_bytes line w"
  have w1: "wOut ?w1 = wOut w @ (if line = [] then [] else if length line = 1 then [Written line, Flushed] else [Written line])"
    by simp
  consider "line \<noteq> []" "\<not> acc w line" | "line = [] \<or> acc w line" "eof" | "line = [] \<or> acc w line" "\<not> eof" by blast
  then show ?case
  proof cases
    case 1
    then show ?thesis by (simp add: copy_stream.simps [of acc s w] r)
  next
    case 2
    then have "wOut (copy_stream acc s w) = wOut ?w1 @ [Flushed]"
      by (auto simp add: copy_stream.simps [of acc s w] r Let_def)
    then show ?thesis unfolding w1 using s by (auto split: if_splits)
  next
    case 3
    then have c: "copy_stream acc s w = copy_stream acc rest ?w1"
      by (auto simp add: copy_stream.simps [of acc s w] r Let_def)
    from "1" [OF r [symmetric] refl _ refl] 3 obtain out t
      where "wOut (copy_stream acc rest ?w1) = wOut ?w1 @ out" "rest = written out @ t" by auto
    with c s w1 show ?thesis by (auto split: if_splits)
  qed
qed

text \<open>
  On a connection that takes every write the whole stream is written, the last act is a
  flush, and at each blank line (a newline at the start of the stream or after another) the
  output is flushed before anything more is written.
\<close>

lemma copy_stream_frames:
  assumes "\<forall>w b. acc w b"
  shows "\<exists>out. wOut (copy_stream acc s w) = wOut w @ out \<and> written out = s \<and> out \<noteq> [] \<and> last out = Flushed
    \<and> (\<forall>a b. s = a @ CHR 0x0A # b \<and> (a = [] \<or> last a = CHR 0x0A) \<longrightarrow>
         (\<exists>o1 o2. out = o1 @ Flushed # o2 \<and> written o1 = a @ [CHR 0x0A]))"
  using assms
proof (induction acc s w rule: copy_stream.induct)
  case (1 acc s w)
  obtain line rest eof where r: "read_slice s = (line, rest, eof)" by (cases "read_slice s") auto
  from read_slice_text [OF r] have s: "s = line @ rest" and e: "eof \<Longrightarrow> rest = []" by auto
  let ?w1 = "if line = [] then w
             else if length line = 1 then flush (write_bytes line w) else write_bytes line w"
  let ?o1 = "if line = [] then [] else if length line = 1 then [Written line, Flushed] else [Written line]"
  have w1: "wOut ?w1 = wOut w @ ?o1" and o1: "written ?o1 = line" by simp_all
  have acc: "acc w line" using "1.prems" by simp
  show ?case
  proof (cases eof)
    case True
    then have c: "wOut (copy_stream acc s w) = wOut w @ ?o1 @ [Flushed]"
      using acc w1 by (auto simp add: copy_stream.simps [of acc s w] r Let_def)
    have "CHR 0x0A \<notin> set s"
      using read_slice_newline [OF r] True s e by (auto simp: in_set_conv_nth)
    then have "\<not> (\<exists>a b. s = a @ CHR 0x0A # b)" by auto
    with c o1 s e True show ?thesis by (intro exI [of _ "?o1 @ [Flushed]"]) auto
  next
    case False
    then have c: "copy_stream acc s w = copy_stream acc rest ?w1"
      using acc by (auto simp add: copy_stream.simps [of acc s w] r Let_def)
    from "1.IH" [OF r [symmetric] refl _ refl False "1.prems"] acc obtain out
      where out: "wOut (copy_stream acc rest ?w1) = wOut ?w1 @ out" "written out = rest" "out \<noteq> []" "last out = Flushed"
        and fl: "\<And>a b. rest = a @ CHR 0x0A # b \<Longrightarrow> a = [] \<or> last a = CHR 0x0A \<Longrightarrow>
          \<exists>o1 o2. out = o1 @ Flushed # o2 \<and> written o1 = a @ [CHR 0x0A]" by auto
    have flushed: "\<exists>p q. ?o1 @ out = p @ Flushed # q \<and> written p = a @ [CHR 0x0A]"
      if ab: "s = a @ CHR 0x0A # b" "a = [] \<or> last a = CHR 0x0A" for a b
    proof (cases "length a < length line")
      case True
      have "line ! length a = CHR 0x0A" using True ab(1) s by (metis nth_append nth_append_length)
      from read_slice_newline [OF r True this] have len: "length line = Suc (length a)" using True by simp
      then have line: "line = a @ [CHR 0x0A]" using ab(1) s True
        by (metis append_eq_append_conv append_Cons append_Nil append_assoc length_append_singleton)
      have "a = []"
      proof (rule ccontr)
        assume "a \<noteq> []"
        with ab(2) line have "line ! (length a - 1) = CHR 0x0A" by (simp add: nth_append last_conv_nth)
        moreover have "length a - 1 < length line" using line by simp
        ultimately have "length a - 1 = length line - 1" using read_slice_newline [OF r] by blast
        with line \<open>a \<noteq> []\<close> show False by (cases a) auto
      qed
      with line show ?thesis by (intro exI [of _ "[Written line]"] exI [of _ out]) simp
    next
      case False
      then obtain a' where a': "a = line @ a'" using ab(1) s
        by (metis append_eq_append_conv_if append_take_drop_id linorder_not_less)
      then have "rest = a' @ CHR 0x0A # b" using ab(1) s by simp
      moreover have "a' = [] \<or> last a' = CHR 0x0A" using ab(2) a' by (cases "a' = []") auto
      ultimately obtain p q where "out = p @ Flushed # q" "written p = a' @ [CHR 0x0A]" using fl by blast
      then have "?o1 @ out = (?o1 @ p) @ Flushed # q" "written (?o1 @ p) = a @ [CHR 0x0A]"
        using a' by (simp_all only: written_append o1 append_assoc)
      then show ?thesis by blast
    qed
    have "wOut (copy_stream acc s w) = wOut w @ ?o1 @ out" using c out w1 by simp
    moreover have "written (?o1 @ out) = s" using o1 out s by (simp only: written_append)
    ultimately show ?thesis using out flushed by (intro exI [of _ "?o1 @ out"]) auto
  qed
qed

end
