(* ===== verification/Answers.thy ===== *)
theory Answers
  imports Relays
begin

text \<open>
  internal/server/server.go, the answers: \<open>writeJSON\<close> and \<open>fail\<close>, the JSON of every type
  they carry (the field tags, \<open>omitempty\<close>, \<open>time.Time\<close> and \<open>json.RawMessage\<close> as
  encoding/json writes them), the tables from a scope error, an action error and a gRPC
  code to a status.
\<close>

section \<open>Encoding\<close>

datatype jv =
    JvString bytes
  | JvBool bool
  | JvInt int
  | JvList "jv list"
  | JvObject "(string \<times> jv) list"
  | JvRaw bytes
  | JvTime time

text \<open>Compaction of a raw message: white space goes, and the HTML characters are escaped.\<close>

fun compact :: "bool \<Rightarrow> bytes \<Rightarrow> bytes" where
  "compact in_string [] = []"
| "compact in_string (c # r) =
     (if c = CHR ''<'' \<or> c = CHR ''>'' \<or> c = CHR 0x26
      then [backslash, CHR ''u'', CHR ''0'', CHR ''0'', hex_digit (byte c div 16), hex_digit (byte c mod 16)]
           @ compact in_string r
      else if c = CHR 0xE2 \<and> take 1 r = [CHR 0x80] \<and> (take 1 (drop 1 r) = [CHR 0xA8] \<or> take 1 (drop 1 r) = [CHR 0xA9])
      then backslash # ''u202'' @ [hex_digit (byte (r ! 1) mod 16)] @ compact in_string (drop 2 r)
      else if in_string then
        (if c = backslash then
           (case r of [] \<Rightarrow> [c] | e # r' \<Rightarrow> c # e # compact True r')
         else c # compact (c \<noteq> quote_char) r)
      else if is_ws c then compact False r
      else c # compact (c = quote_char) r)"

definition trim_zeros :: "string \<Rightarrow> string" where
  "trim_zeros s = rev (dropWhile (\<lambda>c. c = CHR ''0'') (rev s))"

text \<open>\<open>MarshalJSON\<close> of a UTC instant: RFC 3339 with nanoseconds, an error outside years 0 to 9999.\<close>

definition format_nano :: "time \<Rightarrow> string" where
  "format_nano t =
     (let secs = t div second; ns = t mod second;
          (y, m, d) = date_of_days (secs div 86400); s = secs mod 86400
      in pad 4 (nat y) @ ''-'' @ pad 2 (Suc m) @ ''-'' @ pad 2 (nat d) @ ''T''
         @ pad 2 (nat (s div 3600)) @ '':'' @ pad 2 (nat (s div 60 mod 60)) @ '':''
         @ pad 2 (nat (s mod 60)) @ (if ns = 0 then [] else ''.'' @ trim_zeros (pad 9 (nat ns))) @ ''Z'')"

definition sequence :: "'a option list \<Rightarrow> 'a list option" where
  "sequence xs = (if None \<in> set xs then None else Some (map the xs))"

primrec encode_json :: "jv \<Rightarrow> bytes option" where
  "encode_json (JvString s) = Some (json_string s)"
| "encode_json (JvBool b) = Some (if b then ''true'' else ''false'')"
| "encode_json (JvInt i) = Some (show_int i)"
| "encode_json (JvList vs) =
     map_option (\<lambda>ts. ''['' @ join_with '','' ts @ '']'') (sequence (map encode_json vs))"
| "encode_json (JvObject ms) =
     (let es = map (\<lambda>m. (fst m, snd m)) (map (map_prod (\<lambda>k. k) encode_json) ms) in
      map_option (\<lambda>ts. json_object (zip (map fst es) ts)) (sequence (map snd es)))"
| "encode_json (JvRaw b) = Some (compact False b)"
| "encode_json (JvTime t) = (if in_years t then Some (json_string (format_nano t)) else None)"

text \<open>A member with \<open>omitempty\<close>: it is left out when its text is empty.\<close>

definition optional_member :: "string \<Rightarrow> string \<Rightarrow> (string \<times> jv) list" where
  "optional_member k s = (if s = [] then [] else [(k, JvString s)])"

definition failure_jv :: "string \<Rightarrow> string \<Rightarrow> jv" where
  "failure_jv code reason =
     JvObject ((''code'', JvString code) # optional_member ''reason'' reason)"

definition scope_jv :: "Scope \<Rightarrow> jv" where
  "scope_jv s = JvObject
     ([(''tenantId'', JvString (scTenantID s)), (''operationId'', JvString (scOperationID s)),
       (''attemptId'', JvString (scAttemptID s)), (''instanceId'', JvString (scInstanceID s)),
       (''current'', JvBool (scCurrent s)), (''profileId'', JvString (scProfileID s)),
       (''executionEpoch'', JvString (scExecutionEpoch s)), (''recoveryEpoch'', JvString (scRecoveryEpoch s)),
       (''launchKey'', JvString (scLaunchKey s)), (''deadline'', JvTime (scDeadline s)),
       (''projectId'', JvString (scProjectID s)), (''actorId'', JvString (scActorID s))]
      @ (case scBudgetHeadroom s of None \<Rightarrow> []
         | Some h \<Rightarrow> [(''budgetHeadroom'', JvObject
             [(''currency'', JvString (hrCurrency h)), (''amount'', JvString (hrAmount h))])]))"

definition transfer_jv :: "Transfer \<Rightarrow> jv" where
  "transfer_jv t = JvObject
     [(''handle'', JvString (trHandle t)), (''transferId'', JvString (trTransferID t)),
      (''class'', JvString (trClass t)), (''digest'', JvString (trDigest t)),
      (''sizeBytes'', JvString (trSizeBytes t)), (''objectVersion'', JvString (trObjectVersion t)),
      (''state'', JvString (trState t)), (''existing'', JvBool (trExisting t))]"

definition stage_jv :: "Stage \<Rightarrow> jv" where
  "stage_jv s = JvObject
     [(''stageId'', JvString (stStageID s)), (''resultDigest'', JvString (stResultDigest s)),
      (''existing'', JvBool (stExisting s))]"

definition artifact_jv :: "AcceptedArtifact \<Rightarrow> jv" where
  "artifact_jv a = JvObject
     [(''handle'', JvString (aaHandle a)), (''class'', JvString (aaClass a)),
      (''digest'', JvString (aaDigest a)), (''sizeBytes'', JvString (aaSizeBytes a)),
      (''transferId'', JvString (aaTransferID a)), (''objectVersion'', JvString (aaObjectVersion a))]"

definition accepted_jv :: "AcceptedStage \<Rightarrow> jv" where
  "accepted_jv s = JvObject
     ([(''stageId'', JvString (asStageID s)), (''attemptId'', JvString (asAttemptID s)),
       (''instanceId'', JvString (asInstanceID s)), (''verdict'', JvString (asVerdict s))]
      @ optional_member ''failureCode'' (asFailureCode s)
      @ [(''resultDigest'', JvString (asResultDigest s)),
         (''observerIdentity'', JvString (asObserverIdentity s)), (''profileId'', JvString (asProfileID s)),
         (''executionEpoch'', JvString (asExecutionEpoch s)), (''recoveryEpoch'', JvString (asRecoveryEpoch s)),
         (''artifacts'', JvList (map artifact_jv (asArtifacts s)))])"

definition progress_jv :: "ProgressRecord \<Rightarrow> jv" where
  "progress_jv p = JvObject
     [(''eventSeq'', JvString (pgEventSeq p)), (''transitionId'', JvString (pgTransitionID p)),
      (''existing'', JvBool (pgExisting p))]"

definition json_valid :: "bytes \<Rightarrow> bool" where
  "json_valid b = (case parse_json b of None \<Rightarrow> False | Some (_, rest) \<Rightarrow> skip_ws rest = [])"

text \<open>The answer of a tool call; a result that is not valid JSON is left out.\<close>

definition toolCall_jv :: "CreateCallResponse \<Rightarrow> jv" where
  "toolCall_jv resp =
     (let c = crCall resp; result = getf tcResult [] c in
      JvObject
        ([(''callId'', JvString (getf tcCallId [] c)),
          (''state'', JvString (enum_name (getf tcState ''CALL_STATE_UNSPECIFIED'' c) ''CALL_STATE_'')),
          (''existing'', JvBool (crExisting resp))]
         @ optional_member ''failureCode'' (getf tcFailureCode [] c)
         @ (if length result > 0 \<and> json_valid result then [(''result'', JvRaw result)] else [])
         @ optional_member ''resultDigest'' (getf tcResultDigest [] c)))"

definition item_jv :: "KItem \<Rightarrow> jv" where
  "item_jv it =
     (let c = kiCitation it in
      JvObject
        [(''citation'', JvObject
            [(''ordinal'', JvString (getf ctOrdinal [] c)), (''sourceId'', JvString (getf ctSourceId [] c)),
             (''sourceRevision'', JvString (getf ctSourceRevision [] c)),
             (''chunkId'', JvString (getf ctChunkId [] c)), (''locator'', JvString (getf ctLocator [] c)),
             (''contentDigest'', JvString (getf ctContentDigest [] c)), (''score'', JvString (getf ctScore [] c))]),
         (''text'', JvString (kiText it))])"

definition search_jv :: "KSearchResponse \<Rightarrow> jv" where
  "search_jv r = JvObject
     [(''items'', JvList (map item_jv (krItems r))), (''noAnswer'', JvBool (krNoAnswer r)),
      (''indexGeneration'', JvString (krIndexGeneration r)),
      (''authorizationRevision'', JvString (krAuthorizationRevision r))]"

section \<open>Writing an answer\<close>

text \<open>The encoder writes nothing when a value cannot be encoded.\<close>

definition writeJSON :: "int \<Rightarrow> jv \<Rightarrow> writer \<Rightarrow> writer" where
  "writeJSON status v w =
     (let w1 = write_header status
                 (set_header ''Connection'' ''close'' (set_header ''Content-Type'' ''application/json'' w))
      in case encode_json v of None \<Rightarrow> w1 | Some b \<Rightarrow> write_bytes (b @ [CHR 0x0A]) w1)"

definition fail :: "int \<Rightarrow> string \<Rightarrow> string \<Rightarrow> writer \<Rightarrow> writer" where
  "fail status code reason w = writeJSON status (failure_jv code reason) w"

text \<open>The answer for a scope that is not usable, and whether the caller may proceed.\<close>

definition answerScopeError :: "err option \<Rightarrow> writer \<Rightarrow> writer \<times> bool" where
  "answerScopeError e w =
     (case e of
        None \<Rightarrow> (w, True)
      | Some e \<Rightarrow>
          (if errors_is e ErrUnregistered
           then fail 503 ''SCOPE_UNAVAILABLE'' ''the launcher has not registered this instance''
                  (set_header ''Retry-After'' ''2'' w)
           else if errors_is e ErrNoAuthority
           then fail 403 ''NO_AUTHORITY'' ''this instance is not the current physical owner of the attempt'' w
           else if errors_is e ErrDeadline
           then fail 403 ''DEADLINE_EXCEEDED'' ''the attempt deadline passed'' w
           else if errors_is e ErrStale
           then fail 403 ''STALE_EXECUTION''
                  ''the execution scope ended: the attempt is no longer executing or the operation is fenced'' w
           else if errors_is e ErrRefused then fail 403 (Code e) [] w
           else fail 503 ''DEPENDENCY_UNAVAILABLE'' ''control unavailable''
                  (set_header ''Retry-After'' ''2'' w), False))"

definition answerActionError :: "err \<Rightarrow> writer \<Rightarrow> writer" where
  "answerActionError e w =
     (if errors_is e ErrRefused
      then let code = Code e; status = (if code = ''INVALID_ARGUMENT'' then 400 else 409) in fail status code [] w
      else fail 503 ''DEPENDENCY_UNAVAILABLE'' [] w)"

definition mcpStatus :: "(grpc_code \<times> int) list" where
  "mcpStatus =
     [(InvalidArgument, 400), (NotFound, 404), (PermissionDenied, 403), (AlreadyExists, 409),
      (FailedPrecondition, 409), (Unavailable, 503), (DeadlineExceeded, 504)]"

text \<open>The answer of both relays for an error of the remote call.\<close>

definition answerRelayError :: "string \<Rightarrow> rpc_error \<Rightarrow> writer \<Rightarrow> writer" where
  "answerRelayError unreachable e w =
     (case status_convert e of
        (code, message) \<Rightarrow>
          (case map_of mcpStatus code of
             None \<Rightarrow> fail 503 ''DEPENDENCY_UNAVAILABLE'' unreachable w
           | Some st \<Rightarrow> fail st (code_string code) message w))"

section \<open>Lemmas\<close>

lemma encode_failure: "encode_json (failure_jv code reason) =
    Some (json_object ((''code'', json_string code) # (if reason = [] then [] else [(''reason'', json_string reason)])))"
  by (simp add: failure_jv_def optional_member_def sequence_def)

text \<open>The status and the headers of an answer once it is fixed.\<close>

lemma write_bytes_sent [simp]: "wSent w = Some x \<Longrightarrow> wSent (write_bytes b w) = Some x"
  by (simp add: write_bytes_def write_header_def)

lemma write_header_sent: "wSent w = None \<Longrightarrow> wSent (write_header st w) = Some (st, wHeader w)"
  by (simp add: write_header_def)

lemma set_header_sent [simp]: "wSent (set_header k v w) = wSent w" "wOut (set_header k v w) = wOut w"
  "wHeader (set_header k v w) = header_set k v (wHeader w)"
  by (simp_all add: set_header_def)

definition status_of :: "writer \<Rightarrow> int option" where "status_of w = map_option fst (wSent w)"
definition sent_headers :: "writer \<Rightarrow> header" where
  "sent_headers w = (case wSent w of None \<Rightarrow> [] | Some (_, h) \<Rightarrow> h)"
definition body_of :: "writer \<Rightarrow> bytes" where "body_of w = written (wOut w)"

lemma writeJSON_sent:
  "wSent w = None \<Longrightarrow> wSent (writeJSON st v w) =
     Some (st, header_set ''Connection'' ''close'' (header_set ''Content-Type'' ''application/json'' (wHeader w)))"
  by (auto simp: writeJSON_def Let_def write_header_sent split: option.split)

lemma writeJSON_status [simp]: "wSent w = None \<Longrightarrow> status_of (writeJSON st v w) = Some st"
  by (simp add: status_of_def writeJSON_sent)

lemma fail_status [simp]: "wSent w = None \<Longrightarrow> status_of (fail st c r w) = Some st"
  by (simp add: fail_def)

lemma fail_body [simp]:
  "wSent w = None \<Longrightarrow> wOut w = [] \<Longrightarrow> body_of (fail st c r w) =
     json_object ((''code'', json_string c) # (if r = [] then [] else [(''reason'', json_string r)])) @ [CHR 0x0A]"
  by (simp add: fail_def writeJSON_def Let_def encode_failure body_of_def write_header_def)

lemma answerScopeError_None [simp]: "answerScopeError None w = (w, True)"
  by (simp add: answerScopeError_def)

lemma answerScopeError_proceeds: "snd (answerScopeError e w) \<longleftrightarrow> e = None"
  by (auto simp: answerScopeError_def split: option.splits)

end
