(* ===== verification/Inputs.thy ===== *)
theory Inputs
  imports Envelope Client
begin

text \<open>
  internal/server/server.go, the input store: what the launch envelope declares, and the
  bytes staged under a declared name after their digest was verified.  The store's
  operations run under its lock, so any interleaving of requests is a sequence of them;
  \<open>store_reachable\<close> is the states such sequences reach.
\<close>

record Inputs =
  ipDeclared :: "(string \<times> string) list"
  ipHandles :: "(string \<times> string) list"
  ipBytes :: "(string \<times> bytes) list"

text \<open>A map write: the entry is replaced where it stands, or added.\<close>

fun map_put :: "'k \<Rightarrow> 'v \<Rightarrow> ('k \<times> 'v) list \<Rightarrow> ('k \<times> 'v) list" where
  "map_put k v [] = [(k, v)]"
| "map_put k v ((j, u) # m) = (if j = k then (k, v) # m else (j, u) # map_put k v m)"

definition emptyInputs :: Inputs where
  "emptyInputs = \<lparr>ipDeclared = [], ipHandles = [], ipBytes = []\<rparr>"

definition declare_input :: "Input \<Rightarrow> Inputs \<Rightarrow> Inputs" where
  "declare_input i st =
     (let st1 = st\<lparr>ipDeclared := map_put (inName i) (inDigest i) (ipDeclared st)\<rparr> in
      if inHandle i \<noteq> [] then st1\<lparr>ipHandles := map_put (inName i) (inHandle i) (ipHandles st1)\<rparr> else st1)"

definition NewInputs :: "Envelope \<Rightarrow> Inputs" where
  "NewInputs env = fold declare_input (elems (eInputs env)) emptyInputs"

definition Handle :: "Inputs \<Rightarrow> string \<Rightarrow> string option" where
  "Handle st name = map_of (ipHandles st) name"

text \<open>The loop over the map has no fixed order; here it is the order of declaration.\<close>

definition Names :: "Inputs \<Rightarrow> string list" where
  "Names st = map fst (ipDeclared st)"

datatype stage_error = NotDeclared string | DigestMismatch string string string

definition stage_error_text :: "(nat \<Rightarrow> bool) \<Rightarrow> stage_error \<Rightarrow> string" where
  "stage_error_text pr e =
     (case e of
        NotDeclared name \<Rightarrow> ''input '' @ Quote pr name @ '' is not declared by the launch envelope''
      | DigestMismatch name got want \<Rightarrow>
          ''input '' @ Quote pr name @ '' bytes hash to '' @ got @ '', the envelope declares '' @ want)"

definition Stage_input :: "Inputs \<Rightarrow> string \<Rightarrow> bytes \<Rightarrow> (stage_error + unit) \<times> Inputs" where
  "Stage_input st name b =
     (case map_of (ipDeclared st) name of
        None \<Rightarrow> (Inl (NotDeclared name), st)
      | Some want \<Rightarrow>
          if DigestOf b \<noteq> want then (Inl (DigestMismatch name (DigestOf b) want), st)
          else (Inr (), st\<lparr>ipBytes := map_put name b (ipBytes st)\<rparr>))"

definition Get :: "Inputs \<Rightarrow> string \<Rightarrow> bytes option" where
  "Get st name = map_of (ipBytes st) name"

section \<open>Lemmas\<close>

lemma map_of_map_put [simp]: "map_of (map_put k v m) = (map_of m)(k \<mapsto> v)"
  by (induction k v m rule: map_put.induct) auto

lemma declared_declare [simp]: "ipDeclared (declare_input i st) = map_put (inName i) (inDigest i) (ipDeclared st)"
  by (simp add: declare_input_def Let_def)

lemma bytes_declare [simp]: "ipBytes (declare_input i st) = ipBytes st"
  by (simp add: declare_input_def Let_def)

lemma handles_declare:
  "map_of (ipHandles (declare_input i st)) =
     (if inHandle i \<noteq> [] then (map_of (ipHandles st))(inName i \<mapsto> inHandle i) else map_of (ipHandles st))"
  by (simp add: declare_input_def Let_def)

lemma fold_declare:
  "map_of (ipDeclared (fold declare_input is st)) = map_of (ipDeclared st) ++ map_of (rev (map (\<lambda>i. (inName i, inDigest i)) is))"
  "ipBytes (fold declare_input is st) = ipBytes st"
  "map_of (ipHandles (fold declare_input is st)) = map_of (ipHandles st)
     ++ map_of (rev (map (\<lambda>i. (inName i, inHandle i)) (filter (\<lambda>i. inHandle i \<noteq> []) is)))"
  by (induction "is" arbitrary: st) (auto simp: handles_declare map_add_def fun_eq_iff split: option.splits)

lemma map_of_rev_distinct: "distinct (map fst m) \<Longrightarrow> map_of (rev m) = map_of m"
  by (rule map_of_eqI) (auto simp: map_of_eq_Some_iff distinct_map)

text \<open>With distinct names, as the envelope reader guarantees, the store declares exactly the envelope's inputs.\<close>

lemma NewInputs_declared:
  assumes "distinct (map inName (elems (eInputs env)))"
  shows "map_of (ipDeclared (NewInputs env)) n = Some d \<longleftrightarrow>
    (\<exists>i \<in> set (elems (eInputs env)). inName i = n \<and> inDigest i = d)"
proof -
  let ?m = "map (\<lambda>i. (inName i, inDigest i)) (elems (eInputs env))"
  have d: "distinct (map fst ?m)" using assms by (simp add: comp_def)
  then have "map_of (ipDeclared (NewInputs env)) = map_of ?m"
    by (simp add: NewInputs_def fold_declare emptyInputs_def map_of_rev_distinct)
  then show ?thesis using d by (auto simp: map_of_eq_Some_iff)
qed

lemma NewInputs_bytes [simp]: "ipBytes (NewInputs env) = []"
  by (simp add: NewInputs_def fold_declare emptyInputs_def)

lemma Stage_input_Inr [result_simps]:
  "Stage_input st n b = (Inr u, st') \<longleftrightarrow>
     map_of (ipDeclared st) n = Some (DigestOf b) \<and> st' = st\<lparr>ipBytes := map_put n b (ipBytes st)\<rparr>"
  by (auto simp: Stage_input_def split: option.splits)

lemma Stage_input_Inl: "Stage_input st n b = (Inl e, st') \<Longrightarrow> st' = st"
  by (auto simp: Stage_input_def split: option.splits if_splits)

lemma Stage_input_declared [frame_simps]: "ipDeclared (snd (Stage_input st n b)) = ipDeclared st"
  by (auto simp: Stage_input_def split: option.splits)

section \<open>The store's contract\<close>

text \<open>
  An input store, as the routes rely on it: a put either changes nothing or makes exactly one
  name readable with exactly the bytes put, and only bytes the name's guard accepts.
\<close>

locale verified_store =
  fixes put_in :: "'s \<Rightarrow> string \<Rightarrow> bytes \<Rightarrow> ('e + unit) \<times> 's"
    and get_from :: "'s \<Rightarrow> string \<Rightarrow> bytes option"
    and accepts :: "'s \<Rightarrow> string \<Rightarrow> bytes \<Rightarrow> bool"
  assumes put_refused: "put_in st n b = (Inl e, st') \<Longrightarrow> st' = st"
    and put_taken: "put_in st n b = (Inr u, st') \<Longrightarrow> accepts st n b \<and> get_from st' = (get_from st)(n \<mapsto> b)"
    and put_frame: "put_in st n b = (r, st') \<Longrightarrow> accepts st' = accepts st"
begin

inductive reachable :: "'s \<Rightarrow> 's \<Rightarrow> bool" for init where
  start: "reachable init init"
| step: "reachable init st \<Longrightarrow> put_in st n b = (r, st') \<Longrightarrow> reachable init st'"

definition verified :: "'s \<Rightarrow> bool" where
  "verified st = (\<forall>n b. get_from st n = Some b \<longrightarrow> accepts st n b)"

lemma verified_put: "verified st \<Longrightarrow> put_in st n b = (r, st') \<Longrightarrow> verified st'"
proof (cases r)
  case (Inr u)
  assume v: "verified st" and p: "put_in st n b = (r, st')"
  from p Inr have "accepts st n b" "get_from st' = (get_from st)(n \<mapsto> b)" using put_taken by auto
  with v put_frame [OF p] show ?thesis by (auto simp: verified_def split: if_splits)
qed (auto dest: put_refused)

lemma reachable_accepts: "reachable init st \<Longrightarrow> accepts st = accepts init"
  by (induction rule: reachable.induct) (auto dest: put_frame)

lemma reachable_verified:
  assumes "reachable init st" and "\<And>n. get_from init n = None"
  shows "verified st"
  using assms by (induction rule: reachable.induct) (auto simp: verified_def intro: verified_put [unfolded verified_def, rule_format])

text \<open>What a reachable store serves under a name, the initial store's guard accepts.\<close>

lemma reachable_get:
  assumes "reachable init st" and "\<And>n. get_from init n = None" and "get_from st n = Some b"
  shows "accepts init n b"
  using reachable_verified [OF assms(1,2)] assms(3) reachable_accepts [OF assms(1)]
  by (simp add: verified_def)

end

definition declared_digest :: "Inputs \<Rightarrow> string \<Rightarrow> bytes \<Rightarrow> bool" where
  "declared_digest st n b = (map_of (ipDeclared st) n = Some (DigestOf b))"

interpretation inputs: verified_store Stage_input Get declared_digest
proof
  fix st n b r st'
  assume "Stage_input st n b = (r, st')"
  then have "ipDeclared st' = ipDeclared st" using Stage_input_declared [of st n b] by simp
  then show "declared_digest st' = declared_digest st" by (simp add: declared_digest_def fun_eq_iff)
qed (auto simp: result_simps declared_digest_def Get_def fun_eq_iff dest: Stage_input_Inl)

end
