(* ===== verification/Mux.thy ===== *)
theory Mux
  imports GoText
begin

text \<open>
  What the servers use of net/http's \<open>ServeMux\<close>: patterns of an optional method and a
  path of literal segments, single wildcards and a trailing slash, matched segment by
  segment on the escaped path (a literal before a wildcard before a trailing slash, a
  pattern of the method before one of any method, GET also for HEAD), and the two
  redirects: to the cleaned path and to the path with its trailing slash.
\<close>

datatype segment = Lit string | Wild | Rest

text \<open>A pattern: its method (\<open>None\<close> is any), its segments and the handler it names.\<close>

type_synonym 'h pattern = "string option \<times> segment list \<times> 'h"

section \<open>Paths\<close>

function path_unescape_step :: "string \<Rightarrow> string option" where
  "path_unescape_step s =
     (case s of
        [] \<Rightarrow> Some []
      | c # r \<Rightarrow>
          if c = CHR 0x25 then
            (case r of
               a # b # t \<Rightarrow>
                 (case (hex_value a, hex_value b) of
                    (Some h, Some l) \<Rightarrow> map_option (Cons (char_of (16 * h + l))) (path_unescape_step t)
                  | _ \<Rightarrow> None)
             | _ \<Rightarrow> None)
          else map_option (Cons c) (path_unescape_step r))"
  by pat_completeness auto
termination
  by (relation "measure length") auto

declare path_unescape_step.simps [simp del]

text \<open>A segment that is not a valid escape stands for itself.\<close>

definition path_unescape :: "string \<Rightarrow> string" where
  "path_unescape s = (case path_unescape_step s of None \<Rightarrow> s | Some t \<Rightarrow> t)"

text \<open>
  The segments of a path that begins with a slash; a slash at its end is a segment of its own.
\<close>

definition segments :: "string \<Rightarrow> string list" where
  "segments p =
     (case p of
        [] \<Rightarrow> []
      | _ # r \<Rightarrow>
          let ss = split_on (CHR ''/'') r in
          map path_unescape (butlast ss) @ [if last ss = [] then ''/'' else path_unescape (last ss)])"

text \<open>\<open>path.Clean\<close> of a rooted path: empty and dot segments go, a double dot takes the last one.\<close>

fun clean_step :: "string list \<Rightarrow> string \<Rightarrow> string list" where
  "clean_step out s =
     (if s = [] \<or> s = ''.'' then out
      else if s = ''..'' then butlast out
      else out @ [s])"

definition path_clean :: "string \<Rightarrow> string" where
  "path_clean p = ''/'' @ join_with ''/'' (foldl clean_step [] (split_on (CHR ''/'') p))"

definition cleanPath :: "string \<Rightarrow> string" where
  "cleanPath p =
     (if p = [] then ''/''
      else
        let q = (if hd p = CHR ''/'' then p else CHR ''/'' # p); np = path_clean q in
        if last q = CHR ''/'' \<and> np \<noteq> ''/'' then
          (if length q = length np + 1 \<and> has_prefix q np then q else np @ ''/'')
        else np)"

section \<open>Matching\<close>

definition tails :: "segment \<Rightarrow> (segment list \<times> 'h) list \<Rightarrow> (segment list \<times> 'h) list" where
  "tails s ps = map (\<lambda>(p, h). (tl p, h)) (filter (\<lambda>(p, h). p \<noteq> [] \<and> hd p = s) ps)"

text \<open>The handler whose pattern matches the segments best, with the wildcards' values.\<close>

fun match_path :: "(segment list \<times> 'h) list \<Rightarrow> string list \<Rightarrow> string list \<Rightarrow> ('h \<times> string list) option" where
  "match_path ps [] vals =
     (case find (\<lambda>(p, h). p = []) ps of None \<Rightarrow> None | Some (_, h) \<Rightarrow> Some (h, vals))"
| "match_path ps (s # ss) vals =
     (case (if tails (Lit s) ps = [] then None else match_path (tails (Lit s) ps) ss vals) of
        Some r \<Rightarrow> Some r
      | None \<Rightarrow>
          (case (if s = ''/'' \<or> tails Wild ps = [] then None
                 else match_path (tails Wild ps) ss (vals @ [s])) of
             Some r \<Rightarrow> Some r
           | None \<Rightarrow> map_option (\<lambda>(_, h). (h, vals)) (find (\<lambda>(p, h). p = [Rest]) ps)))"

definition of_method :: "string option \<Rightarrow> 'h pattern list \<Rightarrow> (segment list \<times> 'h) list" where
  "of_method m pats = map snd (filter (\<lambda>p. fst p = m) pats)"

definition match_route :: "'h pattern list \<Rightarrow> string \<Rightarrow> string \<Rightarrow> ('h \<times> string list) option" where
  "match_route pats method path =
     (case match_path (of_method (Some method) pats) (segments path) [] of
        Some r \<Rightarrow> Some r
      | None \<Rightarrow>
          (case (if method = ''HEAD'' then match_path (of_method (Some ''GET'') pats) (segments path) [] else None) of
             Some r \<Rightarrow> Some r
           | None \<Rightarrow> match_path (of_method None pats) (segments path) []))"

text \<open>
  Whether the pattern of a handler matches the path without a longer rest: it has no
  trailing slash, or it is as long as the path.
\<close>

definition exact_match :: "'h pattern list \<Rightarrow> 'h \<Rightarrow> string \<Rightarrow> bool" where
  "exact_match pats h path =
     (case find (\<lambda>(_, _, g). g = h) pats of
        None \<Rightarrow> False
      | Some (_, segs, _) \<Rightarrow>
          if segs = [] \<or> last segs \<noteq> Rest then True
          else path \<noteq> [] \<and> last path = CHR ''/'' \<and> length segs = length (filter (\<lambda>c. c = CHR ''/'') path))"

datatype 'h routed = Found 'h "string list" | Redirect string | NoRoute

definition match_or_redirect :: "'h pattern list \<Rightarrow> string \<Rightarrow> string \<Rightarrow> 'h routed" where
  "match_or_redirect pats method path =
     (let m = match_route pats method path;
          exact = (case m of None \<Rightarrow> False | Some (h, _) \<Rightarrow> exact_match pats h path);
          slashed = path @ ''/''
      in if \<not> exact \<and> \<not> has_suffix path ''/'' \<and>
            (case match_route pats method slashed of None \<Rightarrow> False | Some (h, _) \<Rightarrow> exact_match pats h slashed)
         then Redirect slashed
         else (case m of None \<Rightarrow> NoRoute | Some (h, vals) \<Rightarrow> Found h vals))"

text \<open>The handler of a request by its method and escaped path.\<close>

definition find_handler :: "'h pattern list \<Rightarrow> string \<Rightarrow> string \<Rightarrow> 'h routed" where
  "find_handler pats method escaped =
     (if method = ''CONNECT'' then match_or_redirect pats method escaped
      else
        let path = cleanPath escaped in
        case match_or_redirect pats method path of
          Redirect p \<Rightarrow> Redirect p
        | r \<Rightarrow> if path \<noteq> escaped then Redirect path else r)"

section \<open>Lemmas\<close>

text \<open>A handler found is the handler of a pattern of the request's method, or of any method.\<close>

lemma match_path_in: "match_path ps ss vals = Some (h, vs) \<Longrightarrow> h \<in> snd ` set ps"
proof (induction ps ss vals arbitrary: vs rule: match_path.induct)
  case (1 ps vals)
  then obtain p where "find (\<lambda>(p, h). p = []) ps = Some (p, h)" by (auto split: option.splits)
  then have "(p, h) \<in> set ps" by (auto simp: find_Some_iff) (metis nth_mem)
  then show ?case by force
next
  case (2 ps s ss vals)
  have sub: "snd ` set (tails x ps) \<subseteq> snd ` set ps" for x by (force simp: tails_def)
  consider "match_path (tails (Lit s) ps) ss vals = Some (h, vs)" "tails (Lit s) ps \<noteq> []"
    | "match_path (tails Wild ps) ss (vals @ [s]) = Some (h, vs)" "\<not> (s = ''/'' \<or> tails Wild ps = [])"
      "(if tails (Lit s) ps = [] then None else match_path (tails (Lit s) ps) ss vals) = None"
    | p where "find (\<lambda>(p, h). p = [Rest]) ps = Some (p, h)"
    using "2.prems" by (auto split: option.splits if_splits)
  then show ?case
  proof cases
    case 1
    then have "h \<in> snd ` set (tails (Lit s) ps)" using "2.IH"(1) by blast
    with sub show ?thesis by blast
  next
    case 2
    from "2.IH"(2) [OF 2(3) 2(2) 2(1)] have "h \<in> snd ` set (tails Wild ps)" .
    with sub show ?thesis by blast
  next
    case 3
    then have "(p, h) \<in> set ps" by (auto simp: find_Some_iff) (metis nth_mem)
    then show ?thesis by force
  qed
qed

lemma match_route_in:
  "match_route pats method path = Some (h, vs) \<Longrightarrow>
     \<exists>m segs. (m, segs, h) \<in> set pats \<and> (m = None \<or> m = Some method \<or> method = ''HEAD'' \<and> m = Some ''GET'')"
proof -
  assume "match_route pats method path = Some (h, vs)"
  then obtain m where "match_path (of_method m pats) (segments path) [] = Some (h, vs)"
      "m = None \<or> m = Some method \<or> method = ''HEAD'' \<and> m = Some ''GET''"
    by (auto simp: match_route_def split: option.splits if_splits)
  moreover from match_path_in [OF this(1)] have "h \<in> snd ` set (of_method m pats)" .
  ultimately show ?thesis unfolding of_method_def by fastforce
qed

lemma find_handler_in:
  "find_handler pats method escaped = Found h vs \<Longrightarrow>
     \<exists>m segs. (m, segs, h) \<in> set pats \<and> (m = None \<or> m = Some method \<or> method = ''HEAD'' \<and> m = Some ''GET'')"
proof -
  assume "find_handler pats method escaped = Found h vs"
  then obtain path where "match_or_redirect pats method path = Found h vs"
    by (auto simp: find_handler_def Let_def split: if_splits routed.splits)
  then have "match_route pats method path = Some (h, vs)"
    by (auto simp: match_or_redirect_def Let_def split: if_splits option.splits)
  then show ?thesis by (rule match_route_in)
qed

end
