(* ===== verification/Server.thy ===== *)
theory Server
  imports Answers Inputs Mux Sockets Peer
begin

text \<open>
  internal/server/server.go: the peer guard, the two route tables and every handler, over
  the interface \<open>scope_source\<close> the code calls \<open>ScopeSource\<close> and the three optional relays.
  A handler takes the request, the values of the path's wildcards, the response writer and
  the state (the input store and the world behind the interfaces) and returns the writer
  and the state.
\<close>

section \<open>Requests and the server\<close>

text \<open>
  The body is what the client sends, \<open>hrTorn\<close> whether reading it ends with an error after
  those bytes; \<open>hrPeer\<close> is the peer bound to the connection, when it is one of this
  process's listeners.
\<close>

record request =
  hrMethod :: string
  hrRequestURI :: string
  hrEscapedPath :: string
  hrHeader :: header
  hrBody :: bytes
  hrTorn :: bool
  hrPeer :: "Peer option"

record Limits =
  lmMaxInputBytes :: int
  lmMaxTransferBytes :: int
  lmMaxManifestBytes :: int
  lmRequestTimeout :: duration

record 's scope_source =
  srcConfirm :: "Purpose \<Rightarrow> 's \<Rightarrow> (err + Scope) \<times> 's"
  srcUpload :: "Scope \<Rightarrow> string \<Rightarrow> string \<Rightarrow> bytes \<Rightarrow> 's \<Rightarrow> (err + Transfer) \<times> 's"
  srcSubmit :: "Scope \<Rightarrow> string \<Rightarrow> string \<Rightarrow> string \<Rightarrow> bytes \<Rightarrow> 's \<Rightarrow> (err + Stage) \<times> 's"
  srcProgress :: "Scope \<Rightarrow> string \<Rightarrow> string \<Rightarrow> string \<Rightarrow> string \<Rightarrow> 's \<Rightarrow> (err + ProgressRecord) \<times> 's"
  srcAcceptedStage :: "Scope \<Rightarrow> 's \<Rightarrow> (err + AcceptedStage option) \<times> 's"
  srcPriorStage :: "Scope \<Rightarrow> string \<Rightarrow> 's \<Rightarrow> (err + AcceptedStage option) \<times> 's"
  srcLoad :: "Scope \<Rightarrow> string \<Rightarrow> int \<Rightarrow> 's \<Rightarrow> (err + Loaded) \<times> 's"

text \<open>
  What the server logs, all of it as warnings: "connection from an unexpected peer refused"
  with the expected and the peer's UID, its PID and the route; "request with a wrong peer
  token refused" with the peer's UID and the route; and the three failed relays with what
  identifies the call and the error or its code.
\<close>

datatype server_line =
    UnexpectedPeer uid uid int string
  | WrongPeerToken uid string
  | ModelRelayFailed string string
  | McpRelayFailed string string
  | KnowledgeRelayFailed string

record 's server =
  svTrustedUID :: uid
  svCandidateUID :: uid
  svTrustedToken :: string
  svCandidateToken :: string
  svEnvelope :: Envelope
  svScope :: "'s scope_source"
  svRelay :: "(writer \<Rightarrow> ModelCallRequest \<Rightarrow> time \<Rightarrow> 's \<Rightarrow> (err option \<times> writer) \<times> 's) option"
  svMCP :: "(CreateCallRequest \<Rightarrow> 's \<Rightarrow> (rpc_error + CreateCallResponse) \<times> 's) option"
  svKnowledge :: "(KSearchRequest \<Rightarrow> 's \<Rightarrow> (rpc_error + KSearchResponse) \<times> 's) option"
  svLimits :: Limits
  svLog :: "server_line \<Rightarrow> 's \<Rightarrow> 's"
  svExt :: externals

type_synonym 's handler = "request \<Rightarrow> string list \<Rightarrow> writer \<Rightarrow> Inputs \<times> 's \<Rightarrow> writer \<times> Inputs \<times> 's"

definition ConnContext :: "Conn option \<Rightarrow> Peer option" where
  "ConnContext c = map_option cnPeer c"

record http_server =
  hsReadHeaderTimeout :: duration
  hsReadTimeout :: duration
  hsWriteTimeout :: duration
  hsMaxHeaderBytes :: int
  hsKeepAlives :: bool

definition HTTPServer :: "'s server \<Rightarrow> http_server" where
  "HTTPServer sv =
     \<lparr>hsReadHeaderTimeout = 10 * second, hsReadTimeout = lmRequestTimeout (svLimits sv),
      hsWriteTimeout = lmRequestTimeout (svLimits sv) + 10 * second, hsMaxHeaderBytes = 16 * 1024,
      hsKeepAlives = False\<rparr>"

text \<open>\<open>io.ReadAll(http.MaxBytesReader(w, r.Body, n))\<close>: \<open>None\<close> is any error of it.\<close>

definition read_body :: "int \<Rightarrow> request \<Rightarrow> bytes option" where
  "read_body n req =
     (if int (length (hrBody req)) > max n 0 then None
      else if hrTorn req then None else Some (hrBody req))"

definition path_value :: "string list \<Rightarrow> string" where
  "path_value vals = (case vals of [] \<Rightarrow> [] | v # _ \<Rightarrow> v)"

text \<open>Asks the scope source, answers its error, or goes on with the scope it confirmed.\<close>

definition with_scope ::
  "'s server \<Rightarrow> Purpose \<Rightarrow> writer \<Rightarrow> Inputs \<times> 's
     \<Rightarrow> (Scope \<Rightarrow> Inputs \<times> 's \<Rightarrow> writer \<times> Inputs \<times> 's) \<Rightarrow> writer \<times> Inputs \<times> 's" where
  "with_scope sv purpose w st go =
     (case srcConfirm (svScope sv) purpose (snd st) of
        (Inl e, s') \<Rightarrow> (fst (answerScopeError (Some e) w), fst st, s')
      | (Inr sc, s') \<Rightarrow> go sc (fst st, s'))"

section \<open>Routes of both sockets\<close>

definition readInput :: "'s server \<Rightarrow> 's handler" where
  "readInput sv req vals w st =
     (let name = path_value vals in
      if \<not> matches input_name_re name then (fail 404 ''NOT_FOUND'' [] w, st)
      else with_scope sv ForNewAuthorization w st (\<lambda>_ st'.
        case Get (fst st') name of
          None \<Rightarrow> (fail 404 ''NOT_FOUND'' [] w, st')
        | Some b \<Rightarrow>
            (write_bytes b (set_header ''Connection'' ''close''
               (set_header ''Content-Type'' ''application/octet-stream'' w)), st')))"

text \<open>The zero \<open>time.Time\<close>: 1 January of year 1.\<close>

definition zero_time :: time where "zero_time = - (62135596800 * second)"

definition relay_deadline :: "string \<Rightarrow> time" where
  "relay_deadline d = (case parse_rfc3339 d of None \<Rightarrow> zero_time | Some (t, _) \<Rightarrow> t)"

definition modelRelay :: "'s server \<Rightarrow> 's handler" where
  "modelRelay sv req vals w st =
     (case read_body (lmMaxInputBytes (svLimits sv)) req of
        None \<Rightarrow> (fail 413 ''REQUEST_TOO_LARGE'' [] w, st)
      | Some raw \<Rightarrow>
          (case svRelay sv of
             None \<Rightarrow> (fail 503 ''DEPENDENCY_UNAVAILABLE'' ''model relay upstream not configured (P11)'' w, st)
           | Some forward \<Rightarrow>
               (case ParseRelayRequest (svExt sv) raw of
                  Inl e \<Rightarrow> (fail 400 ''INVALID_ARGUMENT''
                      (''callId, routeId, messages, maxOutputTokens and maxExposure only: '' @ e) w, st)
                | Inr r \<Rightarrow> with_scope sv ForNewAuthorization w st (\<lambda>sc st'.
                    case Bind (svExt sv) sc r raw of
                      Inl e \<Rightarrow> (fail 400 ''INVALID_ARGUMENT'' e w, st')
                    | Inr bound \<Rightarrow>
                        (case forward w bound (relay_deadline (mcDeadline bound)) (snd st') of
                           ((None, w'), s') \<Rightarrow> (w', fst st', s')
                         | ((Some e, w'), s') \<Rightarrow>
                             (fail 503 ''DEPENDENCY_UNAVAILABLE'' ''model proxy unreachable'' w', fst st',
                              svLog sv (ModelRelayFailed (rqCallID r) (err_text e)) s'))))))"

section \<open>Relays of the trusted socket\<close>

text \<open>A failed call is logged when the code of its error has no answer of its own.\<close>

definition relay_failed :: "'s server \<Rightarrow> (string \<Rightarrow> server_line) \<Rightarrow> rpc_error \<Rightarrow> 's \<Rightarrow> 's" where
  "relay_failed sv line e s =
     (let code = fst (status_convert e) in
      if map_of mcpStatus code = None then svLog sv (line (code_string code)) s else s)"

definition mcpCall :: "'s server \<Rightarrow> 's handler" where
  "mcpCall sv req vals w st =
     (case read_body (lmMaxInputBytes (svLimits sv)) req of
        None \<Rightarrow> (fail 413 ''REQUEST_TOO_LARGE'' [] w, st)
      | Some raw \<Rightarrow>
          (case svMCP sv of
             None \<Rightarrow> (fail 503 ''DEPENDENCY_UNAVAILABLE'' ''mcp upstream not configured'' w, st)
           | Some call \<Rightarrow>
               (case ParseCallRequest (svExt sv) raw of
                  Inl e \<Rightarrow> (fail 400 ''INVALID_ARGUMENT''
                      (''commandId, grantId, grantRevision, method, arguments and deadline only: '' @ e) w, st)
                | Inr r \<Rightarrow> with_scope sv ForNewAuthorization w st (\<lambda>sc st'.
                    case BindCall (svExt sv) sc r raw of
                      Inl e \<Rightarrow> (fail 400 ''INVALID_ARGUMENT'' e w, st')
                    | Inr bound \<Rightarrow>
                        (case call bound (snd st') of
                           (Inl e, s') \<Rightarrow> (answerRelayError ''mcp unreachable'' e w, fst st',
                              relay_failed sv (McpRelayFailed (caCommandID r)) e s')
                         | (Inr resp, s') \<Rightarrow> (writeJSON 200 (toolCall_jv resp) w, fst st', s'))))))"

definition knowledgeSearch :: "'s server \<Rightarrow> 's handler" where
  "knowledgeSearch sv req vals w st =
     (case read_body (lmMaxInputBytes (svLimits sv)) req of
        None \<Rightarrow> (fail 413 ''REQUEST_TOO_LARGE'' [] w, st)
      | Some raw \<Rightarrow>
          (case svKnowledge sv of
             None \<Rightarrow> (fail 503 ''DEPENDENCY_UNAVAILABLE'' ''knowledge upstream not configured'' w, st)
           | Some search \<Rightarrow>
               (case ParseSearchRequest (svExt sv) raw of
                  Inl e \<Rightarrow> (fail 400 ''INVALID_ARGUMENT''
                      (''snapshotId, query, maxContextItems, retrievalProfileId and deadline only: '' @ e) w, st)
                | Inr r \<Rightarrow> with_scope sv ForNewAuthorization w st (\<lambda>sc st'.
                    case BindSearch (svExt sv) sc r of
                      Inl e \<Rightarrow> (fail 400 ''INVALID_ARGUMENT'' e w, st')
                    | Inr bound \<Rightarrow>
                        (case search bound (snd st') of
                           (Inl e, s') \<Rightarrow> (answerRelayError ''knowledge unreachable'' e w, fst st',
                              relay_failed sv KnowledgeRelayFailed e s')
                         | (Inr resp, s') \<Rightarrow> (writeJSON 200 (search_jv resp) w, fst st', s'))))))"

definition unavailable :: "'s server \<Rightarrow> string \<Rightarrow> 's handler" where
  "unavailable sv dep req vals w st =
     with_scope sv ForNewAuthorization w st (\<lambda>_ st'.
       (fail 503 ''DEPENDENCY_UNAVAILABLE'' (dep @ '' upstream not configured'') w, st'))"

section \<open>Scope, inputs and transfers\<close>

definition getScope :: "'s server \<Rightarrow> 's handler" where
  "getScope sv req vals w st =
     with_scope sv ForNewAuthorization w st (\<lambda>sc st'.
       (writeJSON 200 (JvObject
          [(''inputs'', JvList (map JvString (Names (fst st')))),
           (''launchId'', JvString (eLaunchID (svEnvelope sv))), (''scope'', scope_jv sc)]) w, st'))"

definition putInput :: "'s server \<Rightarrow> 's handler" where
  "putInput sv req vals w st =
     (let name = path_value vals in
      case read_body (lmMaxInputBytes (svLimits sv)) req of
        None \<Rightarrow> (fail 413 ''INPUT_TOO_LARGE'' [] w, st)
      | Some body \<Rightarrow> with_scope sv ForNewAuthorization w st (\<lambda>_ st'.
          case Stage_input (fst st') name body of
            (Inl e, ip) \<Rightarrow>
              (fail 400 ''INPUT_REJECTED'' (stage_error_text (printable (svExt sv)) e) w, ip, snd st')
          | (Inr _, ip) \<Rightarrow>
              (writeJSON 200 (JvObject [(''name'', JvString name), (''sizeBytes'', JvInt (int (length body)))]) w,
               ip, snd st')))"

definition loadInput :: "'s server \<Rightarrow> 's handler" where
  "loadInput sv req vals w st =
     (let name = path_value vals in
      case Handle (fst st) name of
        None \<Rightarrow> (fail 404 ''NOT_FOUND'' ''the envelope binds no handle to this input'' w, st)
      | Some handle \<Rightarrow>
          if \<not> matches input_name_re name
          then (fail 404 ''NOT_FOUND'' ''the envelope binds no handle to this input'' w, st)
          else with_scope sv ForNewAuthorization w st (\<lambda>sc st'.
            case srcLoad (svScope sv) sc handle (lmMaxInputBytes (svLimits sv)) (snd st') of
              (Inl e, s') \<Rightarrow> (answerActionError e w, fst st', s')
            | (Inr loaded, s') \<Rightarrow>
                (case Stage_input (fst st') name (ldBytes loaded) of
                   (Inl e, ip) \<Rightarrow>
                     (fail 400 ''INPUT_REJECTED'' (stage_error_text (printable (svExt sv)) e) w, ip, s')
                 | (Inr _, ip) \<Rightarrow>
                     (writeJSON 200 (JvObject
                        [(''class'', JvString (ldClass loaded)), (''digest'', JvString (ldDigest loaded)),
                         (''name'', JvString name), (''sizeBytes'', JvInt (ldSizeBytes loaded))]) w, ip, s'))))"

definition getStage :: "'s server \<Rightarrow> 's handler" where
  "getStage sv req vals w st =
     (let attemptID = path_value vals in
      if \<not> matches component_re attemptID then (fail 404 ''NOT_FOUND'' [] w, st)
      else with_scope sv ForResult w st (\<lambda>sc st'.
        case srcPriorStage (svScope sv) sc attemptID (snd st') of
          (Inl e, s') \<Rightarrow> (answerActionError e w, fst st', s')
        | (Inr None, s') \<Rightarrow>
            (fail 404 ''NOT_FOUND'' ''no accepted stage of that attempt belongs to this operation'' w, fst st', s')
        | (Inr (Some m), s') \<Rightarrow> (writeJSON 200 (accepted_jv m) w, fst st', s')))"

definition postTransfer :: "'s server \<Rightarrow> 's handler" where
  "postTransfer sv req vals w st =
     (let class = header_get (hrHeader req) ''X-Anvilkit-Class'';
          given = header_get (hrHeader req) ''Content-Type'';
          mediaType = (if given = [] then ''application/octet-stream'' else given)
      in case read_body (lmMaxTransferBytes (svLimits sv)) req of
           None \<Rightarrow> (fail 413 ''TRANSFER_TOO_LARGE'' [] w, st)
         | Some body \<Rightarrow> with_scope sv ForNewAuthorization w st (\<lambda>sc st'.
             case srcUpload (svScope sv) sc class mediaType body (snd st') of
               (Inl e, s') \<Rightarrow> (answerActionError e w, fst st', s')
             | (Inr t, s') \<Rightarrow> (writeJSON 200 (transfer_jv t) w, fst st', s')))"

section \<open>Results and progress\<close>

record resultIn =
  riVerdict :: string
  riFailureCode :: string
  riObserverIdentity :: string
  riManifest :: bytes

definition zeroResultIn :: resultIn where
  "zeroResultIn = \<lparr>riVerdict = [], riFailureCode = [], riObserverIdentity = [], riManifest = []\<rparr>"

definition resultFields :: "(string \<times> resultIn decoder) list" where
  "resultFields =
     [(''verdict'', on_field riVerdict riVerdict_update dec_string),
      (''failureCode'', on_field riFailureCode riFailureCode_update dec_string),
      (''observerIdentity'', on_field riObserverIdentity riObserverIdentity_update dec_string),
      (''manifest'', on_field riManifest riManifest_update dec_raw)]"

text \<open>A decoded value of which required fields are there; what follows it is not looked at.\<close>

definition decode_first :: "(string \<times> 'a decoder) list \<Rightarrow> 'a \<Rightarrow> ('a \<Rightarrow> bool) \<Rightarrow> bytes \<Rightarrow> 'a option" where
  "decode_first table z refused body =
     (case decode_strict table z body of
        None \<Rightarrow> None
      | Some (x, _) \<Rightarrow> if refused x then None else Some x)"

text \<open>The bound of the request is a sum of 64-bit integers.\<close>

definition wrap64 :: "int \<Rightarrow> int" where
  "wrap64 n = (n + 2 ^ 63) mod 2 ^ 64 - 2 ^ 63"

definition postResult :: "'s server \<Rightarrow> 's handler" where
  "postResult sv req vals w st =
     (case read_body (wrap64 (lmMaxManifestBytes (svLimits sv) + 4096)) req of
        None \<Rightarrow> (fail 413 ''RESULT_TOO_LARGE'' [] w, st)
      | Some body \<Rightarrow>
          (case decode_first resultFields zeroResultIn
                  (\<lambda>r. length (riManifest r) = 0 \<or> riObserverIdentity r = []) body of
             None \<Rightarrow> (fail 400 ''INVALID_ARGUMENT'' ''verdict, observerIdentity and manifest are required'' w, st)
           | Some r \<Rightarrow>
               if int (length (riManifest r)) > lmMaxManifestBytes (svLimits sv)
               then (fail 413 ''RESULT_TOO_LARGE'' [] w, st)
               else with_scope sv ForResult w st (\<lambda>sc st'.
                 case srcSubmit (svScope sv) sc (riVerdict r) (riFailureCode r) (riObserverIdentity r)
                        (riManifest r) (snd st') of
                   (Inl e, s') \<Rightarrow> (answerActionError e w, fst st', s')
                 | (Inr m, s') \<Rightarrow> (writeJSON 200 (stage_jv m) w, fst st', s'))))"

record progressIn =
  piNode :: string
  piState :: string
  piRound :: string
  piOutcomeCode :: string

definition zeroProgressIn :: progressIn where
  "zeroProgressIn = \<lparr>piNode = [], piState = [], piRound = [], piOutcomeCode = []\<rparr>"

definition progressFields :: "(string \<times> progressIn decoder) list" where
  "progressFields =
     [(''node'', on_field piNode piNode_update dec_string),
      (''state'', on_field piState piState_update dec_string),
      (''round'', on_field piRound piRound_update dec_string),
      (''outcomeCode'', on_field piOutcomeCode piOutcomeCode_update dec_string)]"

definition postProgress :: "'s server \<Rightarrow> 's handler" where
  "postProgress sv req vals w st =
     (case read_body 4096 req of
        None \<Rightarrow> (fail 413 ''PROGRESS_TOO_LARGE'' [] w, st)
      | Some body \<Rightarrow>
          (case decode_first progressFields zeroProgressIn
                  (\<lambda>p. piNode p = [] \<or> piState p = [] \<or> length (piNode p) > 32 \<or> length (piState p) > 32
                     \<or> length (piRound p) > 20 \<or> length (piOutcomeCode p) > 64) body of
             None \<Rightarrow> (fail 400 ''INVALID_ARGUMENT''
                 ''node and state are required; round and outcomeCode are bounded'' w, st)
           | Some p \<Rightarrow> with_scope sv ForNewAuthorization w st (\<lambda>sc st'.
               case srcProgress (svScope sv) sc (piNode p) (piState p) (piRound p) (piOutcomeCode p) (snd st') of
                 (Inl e, s') \<Rightarrow> (answerActionError e w, fst st', s')
               | (Inr rec, s') \<Rightarrow> (writeJSON 200 (progress_jv rec) w, fst st', s'))))"

definition getResult :: "'s server \<Rightarrow> 's handler" where
  "getResult sv req vals w st =
     with_scope sv ForResult w st (\<lambda>sc st'.
       case srcAcceptedStage (svScope sv) sc (snd st') of
         (Inl e, s') \<Rightarrow> (answerActionError e w, fst st', s')
       | (Inr None, s') \<Rightarrow>
           (fail 404 ''NOT_FOUND'' ''no result is accepted for this attempt'' w, fst st', s')
       | (Inr (Some m), s') \<Rightarrow> (writeJSON 200 (accepted_jv m) w, fst st', s'))"

section \<open>The route tables\<close>

datatype candidate_route = C_ReadInput | C_ModelRelay | C_Forbidden

definition candidate_patterns :: "candidate_route pattern list" where
  "candidate_patterns =
     [(Some ''GET'', [Lit ''v1'', Lit ''inputs'', Wild], C_ReadInput),
      (Some ''POST'', [Lit ''v1'', Lit ''model'', Lit ''relay''], C_ModelRelay),
      (None, [Rest], C_Forbidden)]"

datatype trusted_route =
    T_Scope | T_ReadInput | T_PutInput | T_LoadInput | T_Stage | T_Transfer | T_PostResult
  | T_Progress | T_GetResult | T_ModelRelay | T_KnowledgeSearch | T_Knowledge | T_McpCall | T_Forbidden

definition trusted_patterns :: "trusted_route pattern list" where
  "trusted_patterns =
     [(Some ''GET'', [Lit ''v1'', Lit ''scope''], T_Scope),
      (Some ''GET'', [Lit ''v1'', Lit ''inputs'', Wild], T_ReadInput),
      (Some ''PUT'', [Lit ''v1'', Lit ''inputs'', Wild], T_PutInput),
      (Some ''POST'', [Lit ''v1'', Lit ''inputs'', Wild, Lit ''loads''], T_LoadInput),
      (Some ''GET'', [Lit ''v1'', Lit ''stages'', Wild], T_Stage),
      (Some ''POST'', [Lit ''v1'', Lit ''transfers''], T_Transfer),
      (Some ''POST'', [Lit ''v1'', Lit ''results''], T_PostResult),
      (Some ''POST'', [Lit ''v1'', Lit ''progress''], T_Progress),
      (Some ''GET'', [Lit ''v1'', Lit ''results''], T_GetResult),
      (Some ''POST'', [Lit ''v1'', Lit ''model'', Lit ''relay''], T_ModelRelay),
      (Some ''POST'', [Lit ''v1'', Lit ''knowledge'', Lit ''searches''], T_KnowledgeSearch),
      (Some ''POST'', [Lit ''v1'', Lit ''knowledge'', Rest], T_Knowledge),
      (Some ''POST'', [Lit ''v1'', Lit ''mcp'', Lit ''calls''], T_McpCall),
      (None, [Rest], T_Forbidden)]"

definition forbidden :: "'s handler" where
  "forbidden req vals w st = (fail 403 ''ROUTE_FORBIDDEN'' [] w, st)"

fun candidate_handler :: "'s server \<Rightarrow> candidate_route \<Rightarrow> 's handler" where
  "candidate_handler sv C_ReadInput = readInput sv"
| "candidate_handler sv C_ModelRelay = modelRelay sv"
| "candidate_handler sv C_Forbidden = forbidden"

fun trusted_handler :: "'s server \<Rightarrow> trusted_route \<Rightarrow> 's handler" where
  "trusted_handler sv T_Scope = getScope sv"
| "trusted_handler sv T_ReadInput = readInput sv"
| "trusted_handler sv T_PutInput = putInput sv"
| "trusted_handler sv T_LoadInput = loadInput sv"
| "trusted_handler sv T_Stage = getStage sv"
| "trusted_handler sv T_Transfer = postTransfer sv"
| "trusted_handler sv T_PostResult = postResult sv"
| "trusted_handler sv T_Progress = postProgress sv"
| "trusted_handler sv T_GetResult = getResult sv"
| "trusted_handler sv T_ModelRelay = modelRelay sv"
| "trusted_handler sv T_KnowledgeSearch = knowledgeSearch sv"
| "trusted_handler sv T_Knowledge = unavailable sv ''knowledge''"
| "trusted_handler sv T_McpCall = mcpCall sv"
| "trusted_handler sv T_Forbidden = forbidden"

text \<open>\<open>ServeMux.ServeHTTP\<close>: the asterisk form is refused, a redirect is answered by the mux itself.\<close>

definition serve_mux ::
  "externals \<Rightarrow> 'h pattern list \<Rightarrow> ('h \<Rightarrow> 's handler) \<Rightarrow> request \<Rightarrow> writer \<Rightarrow> Inputs \<times> 's
     \<Rightarrow> writer \<times> Inputs \<times> 's" where
  "serve_mux ext pats run req w st =
     (if hrRequestURI req = ''*'' then (write_header 400 (set_header ''Connection'' ''close'' w), st)
      else case find_handler pats (hrMethod req) (hrEscapedPath req) of
        Found h vals \<Rightarrow> run h req vals w st
      | Redirect p \<Rightarrow>
          (write_bytes (redirect_body ext p)
             (write_header (redirect_status ext) (set_header ''Location'' (redirect_target ext p) w)), st)
      | NoRoute \<Rightarrow> (write_header 404 w, st))"

section \<open>The guard\<close>

text \<open>The route of a log line: the method and the decoded path.\<close>

definition route_of :: "request \<Rightarrow> string" where
  "route_of req = hrMethod req @ '' '' @ path_unescape (hrEscapedPath req)"

definition peer_of :: "request \<Rightarrow> Peer" where
  "peer_of req = (case hrPeer req of None \<Rightarrow> zeroPeer | Some p \<Rightarrow> p)"

definition guard ::
  "(server_line \<Rightarrow> 's \<Rightarrow> 's) \<Rightarrow> uid \<Rightarrow> string \<Rightarrow> (request \<Rightarrow> writer \<Rightarrow> Inputs \<times> 's \<Rightarrow> writer \<times> Inputs \<times> 's)
     \<Rightarrow> request \<Rightarrow> writer \<Rightarrow> Inputs \<times> 's \<Rightarrow> writer \<times> Inputs \<times> 's" where
  "guard log expected token next req w st =
     (if (case hrPeer req of None \<Rightarrow> True | Some p \<Rightarrow> pUID p \<noteq> expected)
      then (fail 403 ''PEER_UID_MISMATCH'' [] w, fst st,
              log (UnexpectedPeer expected (pUID (peer_of req)) (pPID (peer_of req)) (route_of req)) (snd st))
      else let nonce = header_get (hrHeader req) HeaderNonce in
        if \<not> ValidNonce nonce
        then (fail 400 ''PEER_NONCE_INVALID''
                (''the request needs a fresh 32-hex-character '' @ HeaderNonce) w, st)
        else if \<not> Equal (header_get (hrHeader req) HeaderToken) token
        then (fail 403 ''PEER_TOKEN_MISMATCH'' [] w, fst st,
                log (WrongPeerToken (pUID (peer_of req)) (route_of req)) (snd st))
        else (case Proof token nonce of
                Inl _ \<Rightarrow> (fail 500 ''INTERNAL'' [] w, st)
              | Inr proof \<Rightarrow> next req (set_header HeaderProof proof w) st))"

definition Candidate :: "'s server \<Rightarrow> request \<Rightarrow> writer \<Rightarrow> Inputs \<times> 's \<Rightarrow> writer \<times> Inputs \<times> 's" where
  "Candidate sv =
     guard (svLog sv) (svCandidateUID sv) (svCandidateToken sv)
       (serve_mux (svExt sv) candidate_patterns (candidate_handler sv))"

definition Trusted :: "'s server \<Rightarrow> request \<Rightarrow> writer \<Rightarrow> Inputs \<times> 's \<Rightarrow> writer \<times> Inputs \<times> 's" where
  "Trusted sv =
     guard (svLog sv) (svTrustedUID sv) (svTrustedToken sv)
       (serve_mux (svExt sv) trusted_patterns (trusted_handler sv))"

end
