(* ===== verification/Routes.thy ===== *)
theory Routes
  imports Server
begin

text \<open>
  What every request of internal/server/server.go leaves true: the answer carries the
  proof header the guard set, the input store changes only by a verified staging, and,
  given the interface of the scope source and the relays (locale \<open>scope_interface\<close>), every
  call the process makes for a request is a question about the registration or is made
  under a scope that question confirmed in the same request.
\<close>

section \<open>Headers that stay\<close>

definition carries :: "string \<Rightarrow> writer \<Rightarrow> bool" where
  "carries p w = (header_get (wHeader w) HeaderProof = p \<and>
     (case wSent w of None \<Rightarrow> True | Some (_, h) \<Rightarrow> header_get h HeaderProof = p))"

definition answered :: "string \<Rightarrow> writer \<Rightarrow> bool" where
  "answered p w = (carries p w \<and> wSent w \<noteq> None)"

named_theorems carried \<open>writer operations that keep the proof header\<close>

lemma proof_key: "canonical_key HeaderProof \<noteq> canonical_key ''Content-Type''"
  "canonical_key HeaderProof \<noteq> canonical_key ''Connection''" "canonical_key HeaderProof \<noteq> canonical_key ''Retry-After''"
  "canonical_key HeaderProof \<noteq> canonical_key ''Location''"
  by code_simp+

lemma carries_set_header:
  "canonical_key HeaderProof \<noteq> canonical_key k \<Longrightarrow> carries p w \<Longrightarrow> carries p (set_header k v w)"
  by (auto simp: carries_def header_get_set_other split: option.splits)

lemma carries_headers [carried]:
  "carries p w \<Longrightarrow> carries p (set_header ''Content-Type'' v w)"
  "carries p w \<Longrightarrow> carries p (set_header ''Connection'' v w)"
  "carries p w \<Longrightarrow> carries p (set_header ''Retry-After'' v w)"
  "carries p w \<Longrightarrow> carries p (set_header ''Location'' v w)"
  using proof_key by (simp_all add: carries_set_header)

lemma answered_write_header [carried]: "carries p w \<Longrightarrow> answered p (write_header st w)"
  by (auto simp: carries_def answered_def write_header_def split: option.splits)

lemma answered_write_bytes [carried]: "carries p w \<Longrightarrow> answered p (write_bytes b w)"
  by (auto simp: carries_def answered_def write_bytes_def write_header_def split: option.splits)

lemma answered_flush [carried]: "carries p w \<Longrightarrow> answered p (flush w)"
  by (auto simp: carries_def answered_def flush_def write_header_def split: option.splits)

lemma answered_carries: "answered p w \<Longrightarrow> carries p w"
  by (simp add: answered_def)

lemma answered_writeJSON [carried]: "carries p w \<Longrightarrow> answered p (writeJSON st v w)"
  unfolding writeJSON_def Let_def by (auto split: option.split intro!: carried intro: answered_carries)

lemma answered_fail [carried]: "carries p w \<Longrightarrow> answered p (fail st c r w)"
  unfolding fail_def by (rule answered_writeJSON)

lemma answered_scope_error [carried]: "carries p w \<Longrightarrow> answered p (fst (answerScopeError (Some e) w))"
  by (auto simp: answerScopeError_def intro!: carried)

lemma answered_action_error [carried]: "carries p w \<Longrightarrow> answered p (answerActionError e w)"
  by (auto simp: answerActionError_def Let_def intro!: carried)

lemma answered_relay_error [carried]: "carries p w \<Longrightarrow> answered p (answerRelayError u e w)"
  by (auto simp: answerRelayError_def intro!: carried split: prod.split option.split)

lemma answered_copy_stream: "answered p w \<Longrightarrow> answered p (copy_stream acc s w)"
proof (induction acc s w rule: copy_stream.induct)
  case (1 acc s w)
  obtain line rest eof where r: "read_slice s = (line, rest, eof)" by (cases "read_slice s") auto
  let ?w1 = "if line = [] then w
             else if length line = 1 then flush (write_bytes line w) else write_bytes line w"
  have w1: "answered p ?w1"
    using "1.prems" by (auto intro!: carried intro: answered_carries)
  show ?case
  proof (cases "line \<noteq> [] \<and> \<not> acc w line")
    case True
    with "1.prems" show ?thesis by (simp add: copy_stream.simps [of acc s w] r)
  next
    case ok: False
    show ?thesis
    proof (cases eof)
      case True
      with ok have "copy_stream acc s w = flush ?w1"
        by (auto simp: copy_stream.simps [of acc s w] r Let_def)
      moreover have "answered p (flush ?w1)" by (rule answered_flush, rule answered_carries, rule w1)
      ultimately show ?thesis by simp
    next
      case False
      with ok have "copy_stream acc s w = copy_stream acc rest ?w1"
        by (auto simp: copy_stream.simps [of acc s w] r Let_def)
      moreover have "answered p (copy_stream acc rest ?w1)"
        by (rule "1.IH" [OF r [symmetric] refl ok refl False w1])
      ultimately show ?thesis by simp
    qed
  qed
qed

lemma answered_Forward:
  assumes "carries p w" "Forward up acc w q d h = ((e, w'), h')"
  shows "(e = None \<longrightarrow> answered p w') \<and> carries p w'"
proof (cases "createModelCall up h q")
  case (Inl x)
  with assms show ?thesis by (auto simp: Forward_def rpc_def)
next
  case (Inr resp)
  let ?w1 = "set_header ''Connection'' ''close'' (set_header ''Content-Type'' (header_get (hpHeaders resp) ''Content-Type'') w)"
  have c: "carries p ?w1" using assms(1) by (intro carried)
  then have a: "answered p (flush (write_header 200 ?w1\<lparr>wDeadline := Some (d + thirty_seconds)\<rparr>))"
    using answered_write_header [OF c, of 200] by (intro carried) (simp add: answered_def carries_def)
  show ?thesis
  proof (cases "hpStatus resp = 200")
    case True
    with Inr assms(2) have "w' = copy_stream acc (hpBody resp) (flush (write_header 200 ?w1\<lparr>wDeadline := Some (d + thirty_seconds)\<rparr>))"
      by (simp add: Forward_def rpc_def Let_def)
    with answered_copy_stream [OF a] show ?thesis by (simp add: answered_carries)
  next
    case False
    with Inr assms(2) have "w' = write_bytes (take slice_size (hpBody resp)) (write_header (hpStatus resp) ?w1)"
      by (simp add: Forward_def rpc_def Let_def)
    moreover have "answered p \<dots>" by (intro carried answered_carries c)
    ultimately show ?thesis by (simp add: answered_carries)
  qed
qed

section \<open>The guard\<close>

definition from_peer :: "uid \<Rightarrow> request \<Rightarrow> bool" where
  "from_peer u req = (case hrPeer req of None \<Rightarrow> False | Some p \<Rightarrow> pUID p = u)"

lemma guard_cases:
  "guard lg u token next req w st =
     (let nonce = header_get (hrHeader req) HeaderNonce in
      if \<not> from_peer u req
      then (fail 403 ''PEER_UID_MISMATCH'' [] w, fst st,
              lg (UnexpectedPeer u (pUID (peer_of req)) (pPID (peer_of req)) (route_of req)) (snd st))
      else if \<not> lowerHex nonce 32 then (fail 400 ''PEER_NONCE_INVALID''
                (''the request needs a fresh 32-hex-character '' @ HeaderNonce) w, st)
      else if header_get (hrHeader req) HeaderToken \<noteq> token
      then (fail 403 ''PEER_TOKEN_MISMATCH'' [] w, fst st, lg (WrongPeerToken (pUID (peer_of req)) (route_of req)) (snd st))
      else (case Proof token nonce of
              Inl _ \<Rightarrow> (fail 500 ''INTERNAL'' [] w, st)
            | Inr proof \<Rightarrow> next req (set_header HeaderProof proof w) st))"
  by (auto simp: guard_def from_peer_def ValidNonce_def nonceHexLen_def Let_def split: option.split)

text \<open>A state after the line, if any, was logged.\<close>

definition noted :: "(server_line \<Rightarrow> 's \<Rightarrow> 's) \<Rightarrow> server_line option \<Rightarrow> Inputs \<times> 's \<Rightarrow> Inputs \<times> 's" where
  "noted lg l st = (fst st, case l of None \<Rightarrow> snd st | Some x \<Rightarrow> lg x (snd st))"

lemma noted_simps [simp]: "noted lg None st = st" "fst (noted lg l st) = fst st"
  by (simp_all add: noted_def)

lemma carries_proof: "wSent w = None \<Longrightarrow> carries p (set_header HeaderProof p w)"
  by (simp add: carries_def)

section \<open>Calls and the scope they are made under\<close>

fun asking :: "event \<Rightarrow> bool" where
  "asking (GetInstance q) = True"
| "asking ReadClock = True"
| "asking _ = False"

definition of_command :: "Scope \<Rightarrow> CommandIdentity \<Rightarrow> bool" where
  "of_command s c = (ciTenantId c = scTenantID s \<and> ciActorId c = ActorID)"

text \<open>
  A call made under a scope that was confirmed for a purpose: every identity it carries is
  the scope's, and only a new authorization begins transfers, reads artifacts, reports
  progress or reaches a relay.
\<close>

fun scoped :: "Purpose \<Rightarrow> Scope \<Rightarrow> event \<Rightarrow> bool" where
  "scoped p s (BeginTransfer r) \<longleftrightarrow> p = ForNewAuthorization \<and> of_command s (brCommand r)
     \<and> brScopeTenantId r = scTenantID s \<and> brOperationId r = scOperationID s
     \<and> brAttemptId r = scAttemptID s \<and> brDeadline r = scDeadline s"
| "scoped p s (FinalizeTransfer r) \<longleftrightarrow> p = ForNewAuthorization \<and> of_command s (frCommand r)
     \<and> frInstanceId r = scInstanceID s"
| "scoped p s (ReadArtifact r) \<longleftrightarrow> p = ForNewAuthorization \<and> rrOperationId r = scOperationID s
     \<and> rrInstanceId r = scInstanceID s \<and> rrTenantId r = scTenantID s"
| "scoped p s (HttpDo q) \<longleftrightarrow> p = ForNewAuthorization"
| "scoped p s (AcceptResult r) \<longleftrightarrow> p = ForResult \<and> of_command s (arqCommand r)
     \<and> arqAttemptId r = scAttemptID s \<and> arqInstanceId r = scInstanceID s
     \<and> arqExecutionEpoch r = scExecutionEpoch s \<and> arqObserverIdentity r = ActorID"
| "scoped p s (GetAcceptedStage r) \<longleftrightarrow> p = ForResult \<and> gsTenantId r = scTenantID s
     \<and> (gsAttemptId r = scAttemptID s \<or> gsOperationId r = scOperationID s)"
| "scoped p s (RecordAttemptProgress r) \<longleftrightarrow> p = ForNewAuthorization \<and> of_command s (pqCommand r)
     \<and> pqAttemptId r = scAttemptID s \<and> pqInstanceId r = scInstanceID s
     \<and> pqExecutionEpoch r = scExecutionEpoch s"
| "scoped p s (CreateModelCall r) \<longleftrightarrow> p = ForNewAuthorization \<and> mcBinding r = execution_binding s"
| "scoped p s (CreateCall r) \<longleftrightarrow> p = ForNewAuthorization \<and> ccScope r = subject s
     \<and> ccOperationId r = scOperationID s \<and> ccAttemptId r = scAttemptID s \<and> ccInstanceId r = scInstanceID s
     \<and> ccExecutionEpoch r = scExecutionEpoch s \<and> ccDeadline r \<le> scDeadline s"
| "scoped p s (KnowledgeSearch r) \<longleftrightarrow> p = ForNewAuthorization \<and> kqScope r = subject s
     \<and> kqDeadline r \<le> scDeadline s"
| "scoped p s _ \<longleftrightarrow> False"

text \<open>
  The calls of one request: questions about the registration, and then, when anything
  follows, calls under a scope those questions confirmed.
\<close>

definition authorized :: "(Purpose \<Rightarrow> Scope \<Rightarrow> hist \<Rightarrow> bool) \<Rightarrow> hist \<Rightarrow> event list \<Rightarrow> bool" where
  "authorized granted h calls \<longleftrightarrow> list_all asking calls \<or>
     (\<exists>p sc asks acts. calls = asks @ acts \<and> list_all asking asks
        \<and> granted p sc (h @ asks) \<and> list_all (scoped p sc) acts)"

lemma authorized_Nil: "authorized g h []"
  by (simp add: authorized_def)

lemma Bind_scoped: "Bind ext s r raw = Inr q \<Longrightarrow> scoped ForNewAuthorization s (CreateModelCall q)"
  by (auto simp: Bind_def Let_def result_simps)

lemma BindCall_scoped: "BindCall ext s r raw = Inr q \<Longrightarrow> scoped ForNewAuthorization s (CreateCall q)"
  by (auto simp: BindCall_def result_simps intro: order_trans [OF truncate_ms_le bound_deadline_le])

lemma BindSearch_scoped: "BindSearch ext s r = Inr q \<Longrightarrow> scoped ForNewAuthorization s (KnowledgeSearch q)"
  by (auto simp: BindSearch_def result_simps intro: order_trans [OF truncate_ms_le bound_deadline_le])

section \<open>The interface of the scope source and the relays\<close>

locale scope_interface =
  fixes sv :: "'s server"
    and trace :: "'s \<Rightarrow> hist"
    and granted :: "Purpose \<Rightarrow> Scope \<Rightarrow> hist \<Rightarrow> bool"
  assumes confirm_asks: "srcConfirm (svScope sv) p s = (r, s') \<Longrightarrow>
        \<exists>calls. trace s' = trace s @ calls \<and> list_all asking calls"
    and confirm_grants: "srcConfirm (svScope sv) p s = (Inr sc, s') \<Longrightarrow> granted p sc (trace s')"
    and upload_acts: "srcUpload (svScope sv) sc c m b s = (r1, s') \<Longrightarrow>
        \<exists>calls. trace s' = trace s @ calls \<and> list_all (scoped ForNewAuthorization sc) calls"
    and submit_acts: "srcSubmit (svScope sv) sc v fc ob mf s = (r2, s') \<Longrightarrow>
        \<exists>calls. trace s' = trace s @ calls \<and> list_all (scoped ForResult sc) calls"
    and progress_acts: "srcProgress (svScope sv) sc n st rd oc s = (r3, s') \<Longrightarrow>
        \<exists>calls. trace s' = trace s @ calls \<and> list_all (scoped ForNewAuthorization sc) calls"
    and accepted_acts: "srcAcceptedStage (svScope sv) sc s = (r4, s') \<Longrightarrow>
        \<exists>calls. trace s' = trace s @ calls \<and> list_all (scoped ForResult sc) calls"
    and prior_acts: "srcPriorStage (svScope sv) sc a s = (r5, s') \<Longrightarrow>
        \<exists>calls. trace s' = trace s @ calls \<and> list_all (scoped ForResult sc) calls"
    and load_acts: "srcLoad (svScope sv) sc hn mx s = (r6, s') \<Longrightarrow>
        \<exists>calls. trace s' = trace s @ calls \<and> list_all (scoped ForNewAuthorization sc) calls"
    and relay_acts: "svRelay sv = Some fwd \<Longrightarrow> fwd w q d s = (x, s') \<Longrightarrow> trace s' = trace s @ [CreateModelCall q]"
    and relay_answers: "svRelay sv = Some fwd \<Longrightarrow> carries pf w \<Longrightarrow> fwd w q d s = ((e, w'), s') \<Longrightarrow>
        carries pf w' \<and> (e = None \<longrightarrow> answered pf w')"
    and mcp_acts: "svMCP sv = Some call \<Longrightarrow> call cq s = (r7, s') \<Longrightarrow> trace s' = trace s @ [CreateCall cq]"
    and knowledge_acts: "svKnowledge sv = Some search \<Longrightarrow> search kq s = (r8, s') \<Longrightarrow>
        trace s' = trace s @ [KnowledgeSearch kq]"
    and log_silent: "trace (svLog sv l s) = trace s"
begin

lemma failed_silent: "trace (relay_failed sv line e s) = trace s"
  by (simp add: relay_failed_def Let_def log_silent)

lemma noted_silent: "trace (snd (noted (svLog sv) l st)) = trace (snd st)"
  by (simp add: noted_def log_silent split: option.split)

text \<open>All the calls between two states satisfy a predicate.\<close>

definition adds :: "(event \<Rightarrow> bool) \<Rightarrow> 's \<Rightarrow> 's \<Rightarrow> bool" where
  "adds P s s' \<longleftrightarrow> (\<exists>calls. trace s' = trace s @ calls \<and> list_all P calls)"

lemma adds_refl: "adds P s s"
  by (auto simp: adds_def)

lemma adds_trans: "adds P s s1 \<Longrightarrow> adds P s1 s2 \<Longrightarrow> adds P s s2"
  by (fastforce simp: adds_def)

lemma adds_one: "trace s' = trace s @ [ev] \<Longrightarrow> P ev \<Longrightarrow> adds P s s'"
  by (simp add: adds_def)

lemma adds_silent [simp]:
  "adds P s (svLog sv l s') = adds P s s'" "adds P s (relay_failed sv line e s') = adds P s s'"
  "adds P (snd st) (snd (noted (svLog sv) n st))"
  by (simp_all add: adds_def log_silent failed_silent noted_silent)

lemma adds_mono: "adds P s s' \<Longrightarrow> (\<And>e. P e \<Longrightarrow> Q e) \<Longrightarrow> adds Q s s'"
  by (auto simp: adds_def list_all_iff)

text \<open>A handler that asks first: what holds of the questions and of its own calls holds of all.\<close>

lemma with_scope_adds:
  assumes "\<And>e. asking e \<Longrightarrow> P e" "\<And>sc s1. adds P s1 (snd (snd (go sc (fst st, s1))))"
  shows "adds P (snd st) (snd (snd (with_scope sv p w st go)))"
proof (cases "srcConfirm (svScope sv) p (snd st)")
  case (Pair r s1)
  have "adds asking (snd st) s1" using confirm_asks [OF Pair] by (simp add: adds_def)
  then have e: "adds P (snd st) s1" by (rule adds_mono) (rule assms(1))
  show ?thesis
  proof (cases r)
    case (Inr sc)
    with adds_trans [OF e assms(2) [of s1 sc]] Pair show ?thesis by (simp add: with_scope_def)
  qed (use Pair e in \<open>simp add: with_scope_def\<close>)
qed

definition acts :: "Purpose \<Rightarrow> Scope \<Rightarrow> 's \<Rightarrow> 's \<Rightarrow> bool" where
  "acts p sc = adds (scoped p sc)"

definition within :: "'s \<Rightarrow> 's \<Rightarrow> bool" where
  "within s s' = (\<exists>calls. trace s' = trace s @ calls \<and> authorized granted (trace s) calls)"

lemma silent [simp]:
  "acts p sc s (svLog sv l s') = acts p sc s s'" "acts p sc s (relay_failed sv line e s') = acts p sc s s'"
  by (simp_all add: acts_def)

lemma within_noted: "within (snd st) (snd (noted (svLog sv) n st))"
  by (auto simp: within_def noted_silent authorized_Nil)

lemma acts_refl: "acts p sc s s"
  by (simp add: acts_def adds_refl)

lemma within_refl: "within s s"
  by (auto simp: within_def authorized_Nil)

lemma acts_ops:
  "srcUpload (svScope sv) sc c m b s = (r1, s') \<Longrightarrow> acts ForNewAuthorization sc s s'"
  "srcSubmit (svScope sv) sc v fc ob mf s = (r2, s') \<Longrightarrow> acts ForResult sc s s'"
  "srcProgress (svScope sv) sc n st rd oc s = (r3, s') \<Longrightarrow> acts ForNewAuthorization sc s s'"
  "srcAcceptedStage (svScope sv) sc s = (r4, s') \<Longrightarrow> acts ForResult sc s s'"
  "srcPriorStage (svScope sv) sc a s = (r5, s') \<Longrightarrow> acts ForResult sc s s'"
  "srcLoad (svScope sv) sc hn mx s = (r6, s') \<Longrightarrow> acts ForNewAuthorization sc s s'"
  unfolding acts_def adds_def by (rule upload_acts submit_acts progress_acts accepted_acts prior_acts load_acts; assumption)+

lemma acts_relays:
  "svRelay sv = Some fwd \<Longrightarrow> Bind ext sc r raw = Inr q \<Longrightarrow> fwd w q d s = (x, s') \<Longrightarrow> acts ForNewAuthorization sc s s'"
  "svMCP sv = Some call \<Longrightarrow> BindCall ext sc cr raw = Inr cq \<Longrightarrow> call cq s = (r7, s') \<Longrightarrow> acts ForNewAuthorization sc s s'"
  "svKnowledge sv = Some search \<Longrightarrow> BindSearch ext sc sr = Inr kq \<Longrightarrow> search kq s = (r8, s') \<Longrightarrow> acts ForNewAuthorization sc s s'"
proof -
  have one: "acts ForNewAuthorization sc s s'"
    if "trace s' = trace s @ [ev]" "scoped ForNewAuthorization sc ev" for sc ev and s s' :: 's
    unfolding acts_def by (rule adds_one) (rule that)+
  show "svRelay sv = Some fwd \<Longrightarrow> Bind ext sc r raw = Inr q \<Longrightarrow> fwd w q d s = (x, s') \<Longrightarrow> acts ForNewAuthorization sc s s'"
    by (rule one, rule relay_acts, assumption+, rule Bind_scoped)
  show "svMCP sv = Some call \<Longrightarrow> BindCall ext sc cr raw = Inr cq \<Longrightarrow> call cq s = (r7, s') \<Longrightarrow> acts ForNewAuthorization sc s s'"
    by (rule one, rule mcp_acts, assumption+, rule BindCall_scoped)
  show "svKnowledge sv = Some search \<Longrightarrow> BindSearch ext sc sr = Inr kq \<Longrightarrow> search kq s = (r8, s') \<Longrightarrow> acts ForNewAuthorization sc s s'"
    by (rule one, rule knowledge_acts, assumption+, rule BindSearch_scoped)
qed

lemma with_scope_within:
  assumes "\<And>sc s1. acts p sc s1 (snd (snd (go sc (fst st, s1))))"
  shows "within (snd st) (snd (snd (with_scope sv p w st go)))"
proof (cases "srcConfirm (svScope sv) p (snd st)")
  case (Pair r s1)
  from confirm_asks [OF Pair] obtain asks where a: "trace s1 = trace (snd st) @ asks" "list_all asking asks" by blast
  show ?thesis
  proof (cases r)
    case (Inl e)
    with Pair a show ?thesis by (auto simp: with_scope_def within_def authorized_def)
  next
    case (Inr sc)
    from confirm_grants [OF Pair [unfolded Inr]] a have g: "granted p sc (trace (snd st) @ asks)" by simp
    from assms [of sc s1] obtain cs where cs: "trace (snd (snd (go sc (fst st, s1)))) = trace s1 @ cs"
        "list_all (scoped p sc) cs" by (auto simp: acts_def adds_def)
    have "authorized granted (trace (snd st)) (asks @ cs)"
      using a g cs unfolding authorized_def by blast
    with Pair Inr a cs show ?thesis by (auto simp: with_scope_def within_def)
  qed
qed

lemma with_scope_answered:
  assumes "carries pf w" "\<And>sc st'. answered pf (fst (go sc st'))"
  shows "answered pf (fst (with_scope sv p w st go))"
  using assms answered_scope_error [OF assms(1)] by (auto simp: with_scope_def split: prod.split sum.split)

text \<open>Every handler stays within the authority it asks for.\<close>

lemma handlers_within:
  "within (snd st) (snd (snd (readInput sv req vals w st)))"
  "within (snd st) (snd (snd (modelRelay sv req vals w st)))"
  "within (snd st) (snd (snd (mcpCall sv req vals w st)))"
  "within (snd st) (snd (snd (knowledgeSearch sv req vals w st)))"
  "within (snd st) (snd (snd (unavailable sv dep req vals w st)))"
  "within (snd st) (snd (snd (getScope sv req vals w st)))"
  "within (snd st) (snd (snd (putInput sv req vals w st)))"
  "within (snd st) (snd (snd (loadInput sv req vals w st)))"
  "within (snd st) (snd (snd (getStage sv req vals w st)))"
  "within (snd st) (snd (snd (postTransfer sv req vals w st)))"
  "within (snd st) (snd (snd (postResult sv req vals w st)))"
  "within (snd st) (snd (snd (postProgress sv req vals w st)))"
  "within (snd st) (snd (snd (getResult sv req vals w st)))"
  unfolding readInput_def modelRelay_def mcpCall_def knowledgeSearch_def unavailable_def getScope_def
    putInput_def loadInput_def getStage_def postTransfer_def postResult_def postProgress_def getResult_def Let_def
  by (auto split: option.split sum.split prod.split intro!: with_scope_within within_refl acts_refl
      intro: acts_ops acts_relays)

end

text \<open>The input store after a handler: staged under its name and digest, or unchanged.\<close>

definition stages_only :: "Inputs \<Rightarrow> Inputs \<Rightarrow> bool" where
  "stages_only a b = (b = a \<or> (\<exists>n c. fst (Stage_input a n c) = Inr () \<and> b = snd (Stage_input a n c)))"

lemma stages_only_refl: "stages_only a a"
  by (simp add: stages_only_def)

lemma stages_only_Stage: "Stage_input a n c = (r, b) \<Longrightarrow> stages_only a b"
proof (cases r)
  case (Inr u)
  assume "Stage_input a n c = (r, b)"
  with Inr have "fst (Stage_input a n c) = Inr ()" "b = snd (Stage_input a n c)" by simp_all
  then show ?thesis unfolding stages_only_def by blast
qed (auto simp: stages_only_def dest: Stage_input_Inl)

lemma with_scope_same:
  "(\<And>sc s1. fst (snd (go sc (fst st, s1))) = fst st) \<Longrightarrow> fst (snd (with_scope sv p w st go)) = fst st"
  by (auto simp: with_scope_def split: prod.split sum.split)

lemma with_scope_stages:
  "(\<And>sc s1. stages_only (fst st) (fst (snd (go sc (fst st, s1))))) \<Longrightarrow>
     stages_only (fst st) (fst (snd (with_scope sv p w st go)))"
  by (auto simp: with_scope_def stages_only_refl split: prod.split sum.split)

lemma unchanged_inputs:
  "fst (snd (readInput sv req vals w st)) = fst st"
  "fst (snd (modelRelay sv req vals w st)) = fst st"
  "fst (snd (mcpCall sv req vals w st)) = fst st"
  "fst (snd (knowledgeSearch sv req vals w st)) = fst st"
  "fst (snd (unavailable sv dep req vals w st)) = fst st"
  "fst (snd (getScope sv req vals w st)) = fst st"
  "fst (snd (getStage sv req vals w st)) = fst st"
  "fst (snd (postTransfer sv req vals w st)) = fst st"
  "fst (snd (postResult sv req vals w st)) = fst st"
  "fst (snd (postProgress sv req vals w st)) = fst st"
  "fst (snd (getResult sv req vals w st)) = fst st"
  unfolding readInput_def modelRelay_def mcpCall_def knowledgeSearch_def unavailable_def getScope_def
    getStage_def postTransfer_def postResult_def postProgress_def getResult_def Let_def
  by (auto split: option.split sum.split prod.split intro!: with_scope_same)

lemma staging_inputs:
  "stages_only (fst st) (fst (snd (putInput sv req vals w st)))"
  "stages_only (fst st) (fst (snd (loadInput sv req vals w st)))"
  unfolding putInput_def loadInput_def Let_def
  by (auto split: option.split sum.split prod.split intro!: with_scope_stages stages_only_refl
      intro: stages_only_Stage)

lemma trusted_inputs: "stages_only (fst st) (fst (snd (trusted_handler sv r req vals w st)))"
  by (cases r) (auto simp: unchanged_inputs staging_inputs forbidden_def stages_only_refl)

lemma candidate_inputs: "fst (snd (candidate_handler sv r req vals w st)) = fst st"
  by (cases r) (auto simp: unchanged_inputs forbidden_def)

lemma serve_mux_cases:
  obtains (handled) h vals where "serve_mux ext pats run req w st = run h req vals w st"
      "find_handler pats (hrMethod req) (hrEscapedPath req) = Found h vals"
  | (mux) "snd (serve_mux ext pats run req w st) = st"
      "carries pf w \<Longrightarrow> answered pf (fst (serve_mux ext pats run req w st))"
proof (cases "hrRequestURI req = ''*''")
  case True
  then show thesis by (intro mux) (auto simp: serve_mux_def intro!: carried)
next
  case False
  show thesis
  proof (cases "find_handler pats (hrMethod req) (hrEscapedPath req)")
    case (Found h vals)
    with False show thesis by (intro handled) (auto simp: serve_mux_def)
  next
    case (Redirect p)
    with False show thesis by (intro mux) (auto simp: serve_mux_def intro!: carried intro: answered_carries)
  next
    case NoRoute
    with False show thesis by (intro mux) (auto simp: serve_mux_def intro!: carried)
  qed
qed

text \<open>A request the guard turns away is at most logged; one that passes is the next handler's.\<close>

definition admitted :: "uid \<Rightarrow> string \<Rightarrow> request \<Rightarrow> bool" where
  "admitted u token req \<longleftrightarrow> from_peer u req \<and> lowerHex (header_get (hrHeader req) HeaderNonce) 32
     \<and> header_get (hrHeader req) HeaderToken = token"

definition refused_line :: "uid \<Rightarrow> string \<Rightarrow> request \<Rightarrow> server_line option" where
  "refused_line u token req =
     (if \<not> from_peer u req then Some (UnexpectedPeer u (pUID (peer_of req)) (pPID (peer_of req)) (route_of req))
      else if lowerHex (header_get (hrHeader req) HeaderNonce) 32 \<and> header_get (hrHeader req) HeaderToken \<noteq> token
      then Some (WrongPeerToken (pUID (peer_of req)) (route_of req)) else None)"

lemma guard_refused:
  "\<not> admitted u token req \<Longrightarrow> snd (guard lg u token next req w st) = noted lg (refused_line u token req) st"
  by (auto simp: guard_cases admitted_def refused_line_def noted_def Let_def)

lemma guard_admitted:
  assumes "admitted u token req" "lowerHex token 64"
  shows "\<exists>proof. Proof token (header_get (hrHeader req) HeaderNonce) = Inr proof
    \<and> guard lg u token next req w st = next req (set_header HeaderProof proof w) st"
proof -
  from assms(2) obtain key where k: "hex_decode token = Some key" "2 * length key = 64"
    using hex_decode_lower [of token] by (auto simp: lowerHex_iff)
  with assms(1) have "\<exists>proof. Proof token (header_get (hrHeader req) HeaderNonce) = Inr proof"
    by (auto simp: result_simps admitted_def ValidNonce_def nonceHexLen_def)
  with assms(1) show ?thesis by (auto simp: guard_cases admitted_def Let_def)
qed

lemma guard_state:
  "(\<exists>l. snd (guard lg u token next req w st) = noted lg l st) \<or>
     (\<exists>proof. admitted u token req \<and> guard lg u token next req w st = next req (set_header HeaderProof proof w) st)"
proof (cases "admitted u token req")
  case True
  then show ?thesis
    by (cases "Proof token (header_get (hrHeader req) HeaderNonce)") (auto simp: guard_cases admitted_def Let_def intro: exI [of _ None])
qed (use guard_refused in blast)

context scope_interface begin

lemma trusted_handler_within: "within (snd st) (snd (snd (trusted_handler sv r req vals w st)))"
  by (cases r) (auto simp: handlers_within forbidden_def within_refl)

lemma candidate_handler_within: "within (snd st) (snd (snd (candidate_handler sv r req vals w st)))"
  by (cases r) (auto simp: handlers_within forbidden_def within_refl)

lemma serve_mux_adds:
  assumes "\<And>h vals w. adds P (snd st) (snd (snd (run h req vals w st)))"
  shows "adds P (snd st) (snd (snd (serve_mux ext pats run req w st)))"
  by (cases rule: serve_mux_cases [where ext = ext and pats = pats and run = run and req = req and w = w and st = st]) (simp_all add: assms adds_refl)

lemma guard_adds:
  assumes "\<And>w. adds P (snd st) (snd (snd (next req w st)))"
  shows "adds P (snd st) (snd (snd (guard (svLog sv) u token next req w st)))"
  using guard_state [of "svLog sv" u token "next" req w st] assms by (auto simp: adds_refl)

lemma serve_mux_within:
  assumes "\<And>h vals w. within (snd st) (snd (snd (run h req vals w st)))"
  shows "within (snd st) (snd (snd (serve_mux ext pats run req w st)))"
  by (cases rule: serve_mux_cases [where ext = ext and pats = pats and run = run and req = req and w = w and st = st]) (simp_all add: assms within_refl)

lemma guard_within:
  assumes "\<And>w. within (snd st) (snd (snd (next req w st)))"
  shows "within (snd st) (snd (snd (guard (svLog sv) u token next req w st)))"
  using guard_state [of "svLog sv" u token "next" req w st] assms by (auto simp: within_noted)

lemma Trusted_within: "within (snd st) (snd (snd (Trusted sv req w st)))"
  unfolding Trusted_def by (intro guard_within serve_mux_within trusted_handler_within)

lemma Candidate_within: "within (snd st) (snd (snd (Candidate sv req w st)))"
  unfolding Candidate_def by (intro guard_within serve_mux_within candidate_handler_within)

lemma relay_answered:
  assumes "svRelay sv = Some fwd" "carries pf w" "fwd w q d s = ((e, w'), s')"
  shows "carries pf w'" "e = None \<Longrightarrow> answered pf w'"
  using relay_answers [OF assms] by simp_all

lemma handlers_answered:
  assumes "carries pf w"
  shows "answered pf (fst (readInput sv req vals w st))"
    "answered pf (fst (mcpCall sv req vals w st))"
    "answered pf (fst (knowledgeSearch sv req vals w st))"
    "answered pf (fst (unavailable sv dep req vals w st))"
    "answered pf (fst (getScope sv req vals w st))"
    "answered pf (fst (putInput sv req vals w st))"
    "answered pf (fst (loadInput sv req vals w st))"
    "answered pf (fst (getStage sv req vals w st))"
    "answered pf (fst (postTransfer sv req vals w st))"
    "answered pf (fst (postResult sv req vals w st))"
    "answered pf (fst (postProgress sv req vals w st))"
    "answered pf (fst (getResult sv req vals w st))"
  unfolding readInput_def mcpCall_def knowledgeSearch_def unavailable_def getScope_def
    putInput_def loadInput_def getStage_def postTransfer_def postResult_def postProgress_def getResult_def Let_def
  using assms
  by (auto split: option.split sum.split prod.split intro!: with_scope_answered carried)

lemma modelRelay_answered:
  assumes "carries pf w" shows "answered pf (fst (modelRelay sv req vals w st))"
  unfolding modelRelay_def Let_def
  using assms
  by (auto split: option.split sum.split prod.split intro!: with_scope_answered carried
      dest: relay_answered)

lemma trusted_handler_answered: "carries pf w \<Longrightarrow> answered pf (fst (trusted_handler sv r req vals w st))"
  by (cases r) (auto simp: handlers_answered modelRelay_answered forbidden_def intro!: carried)

lemma candidate_handler_answered: "carries pf w \<Longrightarrow> answered pf (fst (candidate_handler sv r req vals w st))"
  by (cases r) (auto simp: handlers_answered modelRelay_answered forbidden_def intro!: carried)

end

section \<open>Reading a staged input\<close>

text \<open>Any sequence of stagings of any requests, accepted or refused.\<close>

fun stage_all :: "Inputs \<Rightarrow> (string \<times> bytes) list \<Rightarrow> Inputs" where
  "stage_all ip [] = ip"
| "stage_all ip ((n, b) # r) = stage_all (snd (Stage_input ip n b)) r"

lemma stage_all_reachable: "inputs.reachable init ip \<Longrightarrow> inputs.reachable init (stage_all ip ops)"
proof (induction ip ops rule: stage_all.induct)
  case (2 ip n b r)
  have "inputs.reachable init (snd (Stage_input ip n b))"
    by (rule inputs.reachable.step [OF "2.prems"]) (rule prod.collapse [symmetric])
  from "2.IH" [OF this] show ?case by simp
qed simp

lemma staged_declared:
  "Get (stage_all (NewInputs env) ops) name = Some b \<Longrightarrow> declared_digest (NewInputs env) name b"
  by (rule inputs.reachable_get [OF stage_all_reachable [OF inputs.reachable.start]])
     (simp_all add: Get_def)

lemma readInput_ok:
  assumes "readInput sv req vals w (ip, s) = (w', ip', s')" "status_of w' = Some 200" "wSent w = None"
  shows "\<exists>sc b. srcConfirm (svScope sv) ForNewAuthorization s = (Inr sc, s')
    \<and> is_input_name (path_value vals) \<and> Get ip (path_value vals) = Some b
    \<and> w' = write_bytes b (set_header ''Connection'' ''close''
          (set_header ''Content-Type'' ''application/octet-stream'' w))"
proof -
  have f: "status_of (fail st c r w) = Some st" for st c r by (rule fail_status [OF assms(3)])
  have sc: "status_of (fst (answerScopeError (Some e) w)) \<noteq> Some 200" for e
    using assms(3) by (auto simp: answerScopeError_def)
  show ?thesis
    using assms(1,2) f sc
    by (cases "srcConfirm (svScope sv) ForNewAuthorization s")
       (auto simp: readInput_def with_scope_def Let_def split: if_splits sum.splits option.splits)
qed

lemma body_of_write_bytes: "wOut w = [] \<Longrightarrow> body_of (write_bytes b w) = b"
  by (simp add: body_of_def)

end
