(* ===== verification/Resolver.thy ===== *)
theory Resolver
  imports Routes
begin

text \<open>
  internal/app/app.go, the resolver: the scope source of the running sidecar, which is the
  Control client under the launch's binding with two lines of log; and the running server
  with its relays over the same history.  The interpretation \<open>live\<close> discharges the interface
  of Routes on them.
\<close>

section \<open>The world of the running process\<close>

text \<open>
  The resolver's three lines, "scope confirmed", "result submitted" and "progress reported",
  and those of the server, which share the process's log.
\<close>

datatype log_line =
    ScopeConfirmed string string time
  | ResultSubmitted string string string string
  | ProgressReported string string string string string string
  | ServerLine server_line

record world =
  woHist :: hist
  woAnnounced :: bool
  woLog :: "log_line list"

definition on_world :: "(hist \<Rightarrow> 'a \<times> hist) \<Rightarrow> world \<Rightarrow> 'a \<times> world" where
  "on_world f s = (case f (woHist s) of (r, h) \<Rightarrow> (r, s\<lparr>woHist := h\<rparr>))"

definition logged :: "log_line \<Rightarrow> world \<Rightarrow> world" where
  "logged l s = s\<lparr>woLog := woLog s @ [l]\<rparr>"

section \<open>The resolver\<close>

record resolver =
  reIdentity :: Identity
  reBinding :: Binding

definition resolver_Confirm :: "upstream \<Rightarrow> resolver \<Rightarrow> Purpose \<Rightarrow> world \<Rightarrow> (err + Scope) \<times> world" where
  "resolver_Confirm up re purpose s =
     (case on_world (Confirm up (reIdentity re) (reBinding re) purpose) s of
        (Inl e, s1) \<Rightarrow> (Inl e, s1)
      | (Inr sc, s1) \<Rightarrow>
          let first = \<not> woAnnounced s1; s2 = s1\<lparr>woAnnounced := True\<rparr> in
          (Inr sc, if first then logged (ScopeConfirmed (scAttemptID sc) (scInstanceID sc) (scDeadline sc)) s2 else s2))"

definition resolver_Submit ::
  "upstream \<Rightarrow> (nat \<Rightarrow> bool) \<Rightarrow> Scope \<Rightarrow> string \<Rightarrow> string \<Rightarrow> string \<Rightarrow> bytes \<Rightarrow> world \<Rightarrow> (err + Stage) \<times> world" where
  "resolver_Submit up pr sc verdict failureCode observer manifest s =
     on_world (Submit up pr sc verdict failureCode manifest)
       (logged (ResultSubmitted (scAttemptID sc) (scInstanceID sc) observer verdict) s)"

definition resolver_Progress ::
  "upstream \<Rightarrow> Scope \<Rightarrow> string \<Rightarrow> string \<Rightarrow> string \<Rightarrow> string \<Rightarrow> world \<Rightarrow> (err + ProgressRecord) \<times> world" where
  "resolver_Progress up sc node state rnd outcomeCode s =
     on_world (Progress up sc node state rnd outcomeCode)
       (logged (ProgressReported (scAttemptID sc) (scInstanceID sc) node state rnd outcomeCode) s)"

definition resolver_source :: "upstream \<Rightarrow> (nat \<Rightarrow> bool) \<Rightarrow> resolver \<Rightarrow> world scope_source" where
  "resolver_source up pr re =
     \<lparr>srcConfirm = resolver_Confirm up re,
      srcUpload = (\<lambda>sc class mediaType body. on_world (Upload up pr sc class mediaType body)),
      srcSubmit = resolver_Submit up pr,
      srcProgress = resolver_Progress up,
      srcAcceptedStage = (\<lambda>sc. on_world (AcceptedStage_read up sc)),
      srcPriorStage = (\<lambda>sc attemptID. on_world (PriorStage up sc attemptID)),
      srcLoad = (\<lambda>sc handle maxBytes. on_world (Load up pr sc handle maxBytes))\<rparr>"

section \<open>The running server\<close>

text \<open>Which of the three relays the configuration names.\<close>

record relays =
  ryModel :: bool
  ryMCP :: bool
  ryKnowledge :: bool

record wiring =
  wiTrustedUID :: uid
  wiCandidateUID :: uid
  wiTrustedToken :: string
  wiCandidateToken :: string
  wiEnvelope :: Envelope
  wiResolver :: resolver
  wiRelays :: relays
  wiLimits :: Limits

text \<open>\<open>accepts\<close> tells whether the caller's connection still takes a write.\<close>

definition sidecar :: "upstream \<Rightarrow> (writer \<Rightarrow> bytes \<Rightarrow> bool) \<Rightarrow> externals \<Rightarrow> wiring \<Rightarrow> world server" where
  "sidecar up accepts ext wi =
     \<lparr>svTrustedUID = wiTrustedUID wi, svCandidateUID = wiCandidateUID wi,
      svTrustedToken = wiTrustedToken wi, svCandidateToken = wiCandidateToken wi,
      svEnvelope = wiEnvelope wi, svScope = resolver_source up (printable ext) (wiResolver wi),
      svRelay = (if ryModel (wiRelays wi) then Some (\<lambda>w q d. on_world (Forward up accepts w q d)) else None),
      svMCP = (if ryMCP (wiRelays wi) then Some (\<lambda>q. on_world (Call up q)) else None),
      svKnowledge = (if ryKnowledge (wiRelays wi) then Some (\<lambda>q. on_world (Search up q)) else None),
      svLimits = wiLimits wi, svLog = (\<lambda>l. logged (ServerLine l)), svExt = ext\<rparr>"

text \<open>A scope Control confirmed with the last calls of a history.\<close>

definition confirmed :: "upstream \<Rightarrow> wiring \<Rightarrow> Purpose \<Rightarrow> Scope \<Rightarrow> hist \<Rightarrow> bool" where
  "confirmed up wi p sc h \<longleftrightarrow>
     (\<exists>h0. Confirm up (reIdentity (wiResolver wi)) (reBinding (wiResolver wi)) p h0 = (Inr sc, h))"

section \<open>The calls of the scope source\<close>

lemma on_world_hist: "on_world f s = (r, s') \<Longrightarrow> f (woHist s) = (r, woHist s')"
  by (auto simp: on_world_def split: prod.splits)

lemma on_world_same: "on_world f s = (r, s') \<Longrightarrow> woAnnounced s' = woAnnounced s \<and> woLog s' = woLog s"
  by (auto simp: on_world_def split: prod.splits)

lemma upload_scoped: "upload_calls sc c mt b calls \<Longrightarrow> list_all (scoped ForNewAuthorization sc) calls"
proof (induction sc c mt b calls rule: upload_calls.induct)
  case (2 sc c mt body b rest)
  then have "scoped ForNewAuthorization sc (BeginTransfer b)"
    by (auto simp: begin_request_def of_command_def command_def Let_def)
  moreover from 2 have "list_all (scoped ForNewAuthorization sc) rest"
    by (cases rule: upload_calls_cases) (simp_all add: finalize_request_def of_command_def command_def)
  ultimately show ?case by simp
qed simp_all

lemma load_scoped: "load_calls sc hn calls \<Longrightarrow> list_all (scoped ForNewAuthorization sc) calls"
  by (induction sc hn calls rule: load_calls.induct) auto

lemma Confirm_asks:
  "Confirm up ident b p h = (r, h') \<Longrightarrow> \<exists>calls. h' = h @ calls \<and> list_all asking calls"
  using Confirm_history [of up ident b p h] by auto

lemma resolver_Confirm_eq:
  assumes "resolver_Confirm up re p s = (r, s')"
  shows "Confirm up (reIdentity re) (reBinding re) p (woHist s) = (r, woHist s')"
  using assms
  by (auto simp: resolver_Confirm_def on_world_def logged_def Let_def split: prod.splits sum.splits if_splits)

lemma Submit_scoped:
  "Submit up pr sc v fc mf h = (r, h') \<Longrightarrow> \<exists>calls. h' = h @ calls \<and> list_all (scoped ForResult sc) calls"
  by (auto simp: Submit_eq accept_request_def of_command_def command_def Let_def split: option.splits)

lemma Progress_scoped:
  "Progress up sc n st rd oc h = (r, h') \<Longrightarrow> \<exists>calls. h' = h @ calls \<and> list_all (scoped ForNewAuthorization sc) calls"
  using Progress_history [of up sc n st rd oc h]
  by (auto simp: progress_request_def of_command_def command_def)

interpretation live: scope_interface "sidecar up accepts ext wi" woHist "confirmed up wi"
  for up accepts ext wi
proof unfold_locales
  fix p s r s'
  assume "srcConfirm (svScope (sidecar up accepts ext wi)) p s = (r, s')"
  then have c: "Confirm up (reIdentity (wiResolver wi)) (reBinding (wiResolver wi)) p (woHist s) = (r, woHist s')"
    by (simp add: sidecar_def resolver_source_def resolver_Confirm_eq)
  show "\<exists>calls. woHist s' = woHist s @ calls \<and> list_all asking calls" by (rule Confirm_asks [OF c])
next
  fix p s sc s'
  assume "srcConfirm (svScope (sidecar up accepts ext wi)) p s = (Inr sc, s')"
  then show "confirmed up wi p sc (woHist s')"
    unfolding confirmed_def by (auto simp: sidecar_def resolver_source_def dest!: resolver_Confirm_eq)
next
  fix sc c m b s r1 s'
  assume "srcUpload (svScope (sidecar up accepts ext wi)) sc c m b s = (r1, s')"
  then have "Upload up (printable ext) sc c m b (woHist s) = (r1, woHist s')"
    by (auto simp: sidecar_def resolver_source_def dest: on_world_hist)
  then show "\<exists>calls. woHist s' = woHist s @ calls \<and> list_all (scoped ForNewAuthorization sc) calls"
    using Upload_calls [of up "printable ext" sc c m b "woHist s"] upload_scoped by fastforce
next
  fix sc v fc ob mf s r2 s'
  assume "srcSubmit (svScope (sidecar up accepts ext wi)) sc v fc ob mf s = (r2, s')"
  then have "Submit up (printable ext) sc v fc mf (woHist s) = (r2, woHist s')"
    by (auto simp: sidecar_def resolver_source_def resolver_Submit_def logged_def dest!: on_world_hist)
  then show "\<exists>calls. woHist s' = woHist s @ calls \<and> list_all (scoped ForResult sc) calls"
    by (rule Submit_scoped)
next
  fix sc n st rd oc s r3 s'
  assume "srcProgress (svScope (sidecar up accepts ext wi)) sc n st rd oc s = (r3, s')"
  then have "Progress up sc n st rd oc (woHist s) = (r3, woHist s')"
    by (auto simp: sidecar_def resolver_source_def resolver_Progress_def logged_def dest!: on_world_hist)
  then show "\<exists>calls. woHist s' = woHist s @ calls \<and> list_all (scoped ForNewAuthorization sc) calls"
    by (rule Progress_scoped)
next
  fix sc s r4 s'
  assume "srcAcceptedStage (svScope (sidecar up accepts ext wi)) sc s = (r4, s')"
  then have "AcceptedStage_read up sc (woHist s) = (r4, woHist s')"
    by (auto simp: sidecar_def resolver_source_def dest: on_world_hist)
  then show "\<exists>calls. woHist s' = woHist s @ calls \<and> list_all (scoped ForResult sc) calls"
    by (intro exI [of _ "[GetAcceptedStage \<lparr>gsAttemptId = scAttemptID sc, gsTenantId = scTenantID sc, gsOperationId = []\<rparr>]"])
       (auto simp: AcceptedStage_read_def read_stage_eq)
next
  fix sc a s r5 s'
  assume "srcPriorStage (svScope (sidecar up accepts ext wi)) sc a s = (r5, s')"
  then have "PriorStage up sc a (woHist s) = (r5, woHist s')"
    by (auto simp: sidecar_def resolver_source_def dest: on_world_hist)
  then show "\<exists>calls. woHist s' = woHist s @ calls \<and> list_all (scoped ForResult sc) calls"
    by (intro exI [of _ "[GetAcceptedStage \<lparr>gsAttemptId = a, gsTenantId = scTenantID sc, gsOperationId = scOperationID sc\<rparr>]"])
       (auto simp: PriorStage_def read_stage_eq)
next
  fix sc hn mx s r6 s'
  assume "srcLoad (svScope (sidecar up accepts ext wi)) sc hn mx s = (r6, s')"
  then have "Load up (printable ext) sc hn mx (woHist s) = (r6, woHist s')"
    by (auto simp: sidecar_def resolver_source_def dest: on_world_hist)
  then show "\<exists>calls. woHist s' = woHist s @ calls \<and> list_all (scoped ForNewAuthorization sc) calls"
    using Load_calls [of up "printable ext" sc hn mx "woHist s"] load_scoped by fastforce
next
  fix fwd w q d s x s'
  assume "svRelay (sidecar up accepts ext wi) = Some fwd" "fwd w q d s = (x, s')"
  then have "Forward up accepts w q d (woHist s) = (x, woHist s')"
    by (auto simp: sidecar_def dest: on_world_hist split: if_splits)
  then show "woHist s' = woHist s @ [CreateModelCall q]"
    by (auto simp: Forward_def rpc_def Let_def split: sum.splits if_splits)
next
  fix fwd pf w q d s e w' s'
  assume "svRelay (sidecar up accepts ext wi) = Some fwd" and c: "carries pf w" and f: "fwd w q d s = ((e, w'), s')"
  then have "Forward up accepts w q d (woHist s) = ((e, w'), woHist s')"
    by (auto simp: sidecar_def dest: on_world_hist split: if_splits)
  from answered_Forward [OF c this] show "carries pf w' \<and> (e = None \<longrightarrow> answered pf w')" by simp
next
  fix call cq s r7 s'
  assume "svMCP (sidecar up accepts ext wi) = Some call" "call cq s = (r7, s')"
  then have "Call up cq (woHist s) = (r7, woHist s')"
    by (auto simp: sidecar_def dest: on_world_hist split: if_splits)
  then show "woHist s' = woHist s @ [CreateCall cq]" by (simp add: Call_def rpc_def)
next
  fix search kq s r8 s'
  assume "svKnowledge (sidecar up accepts ext wi) = Some search" "search kq s = (r8, s')"
  then have "Search up kq (woHist s) = (r8, woHist s')"
    by (auto simp: sidecar_def dest: on_world_hist split: if_splits)
  then show "woHist s' = woHist s @ [KnowledgeSearch kq]" by (simp add: Search_def rpc_def)
qed (simp add: sidecar_def logged_def)

end
