(* ===== verification/App.thy ===== *)
theory App
  imports Dial Resolver
begin

text \<open>
  internal/app/app.go, \<open>Run\<close>, and cmd/anvilkit-job-access-sidecar/main.go: the order in
  which the process checks, reads, dials, binds and serves, what it gives back when it
  stops, and the exit codes.
\<close>

datatype run_error =
    ProfileDisabled
  | WrongUID uid
  | EnvelopeRefused envelope_error
  | IdentityRefused material_error
  | ControlClientFailed dial_error
  | LaunchKeyMismatch string string
  | SecretRefused peer_error
  | SocketsFailed socket_error
  | ModelRelayFailed relay_error
  | MCPRelayFailed dial_error
  | KnowledgeRelayFailed dial_error
  | ServeFailed string
  | NilDereference

section \<open>What the process holds\<close>

text \<open>
  What the process logs of itself: "DEVELOPMENT_ONLY identity", "DEVELOPMENT_ONLY model proxy
  identity", the three relays that are not configured, "access sidecar serving" with the two
  names, the launch key, the backend, the identity mode and whether the model and the MCP relay
  are there, "configuration rejected" and "sidecar stopped" with their errors.  The lines
  "connection refused at accept" are the peers in \<open>alRejected\<close> of the accept loop's log.
\<close>

datatype run_line =
    DevelopmentIdentity
  | DevelopmentProxyIdentity
  | NoModelProxy
  | NoMCP
  | NoKnowledge
  | Serving string string string string string bool bool
  | ConfigurationRejected "load_error + config_error list"
  | SidecarStopped run_error

text \<open>
  What a run changes outside the process's own values: the tick of the mounted files, the
  socket names held in the network namespace, the number of reloaders that poll, the open
  gRPC connections, the calls \<open>Run\<close> has deferred, the last one first, the servers it shut
  down gracefully (the names of their sockets, in order, with the timeout they share), and its log.
\<close>

datatype deferred = StopReloader | CloseConn | CloseLayout Layout

record system =
  syTick :: nat
  syHeld :: "string list"
  syPolling :: nat
  syConns :: nat
  syDeferred :: "deferred list"
  syShutdown :: "(string \<times> duration) list"
  syLog :: "run_line list"

fun undo :: "deferred \<Rightarrow> system \<Rightarrow> system" where
  "undo StopReloader y = y\<lparr>syPolling := syPolling y - 1\<rparr>"
| "undo CloseConn y = y\<lparr>syConns := syConns y - 1\<rparr>"
| "undo (CloseLayout l) y = y\<lparr>syHeld := Layout_Close l (syHeld y)\<rparr>"

text \<open>The deferred calls run in reverse order when the function returns.\<close>

definition unwind :: "system \<Rightarrow> system" where
  "unwind y = (fold undo (syDeferred y) y)\<lparr>syDeferred := []\<rparr>"

definition defers :: "deferred \<Rightarrow> system \<Rightarrow> system" where
  "defers d y = y\<lparr>syDeferred := d # syDeferred y\<rparr>"

definition says :: "run_line \<Rightarrow> system \<Rightarrow> system" where
  "says l y = y\<lparr>syLog := syLog y @ [l]\<rparr>"

text \<open>A computation on the mounted files, in the system.\<close>

definition on_tick :: "(nat \<Rightarrow> 'a \<times> nat) \<Rightarrow> system \<Rightarrow> 'a \<times> system" where
  "on_tick f y = (case f (syTick y) of (r, t) \<Rightarrow> (r, y\<lparr>syTick := t\<rparr>))"

definition polling :: "system \<Rightarrow> system" where
  "polling y = defers StopReloader (y\<lparr>syPolling := syPolling y + 1\<rparr>)"

definition connected :: "system \<Rightarrow> system" where
  "connected y = defers CloseConn (y\<lparr>syConns := syConns y + 1\<rparr>)"

section \<open>Before the sockets\<close>

definition start_identity :: "host \<Rightarrow> Config \<Rightarrow> system \<Rightarrow> (run_error + TLSFiles option) \<times> system" where
  "start_identity ho cfg y =
     (if icMode (cfIdentity cfg) = IdentityMTLS
      then let m = icMTLS (cfIdentity cfg) in
        (case on_tick (New (hoPKI ho) (hoMount ho)
                \<lparr>fiCertFile = mtCertFile m, fiKeyFile = mtKeyFile m, fiCAFile = mtCAFile m\<rparr> 0) y of
           (Inl e, y') \<Rightarrow> (Inl (IdentityRefused e), y')
         | (Inr r, y') \<Rightarrow>
             (Inr (Some \<lparr>tfCertFile = mtCertFile m, tfKeyFile = mtKeyFile m, tfCAFile = mtCAFile m,
                     tfServerName = mtServerName m, tfReloader = Some (Start r)\<rparr>), polling y'))
      else (Inr None, says DevelopmentIdentity y))"

record prepared =
  ppEnvelope :: Envelope
  ppFiles :: "TLSFiles option"
  ppClient :: ControlClient
  ppBinding :: Binding
  ppSecret :: bytes

definition launch_identity :: "Config \<Rightarrow> Identity" where
  "launch_identity cfg =
     \<lparr>idBackend = laBackend (cfLaunch cfg), idLaunchKey = laLaunchKey (cfLaunch cfg),
      idPodUID = laPodUID (cfLaunch cfg)\<rparr>"

definition launch_binding :: "Config \<Rightarrow> Envelope \<Rightarrow> Binding" where
  "launch_binding cfg env =
     \<lparr>bdOperationID = eOperationID env, bdAttemptID = eAttemptID env, bdProfileID = eProfileID env,
      bdLaunchKey = laLaunchKey (cfLaunch cfg), bdExecutionEpoch = eExecutionEpoch env,
      bdLaunchEpoch = eLaunchEpoch env\<rparr>"

text \<open>The client of Control; its connection is closed when \<open>Run\<close> returns.\<close>

definition dial_control :: "host \<Rightarrow> Config \<Rightarrow> TLSFiles option \<Rightarrow> system \<Rightarrow> (run_error + ControlClient) \<times> system" where
  "dial_control ho cfg files y =
     (case on_tick (Dial ho (launch_identity cfg)
             \<lparr>opAddress = ccAddress (cfControl cfg), opTimeout = ccTimeout (cfControl cfg),
              opTLS = files, opUpload = Some (liUploadTimeout (cfLimits cfg))\<rparr>) y of
        (Inl e, y') \<Rightarrow> (Inl (ControlClientFailed e), y')
      | (Inr client, y') \<Rightarrow> (Inr client, connected y'))"

definition prepare :: "host \<Rightarrow> Config \<Rightarrow> system \<Rightarrow> (run_error + prepared) \<times> system" where
  "prepare ho cfg y =
     (if Disabled cfg then (Inl ProfileDisabled, y)
      else if hoUID ho \<noteq> scOwnerUID (cfSockets cfg) \<or> hoEUID ho \<noteq> scOwnerUID (cfSockets cfg)
      then (Inl (WrongUID (hoUID ho)), y)
      else (case Parse (laEnvelope (cfLaunch cfg)) of
              Inl e \<Rightarrow> (Inl (EnvelopeRefused e), y)
            | Inr env \<Rightarrow>
                (case start_identity ho cfg y of
                   (Inl e, y1) \<Rightarrow> (Inl e, y1)
                 | (Inr files, y1) \<Rightarrow>
                     (case dial_control ho cfg files y1 of
                        (Inl e, y2) \<Rightarrow> (Inl e, y2)
                      | (Inr client, y2) \<Rightarrow>
                          if eLaunchKey env \<noteq> laLaunchKey (cfLaunch cfg)
                          then (Inl (LaunchKeyMismatch (eLaunchKey env) (laLaunchKey (cfLaunch cfg))), y2)
                          else (case ParseSecret (laSecret (cfLaunch cfg)) of
                                  Inl e \<Rightarrow> (Inl (SecretRefused e), y2)
                                | Inr secret \<Rightarrow>
                                    (Inr \<lparr>ppEnvelope = env, ppFiles = files, ppClient = client,
                                       ppBinding = launch_binding cfg env, ppSecret = secret\<rparr>, y2))))))"

section \<open>The relays\<close>

definition with_server_name :: "string \<Rightarrow> TLSFiles option \<Rightarrow> TLSFiles option" where
  "with_server_name name files = map_option (\<lambda>f. f\<lparr>tfServerName := name\<rparr>) files"

text \<open>The options of the model relay; a nil identity is dereferenced when its mode is mtls.\<close>

definition relay_options :: "Config \<Rightarrow> TLSFiles option \<Rightarrow> run_error + RelayOptions" where
  "relay_options cfg files =
     (let p = cfModelProxy cfg;
          o' = \<lparr>roURL = mpURL p, roToken = [], roTLS = None, roTimeout = mpTimeout p\<rparr> in
      if mpIdentityMode p = IdentityMTLS
      then (case files of
              None \<Rightarrow> Inl NilDereference
            | Some f \<Rightarrow> Inr (o'\<lparr>roTLS := Some (f\<lparr>tfServerName := mpServerName p\<rparr>)\<rparr>))
      else Inr (o'\<lparr>roToken := mpToken p\<rparr>))"

text \<open>The relay, and the shared files after its transport registered its callback.\<close>

definition start_model :: "host \<Rightarrow> Config \<Rightarrow> TLSFiles option \<Rightarrow> system \<Rightarrow> (run_error + Relay option \<times> TLSFiles option) \<times> system" where
  "start_model ho cfg files y =
     (if mpURL (cfModelProxy cfg) = [] then (Inr (None, files), says NoModelProxy y)
      else let y0 = (if mpIdentityMode (cfModelProxy cfg) = IdentityMTLS then y else says DevelopmentProxyIdentity y) in
           (case relay_options cfg files of
              Inl e \<Rightarrow> (Inl e, y0)
            | Inr o' \<Rightarrow>
                (case on_tick (NewRelay ho o') y0 of
                   (Inl e, y') \<Rightarrow> (Inl (ModelRelayFailed e), y')
                 | (Inr (rl, None), y') \<Rightarrow> (Inr (Some rl, files), y')
                 | (Inr (rl, Some f), y') \<Rightarrow>
                     (Inr (Some rl, map_option (\<lambda>g. g\<lparr>tfReloader := tfReloader f\<rparr>) files), y'))))"

definition start_mcp :: "host \<Rightarrow> Config \<Rightarrow> TLSFiles option \<Rightarrow> system \<Rightarrow> (run_error + GrpcRelay option) \<times> system" where
  "start_mcp ho cfg files y =
     (if mcAddress (cfMCP cfg) = [] then (Inr None, says NoMCP y)
      else (case on_tick (NewMCPRelay ho (mcAddress (cfMCP cfg)) (with_server_name (mcServerName (cfMCP cfg)) files)
                   (mcTimeout (cfMCP cfg))) y of
              (Inl e, y') \<Rightarrow> (Inl (MCPRelayFailed e), y')
            | (Inr m, y') \<Rightarrow> (Inr (Some m), connected y')))"

definition start_knowledge :: "host \<Rightarrow> Config \<Rightarrow> TLSFiles option \<Rightarrow> system \<Rightarrow> (run_error + GrpcRelay option) \<times> system" where
  "start_knowledge ho cfg files y =
     (if knAddress (cfKnowledge cfg) = [] then (Inr None, says NoKnowledge y)
      else (case on_tick (NewKnowledgeRelay ho (knAddress (cfKnowledge cfg))
                   (with_server_name (knServerName (cfKnowledge cfg)) files) (knTimeout (cfKnowledge cfg))) y of
              (Inl e, y') \<Rightarrow> (Inl (KnowledgeRelayFailed e), y')
            | (Inr k, y') \<Rightarrow> (Inr (Some k), connected y')))"

record started =
  stModel :: "Relay option"
  stMCP :: "GrpcRelay option"
  stKnowledge :: "GrpcRelay option"
  stFiles :: "TLSFiles option"

definition start_relays :: "host \<Rightarrow> Config \<Rightarrow> TLSFiles option \<Rightarrow> system \<Rightarrow> (run_error + started) \<times> system" where
  "start_relays ho cfg files y =
     (case start_model ho cfg files y of
        (Inl e, y1) \<Rightarrow> (Inl e, y1)
      | (Inr (model, files'), y1) \<Rightarrow>
          (case start_mcp ho cfg files' y1 of
             (Inl e, y2) \<Rightarrow> (Inl e, y2)
           | (Inr mcp, y2) \<Rightarrow>
               (case start_knowledge ho cfg files' y2 of
                  (Inl e, y3) \<Rightarrow> (Inl e, y3)
                | (Inr kn, y3) \<Rightarrow>
                    (Inr \<lparr>stModel = model, stMCP = mcp, stKnowledge = kn, stFiles = files'\<rparr>, y3))))"

section \<open>Serving\<close>

record process =
  poPrepared :: prepared
  poLayout :: Layout
  poStarted :: started
  poWiring :: wiring

definition wiring_of :: "Config \<Rightarrow> prepared \<Rightarrow> started \<Rightarrow> wiring" where
  "wiring_of cfg pp st =
     \<lparr>wiTrustedUID = scTrustedUID (cfSockets cfg), wiCandidateUID = scCandidateUID (cfSockets cfg),
      wiTrustedToken = Token (ppSecret pp) RoleTrusted, wiCandidateToken = Token (ppSecret pp) RoleCandidate,
      wiEnvelope = ppEnvelope pp,
      wiResolver = \<lparr>reIdentity = coIdentity (ppClient pp), reBinding = ppBinding pp\<rparr>,
      wiRelays = \<lparr>ryModel = (stModel st \<noteq> None), ryMCP = (stMCP st \<noteq> None), ryKnowledge = (stKnowledge st \<noteq> None)\<rparr>,
      wiLimits =
        \<lparr>lmMaxInputBytes = liMaxInputBytes (cfLimits cfg), lmMaxTransferBytes = liMaxTransferBytes (cfLimits cfg),
         lmMaxManifestBytes = liMaxManifestBytes (cfLimits cfg), lmRequestTimeout = liRequestTimeout (cfLimits cfg)\<rparr>\<rparr>"

text \<open>Both sockets; the layout is closed when \<open>Run\<close> returns.\<close>

definition bind_sockets :: "host \<Rightarrow> Config \<Rightarrow> system \<Rightarrow> (run_error + Layout) \<times> system" where
  "bind_sockets ho cfg y =
     (case Create (hoBindFails ho) (scTrustedName (cfSockets cfg)) (scCandidateName (cfSockets cfg))
             (scTrustedUID (cfSockets cfg)) (scCandidateUID (cfSockets cfg)) (syHeld y) of
        (Inl e, held) \<Rightarrow> (Inl (SocketsFailed e), y\<lparr>syHeld := held\<rparr>)
      | (Inr layout, held) \<Rightarrow> (Inr layout, defers (CloseLayout layout) (y\<lparr>syHeld := held\<rparr>)))"

definition serving_line :: "Config \<Rightarrow> started \<Rightarrow> run_line" where
  "serving_line cfg rs =
     Serving (scTrustedName (cfSockets cfg)) (scCandidateName (cfSockets cfg)) (laLaunchKey (cfLaunch cfg))
       (laBackend (cfLaunch cfg)) (icMode (cfIdentity cfg)) (stModel rs \<noteq> None) (stMCP rs \<noteq> None)"

definition start :: "host \<Rightarrow> Config \<Rightarrow> system \<Rightarrow> (run_error + process) \<times> system" where
  "start ho cfg y =
     (case prepare ho cfg y of
        (Inl e, y1) \<Rightarrow> (Inl e, y1)
      | (Inr pp, y1) \<Rightarrow>
          (case bind_sockets ho cfg y1 of
             (Inl e, y2) \<Rightarrow> (Inl e, y2)
           | (Inr layout, y2) \<Rightarrow>
               (case start_relays ho cfg (ppFiles pp) y2 of
                  (Inl e, y3) \<Rightarrow> (Inl e, y3)
                | (Inr rs, y3) \<Rightarrow>
                    (Inr \<lparr>poPrepared = pp, poLayout = layout, poStarted = rs,
                       poWiring = wiring_of cfg pp rs\<rparr>, says (serving_line cfg rs) y3))))"

text \<open>What ends the serving: the context, or the first of the two servers to return.\<close>

datatype serve_end = ContextDone | ServerClosed | ServerReturned "string option"

text \<open>
  Unless a server returned an error, both servers are shut down, the trusted one first, within
  one timeout.
\<close>

definition shutdown :: "Config \<Rightarrow> process \<Rightarrow> system \<Rightarrow> system" where
  "shutdown cfg po y =
     y\<lparr>syShutdown := syShutdown y @
         [(lnName (loTrusted (poLayout po)), cfShutdownTimeout cfg), (lnName (loCandidate (poLayout po)), cfShutdownTimeout cfg)]\<rparr>"

definition Run :: "host \<Rightarrow> Config \<Rightarrow> serve_end \<Rightarrow> system \<Rightarrow> run_error option \<times> system" where
  "Run ho cfg ending y =
     (case start ho cfg y of
        (Inl e, y') \<Rightarrow> (Some e, unwind y')
      | (Inr po, y') \<Rightarrow>
          (case ending of
              ServerReturned (Some e) \<Rightarrow> (Some (ServeFailed e), unwind y')
            | _ \<Rightarrow> (None, unwind (shutdown cfg po y'))))"

text \<open>The exit code of the process: 2 for a rejected configuration, 1 for a failed run.\<close>

definition main ::
  "loader \<Rightarrow> (string \<Rightarrow> string) \<Rightarrow> string list \<Rightarrow> host \<Rightarrow> serve_end \<Rightarrow> system \<Rightarrow> int \<times> system" where
  "main ld getenv environ ho ending y =
     (case Load_config ld getenv environ of
        Inl e \<Rightarrow> (2, says (ConfigurationRejected (Inl e)) y)
      | Inr (cfg, errs) \<Rightarrow>
          if errs \<noteq> [] then (2, says (ConfigurationRejected (Inr errs)) y)
          else (case Run ho cfg ending y of
                  (Some e, y') \<Rightarrow> (1, says (SidecarStopped e) y')
                | (None, y') \<Rightarrow> (0, y')))"

end
