(* ===== verification/Samples.thy ===== *)
theory Samples
  imports App
begin

text \<open>
  One concrete launch and its surroundings, at which the properties with hypotheses are
  applied: the registration Control answers, an upstream that answers it, the externals and
  the wiring of a running sidecar, and a host it starts on.
\<close>

section \<open>The launch\<close>

definition sample_identity :: Identity where
  "sample_identity = \<lparr>idBackend = ''k8s'', idLaunchKey = ''launch-1'', idPodUID = ''pod-1''\<rparr>"

definition sample_binding :: Binding where
  "sample_binding =
     \<lparr>bdOperationID = ''op-1'', bdAttemptID = ''att-1'', bdProfileID = ''prof-1'', bdLaunchKey = ''launch-1'',
      bdExecutionEpoch = ''3'', bdLaunchEpoch = ''1''\<rparr>"

definition sample_instance :: PhysicalInstance where
  "sample_instance =
     \<lparr>piInstanceId = ''inst-1'', piAttemptId = ''att-1'', piBackend = ''k8s'', piLaunchKey = ''launch-1'',
      piPodUid = ''pod-1'', piLaunchEpoch = ''1'', piCurrent = True\<rparr>"

definition sample_attempt :: Attempt where
  "sample_attempt =
     \<lparr>atAttemptId = ''att-1'', atOperationId = ''op-1'', atProfileId = ''prof-1'', atExecutionEpoch = ''3'',
      atState = RUNNING, atDeadline = Some 1000\<rparr>"

definition sample_operation :: "Lifecycle \<Rightarrow> ControlState \<Rightarrow> OperationView" where
  "sample_operation l c =
     \<lparr>opOperationId = ''op-1'', opExecutionEpoch = ''3'', opLifecycle = l, opControl = c, opDeadline = None,
      opProjectId = ''proj-1'', opActorId = ''actor-1''\<rparr>"

definition sample_response :: "Lifecycle \<Rightarrow> ControlState \<Rightarrow> GetInstanceResponse" where
  "sample_response l c =
     \<lparr>giTenantId = ''tenant-1'', giRecoveryEpoch = ''0'', giInstance = Some sample_instance,
      giAttempt = Some sample_attempt, giOperation = Some (sample_operation l c), giBudgetHeadroom = None\<rparr>"

abbreviation "sample_running \<equiv> sample_response (Lifecycle_other ''LIFECYCLE_RUNNING'') CTL_NONE"

definition sample_registration :: Registration where
  "sample_registration = registration_of sample_running"

definition sample_scope :: Scope where
  "sample_scope = rgScope sample_registration"

section \<open>Upstream\<close>

definition refused :: "'q \<Rightarrow> 'r \<Rightarrow> rpc_error + 'a" where
  "refused h q = Inl (Status Unavailable ''down'')"

text \<open>Control answers the registration and one object; the other peers are down.\<close>

definition sample_upstream :: upstream where
  "sample_upstream =
     \<lparr>clock = (\<lambda>h. 5), getInstance = (\<lambda>h q. Inr sample_running), beginTransfer = refused,
      finalizeTransfer = refused,
      readArtifact = (\<lambda>h q. Inr
        \<lparr>raTransfer = Some \<lparr>arHandle = ''h-1'', arTransferId = ''t-1'', arState = FINALIZED, arObjectVersion = ''v1'',
           arReasonCode = [], arExpectedSize = ''2'', arExpectedDigest = DigestOf ''{}'', arClass = BRIEF\<rparr>,
         raDownload = Some \<lparr>capMethod = ''GET'', capUrl = ''https://store/o'', capHeaders = []\<rparr>\<rparr>),
      acceptResult = refused, getAcceptedStage = refused, recordAttemptProgress = refused,
      newRequest = (\<lambda>m u. None),
      httpDo = (\<lambda>h q. Some \<lparr>hpStatus = 200, hpHeaders = [], hpBody = ''{}'', hpTorn = False\<rparr>),
      createModelCall = (\<lambda>h q. Inl ''down''), createCall = refused, knowledgeSearchRpc = refused\<rparr>"

definition sample_externals :: externals where
  "sample_externals =
     \<lparr>dec_message = (\<lambda>key old j. Some j), zero_message = JNull, dec_tool = (\<lambda>key old j. Some j), zero_tool = JNull,
      dec_money = (\<lambda>key old j. Some \<lparr>moCurrency = ''USD'', moAmount = ''1''\<rparr>),
      marshal_binding = (\<lambda>b. ebAttemptId b), json_error = (\<lambda>target raw. ''bad json''),
      time_error = (\<lambda>s. ''bad time''), printable = (\<lambda>n. 32 \<le> n), redirect_status = 307,
      redirect_target = (\<lambda>p. p), redirect_body = (\<lambda>p. [])\<rparr>"

section \<open>The running sidecar\<close>

definition sample_envelope :: Envelope where
  "sample_envelope =
     \<lparr>eSchemaVersion = 1, eLaunchID = ''l-1'', eLaunchKey = ''launch-1'', eOperationID = ''op-1'',
      eAttemptID = ''att-1'', eProfileID = ''prof-1'', eProfileRevision = ''1'', eJobKind = ''verify'',
      eExecutionEpoch = ''3'', eLaunchEpoch = ''1'', eDeadline = [], eComponent = None,
      eInputs = ([\<lparr>inName = ''brief'', inDigest = DigestOf ''{}'', inHandle = ''h-1''\<rparr>], 0)\<rparr>"

definition sample_secret :: bytes where
  "sample_secret = replicate 32 CHR ''k''"

definition sample_wiring :: wiring where
  "sample_wiring =
     \<lparr>wiTrustedUID = 10000, wiCandidateUID = 10001,
      wiTrustedToken = replicate 64 CHR ''a'', wiCandidateToken = replicate 64 CHR ''b'',
      wiEnvelope = sample_envelope,
      wiResolver = \<lparr>reIdentity = sample_identity, reBinding = sample_binding\<rparr>,
      wiRelays = \<lparr>ryModel = True, ryMCP = True, ryKnowledge = True\<rparr>,
      wiLimits = \<lparr>lmMaxInputBytes = 1048576, lmMaxTransferBytes = 67108864, lmMaxManifestBytes = 16384,
        lmRequestTimeout = 60 * second\<rparr>\<rparr>"

abbreviation "sample_sidecar \<equiv> sidecar sample_upstream (\<lambda>w b. True) sample_externals sample_wiring"

definition sample_world :: world where
  "sample_world = \<lparr>woHist = [], woAnnounced = False, woLog = []\<rparr>"

section \<open>A workload identity and its files\<close>

definition sample_principal :: Principal where
  "sample_principal = \<lparr>prTrustDomain = ''anvilkit.example'', prNamespace = ''jobs'', prServiceAccount = ''sidecar''\<rparr>"

definition sample_ca :: Certificate where
  "sample_ca =
     \<lparr>certRaw = ''ca-1'', certIsCA = True, certNotBefore = 0, certNotAfter = 100, certSubject = ''CN=ca'', certURIs = []\<rparr>"

definition sample_leaf :: Certificate where
  "sample_leaf =
     \<lparr>certRaw = ''leaf'', certIsCA = False, certNotBefore = 0, certNotAfter = 100, certSubject = ''CN=leaf'',
      certURIs = [Some (principal_url sample_principal)]\<rparr>"

text \<open>A decoder of one block: the text up to a newline is a certificate.\<close>

definition sample_pki :: pki where
  "sample_pki =
     \<lparr>x509_key_pair = (\<lambda>c k. Inr \<lparr>tlChain = [c], tlKey = k, tlLeaf = None\<rparr>),
      parse_certificate = (\<lambda>der. if der = ''leaf'' then Inr sample_leaf else if der = ''ca-1'' then Inr sample_ca else Inl ''asn1''),
      pem_decode = (\<lambda>s. if s = [] then None else Some (\<lparr>blType = ''CERTIFICATE'', blBytes = s\<rparr>, []))\<rparr>"

definition sample_mount :: mount where
  "sample_mount =
     \<lparr>read_at = (\<lambda>t p. if p = ''crt'' then Inr ''leaf'' else if p = ''key'' then Inr ''k'' else Inr ''ca-1''),
      clock_at = (\<lambda>t. 5)\<rparr>"

definition sample_files :: Files where
  "sample_files = \<lparr>fiCertFile = ''crt'', fiKeyFile = ''key'', fiCAFile = ''ca''\<rparr>"

definition sample_material :: Material where
  "sample_material =
     \<lparr>maCertificate = \<lparr>tlChain = [''leaf''], tlKey = ''k'', tlLeaf = Some sample_leaf\<rparr>, maLeaf = sample_leaf,
      maPool = [sample_ca], maRoots = [(fingerprint sample_ca, sample_ca)],
      maDigest = sha256 (files_bytes ''leaf'' ''k'' ''ca-1'')\<rparr>"

lemma sample_new:
  "New sample_pki sample_mount sample_files 0 0 =
     (Inr \<lparr>rlFiles = sample_files, rlInterval = 5 * second, rlCurrent = sample_material, rlFailures = 0,
        rlOnChange = [], rlPolling = False, rlLog = []\<rparr>, 3)"
  by (simp add: New_def sample_files_def Load_material_def sample_mount_def Parse_material_def sample_pki_def
      sample_leaf_def sample_ca_def sample_material_def numeral_eq_Suc Let_def)

section \<open>The launch is authorized\<close>

lemma sample_authority: "authority sample_registration sample_binding 5 p"
  by (cases p)
     (simp_all add: authority_def sample_registration_def registration_of_def sample_response_def sample_binding_def
       sample_instance_def sample_attempt_def sample_operation_def names_launch_def belong_together_def
       in_time_def ended_def Let_def)

lemma sample_confirm:
  "Confirm sample_upstream sample_identity sample_binding p [] =
     (Inr sample_scope, [GetInstance (instance_query sample_identity), ReadClock])"
proof -
  have "same_pod sample_identity sample_running"
    by (simp add: same_pod_def sample_response_def sample_instance_def sample_identity_def)
  then show ?thesis
    using sample_authority [of p]
    by (simp add: Confirm_Inr sample_upstream_def sample_scope_def sample_registration_def)
qed

end
