(* ===== verification/Authorization.thy ===== *)
theory Authorization
  imports Samples
begin

text \<open>
  The properties of the authority decision and of the operations on Control: when a
  registration carries authority and how a refusal is classified, what a confirmed scope
  is, and what an upload, a download, a submission and a bound relay request are.
\<close>

section \<open>The decision\<close>

text \<open>
  C2: Registration.Confirm authorizes exactly when the registration is complete, names the
  launch the envelope bound (attempt, operation, profile, launch key, both epochs), its
  three records belong together under one execution epoch, the instance is current, the
  attempt is open for the purpose, the operation is not fenced for the purpose and the
  deadlines of the attempt and the operation are in the future.
\<close>

theorem Confirm_decides: "Registration_Confirm r b now p = Inr () \<longleftrightarrow> authority r b now p"
  by (rule Registration_Confirm_Inr)

text \<open>The answer is one that can be decided: complete, of one attempt and operation.\<close>

definition coherent :: "Registration \<Rightarrow> Binding \<Rightarrow> bool" where
  "coherent r b \<longleftrightarrow>
     (\<exists>inst at op. rgInstance r = Some inst \<and> rgAttempt r = Some at \<and> rgOperation r = Some op
        \<and> \<not> (atAttemptId at = bdAttemptID b \<and> atOperationId at = bdOperationID b
              \<and> atProfileId at = bdProfileID b \<and> piLaunchKey inst = bdLaunchKey b
              \<and> (piAttemptId inst \<noteq> atAttemptId at \<or> opOperationId op \<noteq> atOperationId at)))"

lemma authority_clock:
  "(\<exists>t. authority r b t p) \<longleftrightarrow>
     (\<exists>inst at op. rgInstance r = Some inst \<and> rgAttempt r = Some at \<and> rgOperation r = Some op
        \<and> names_launch inst at b \<and> belong_together inst at op \<and> piCurrent inst
        \<and> open_attempt p (atState at) \<and> unfenced p op)"
proof
  assume "\<exists>inst at op. rgInstance r = Some inst \<and> rgAttempt r = Some at \<and> rgOperation r = Some op
        \<and> names_launch inst at b \<and> belong_together inst at op \<and> piCurrent inst
        \<and> open_attempt p (atState at) \<and> unfenced p op"
  then obtain inst at op where a: "rgInstance r = Some inst" "rgAttempt r = Some at" "rgOperation r = Some op"
     "names_launch inst at b" "belong_together inst at op" "piCurrent inst"
     "open_attempt p (atState at)" "unfenced p op" by blast
  have "in_time at op (min (as_time (atDeadline at)) (as_time (opDeadline op)) - 1)"
    by (auto simp: in_time_def split: option.splits)
  with a show "\<exists>t. authority r b t p" by (auto simp: authority_def)
qed (auto simp: authority_def)

lemma refusal_chain:
  "case (if c1 then Inl (Wrapped ErrNoAuthority m1) else if c2 then Inl (Wrapped ErrUnavailable m2)
         else if c3 then Inl (Wrapped ErrNoAuthority m3) else if c4 then Inl (Plain ErrNoAuthority)
         else if c5 then Inl (Wrapped ErrStale m5) else if c6 then Inl (Wrapped ErrStale m6)
         else if c7 then Inl (Wrapped ErrStale m7) else if c8 then Inl (Plain ErrDeadline)
         else if c9 then Inl (Wrapped ErrDeadline m9) else Inr ()) of
     Inr _ \<Rightarrow> True
   | Inl e \<Rightarrow> sentinel_of e \<in> {ErrUnavailable, ErrNoAuthority, ErrStale, ErrDeadline}
       \<and> (sentinel_of e = ErrUnavailable \<longleftrightarrow> \<not> c1 \<and> c2)
       \<and> (sentinel_of e = ErrDeadline \<longleftrightarrow> \<not> (c1 \<or> c2 \<or> c3 \<or> c4 \<or> c5 \<or> c6 \<or> c7))"
  by simp

text \<open>
  C19: A refusal is classified by what would lift it: an answer of Control that is incomplete
  or incoherent is ErrUnavailable (the caller retries), one that an earlier clock would have
  authorized is ErrDeadline, and everything else is ErrNoAuthority or ErrStale.
\<close>

theorem Confirm_classifies:
  "case Registration_Confirm r b now p of
     Inr _ \<Rightarrow> True
   | Inl e \<Rightarrow> sentinel_of e \<in> {ErrUnavailable, ErrNoAuthority, ErrStale, ErrDeadline}
       \<and> (sentinel_of e = ErrUnavailable \<longleftrightarrow> \<not> coherent r b)
       \<and> (sentinel_of e = ErrDeadline \<longleftrightarrow> (\<exists>t. authority r b t p))"
proof -
  consider (all) inst at op where "rgInstance r = Some inst" "rgAttempt r = Some at" "rgOperation r = Some op"
    | (none) "rgInstance r = None \<or> rgAttempt r = None \<or> rgOperation r = None" by fastforce
  then show ?thesis
  proof cases
    case all
    then have ex: "(\<exists>t. authority r b t p) \<longleftrightarrow> names_launch inst at b \<and> belong_together inst at op \<and> piCurrent inst
        \<and> open_attempt p (atState at) \<and> unfenced p op" unfolding authority_clock by simp
    have co: "coherent r b \<longleftrightarrow> \<not> (atAttemptId at = bdAttemptID b \<and> atOperationId at = bdOperationID b
        \<and> atProfileId at = bdProfileID b \<and> piLaunchKey inst = bdLaunchKey b
        \<and> (piAttemptId inst \<noteq> atAttemptId at \<or> opOperationId op \<noteq> atOperationId at))"
      using all by (simp add: coherent_def)
    let ?c1 = "atAttemptId at \<noteq> bdAttemptID b \<or> atOperationId at \<noteq> bdOperationID b
        \<or> atProfileId at \<noteq> bdProfileID b \<or> piLaunchKey inst \<noteq> bdLaunchKey b"
    let ?c2 = "piAttemptId inst \<noteq> atAttemptId at \<or> opOperationId op \<noteq> atOperationId at"
    let ?c3 = "atExecutionEpoch at \<noteq> bdExecutionEpoch b \<or> piLaunchEpoch inst \<noteq> bdLaunchEpoch b"
    let ?c5 = "\<not> executing_state (atState at) \<and> \<not> (p = ForResult \<and> atState at = RESULT_ACCEPTED)"
    let ?c6 = "opExecutionEpoch op \<noteq> atExecutionEpoch at"
    let ?c7 = "(controlled_state (opControl op) \<or> terminal_lifecycle (opLifecycle op) \<or> opLifecycle op = LC_RECONCILING)
        \<and> (p = ForNewAuthorization \<or> \<not> controlled_state (opControl op))"
    have 1: "coherent r b \<longleftrightarrow> \<not> (\<not> ?c1 \<and> ?c2)" unfolding co by blast
    have 2: "(\<exists>t. authority r b t p) \<longleftrightarrow> \<not> (?c1 \<or> ?c2 \<or> ?c3 \<or> \<not> piCurrent inst \<or> ?c5 \<or> ?c6 \<or> ?c7)"
      unfolding ex names_launch_def belong_together_def open_attempt_iff unfenced_iff by blast
    show ?thesis
      unfolding 1 2 not_not
      unfolding Registration_Confirm_def all option.case prod.case Let_def
      by (rule refusal_chain)
  next
    case none
    then have "\<not> coherent r b" "\<not> (\<exists>t. authority r b t p)" by (auto simp: coherent_def authority_def)
    moreover from none have "\<exists>m. Registration_Confirm r b now p = Inl (Wrapped ErrUnavailable m)"
      by (cases "rgInstance r"; cases "rgAttempt r"; cases "rgOperation r") (simp_all add: Registration_Confirm_def)
    ultimately show ?thesis by auto
  qed
qed

text \<open>
  Authority is antitone in the clock and monotone in the purpose: what is authorized for
  a new authorization is authorized for a result, and what is authorized at a time was
  authorized at every earlier one.
\<close>

lemma Confirm_monotone:
  assumes "Registration_Confirm r b t p = Inr ()" "p \<le> q" "t' \<le> t"
  shows "Registration_Confirm r b t' q = Inr ()"
  using assms authority_mono by (simp add: Registration_Confirm_Inr)

text \<open>
  For a result, a control intent on the operation hides its lifecycle: with a cancel or a
  hold recorded, a terminal or a reconciling operation is authorized like a running one.
\<close>

lemma control_intent_hides_lifecycle:
  assumes "rgOperation r = Some op" "controlled_state (opControl op)"
  shows "Registration_Confirm (r\<lparr>rgOperation := Some (op\<lparr>opLifecycle := l\<rparr>)\<rparr>) b t ForResult = Inr ()
    \<longleftrightarrow> Registration_Confirm r b t ForResult = Inr ()"
  using assms
  by (auto simp: Registration_Confirm_Inr authority_def belong_together_def controlled_state_def in_time_def)

lemma canceled_result_is_authorized:
  "Registration_Confirm (registration_of (sample_response LC_CANCELED (ControlState_other ''CONTROL_STATE_CANCEL'')))
     sample_binding 5 ForResult = Inr ()"
proof -
  let ?c = "ControlState_other ''CONTROL_STATE_CANCEL''"
  let ?r = "registration_of (sample_response (Lifecycle_other ''LIFECYCLE_RUNNING'') ?c)"
  have op: "rgOperation ?r = Some (sample_operation (Lifecycle_other ''LIFECYCLE_RUNNING'') ?c)"
    by (simp add: registration_of_def sample_response_def Let_def)
  have ct: "controlled_state (opControl (sample_operation (Lifecycle_other ''LIFECYCLE_RUNNING'') ?c))"
    by (simp add: controlled_state_def sample_operation_def)
  have "authority ?r sample_binding 5 ForResult"
    by (simp add: authority_def registration_of_def sample_response_def sample_binding_def
       sample_instance_def sample_attempt_def sample_operation_def names_launch_def belong_together_def
       in_time_def Let_def)
  then have "Registration_Confirm ?r sample_binding 5 ForResult = Inr ()" by (simp add: Registration_Confirm_Inr)
  then have "Registration_Confirm (?r\<lparr>rgOperation := Some ((sample_operation (Lifecycle_other ''LIFECYCLE_RUNNING'') ?c)\<lparr>opLifecycle := LC_CANCELED\<rparr>)\<rparr>)
      sample_binding 5 ForResult = Inr ()"
    by (simp only: control_intent_hides_lifecycle [OF op ct])
  then show ?thesis by (simp add: registration_of_def sample_response_def sample_operation_def Let_def)
qed

text \<open>
  C8: A confirmed scope is of the launch the envelope bound: its attempt, operation, profile,
  launch key and execution epoch are the binding's, its instance is current, it was read from
  Control in this very call, for this Pod, and its deadline was in the future when the clock
  was read after that.
\<close>

theorem confirmed_scope_is_bound:
  "case Confirm up ident b p h of
     (Inl e, h') \<Rightarrow> True
   | (Inr s, h') \<Rightarrow>
       h' = h @ [GetInstance (instance_query ident), ReadClock]
       \<and> scAttemptID s = bdAttemptID b \<and> scOperationID s = bdOperationID b \<and> scProfileID s = bdProfileID b
       \<and> scLaunchKey s = bdLaunchKey b \<and> scExecutionEpoch s = bdExecutionEpoch b \<and> scCurrent s
       \<and> (\<exists>resp. getInstance up h (instance_query ident) = Inr resp \<and> same_pod ident resp
            \<and> s = rgScope (registration_of resp))
       \<and> clock up (h @ [GetInstance (instance_query ident)]) < scDeadline s"
proof (cases "Confirm up ident b p h")
  case (Pair r h')
  show ?thesis
  proof (cases r)
    case (Inr s)
    with Pair Confirm_scope [of up ident b p h s h'] Confirm_Inr [of up ident b p h s h'] show ?thesis by auto
  qed (simp add: Pair)
qed

section \<open>Artifacts\<close>


text \<open>
  C15: A download that succeeds answers exactly the object Control recorded: its digest is the
  recorded digest, its size the recorded size and within the caller's bound, and it is the
  whole body of one 200 answer; Control was asked first.
\<close>

theorem Load_returns_the_recorded_object:
  "case Load up pr s handle maxBytes h of
     (Inl e, h') \<Rightarrow> True
   | (Inr l, h') \<Rightarrow>
       (\<exists>q resp cap res. readArtifact up h q = Inr resp \<and> rrHandle q = handle \<and> rrInstanceId q = scInstanceID s
          \<and> httpDo up (h @ [ReadArtifact q]) (load_request cap) = Some res \<and> hpStatus res = 200
          \<and> ldBytes l = hpBody res
          \<and> DigestOf (ldBytes l) = getf arExpectedDigest [] (raTransfer resp) \<and> ldDigest l = DigestOf (ldBytes l)
          \<and> declared_size (raTransfer resp) = Some (int (length (ldBytes l)))
          \<and> (maxBytes \<le> 0 \<or> int (length (ldBytes l)) \<le> maxBytes)
          \<and> h' = h @ [ReadArtifact q, HttpDo (load_request cap)])"
proof (cases "Load up pr s handle maxBytes h")
  case (Pair r h')
  show ?thesis
  proof (cases r)
    case (Inr l)
    with Pair have "Load up pr s handle maxBytes h = (Inr l, h')" by simp
    then show ?thesis
    proof (rule Load_Inr)
      fix q resp cap sz
      assume q: "q = \<lparr>rrHandle = handle, rrOperationId = scOperationID s, rrInstanceId = scInstanceID s, rrTenantId = scTenantID s\<rparr>"
        and r: "readArtifact up h q = Inr resp" and d: "declared_size (raTransfer resp) = Some sz"
        and m: "maxBytes > 0 \<longrightarrow> sz \<le> maxBytes"
        and f: "fetch up handle (raTransfer resp) cap sz (h @ [ReadArtifact q]) = (Inr l, h')"
      from fetch_Inr [OF f] declared_size_bounds [OF d] obtain res where
        "int (length (ldBytes l)) = sz" "DigestOf (ldBytes l) = ldDigest l"
        "ldDigest l = getf arExpectedDigest [] (raTransfer resp)" "h' = h @ [ReadArtifact q, HttpDo (load_request cap)]"
        "httpDo up (h @ [ReadArtifact q]) (load_request cap) = Some res" "hpStatus res = 200" "ldBytes l = hpBody res"
        by auto
      with q r d m Pair Inr show ?thesis
        by (auto intro!: exI [of _ q] exI [of _ resp] exI [of _ cap] exI [of _ res] simp: not_le)
    qed
  qed (simp add: Pair)
qed

end
