(* ===== verification/Relaying.thy ===== *)
theory Relaying
  imports Samples
begin

text \<open>
  The properties of the relays: what their readers admit, what a bound request carries of the
  confirmed scope, and what of the Model Proxy's answer reaches the caller, in which frames.
\<close>

section \<open>Reading a request\<close>

definition keys_among :: "string list \<Rightarrow> bytes \<Rightarrow> bool" where
  "keys_among names raw \<longleftrightarrow>
     (case parse_json raw of
        Some (JObj ms, rest) \<Rightarrow> list_all (\<lambda>(k, _). list_ex (\<lambda>n. fold_name n = fold_name k) names) ms
      | Some (JNull, rest) \<Rightarrow> True
      | _ \<Rightarrow> False)"

lemma decode_strict_keys:
  "decode_strict table z raw = Some (s, rest) \<Longrightarrow> keys_among (map fst table) raw"
proof -
  assume d: "decode_strict table z raw = Some (s, rest)"
  then obtain j where p: "parse_json raw = Some (j, rest)"
    by (auto simp: decode_strict_def bind_eq_Some_conv split: option.splits prod.splits)
  show ?thesis
  proof (cases j)
    case (JObj ms)
    have "list_ex (\<lambda>n. fold_name n = fold_name k) (map fst table)" if "(k, v) \<in> set ms" for k v
    proof -
      have "find_field table k \<noteq> None"
        using decode_strict_known [OF d p [unfolded JObj]] that by (cases v) auto
      from find_field_folded [OF this] show ?thesis by (simp add: list_ex_iff)
    qed
    then show ?thesis using p JObj by (auto simp: keys_among_def list_all_iff)
  qed (use d p in \<open>auto simp: decode_strict_def decode_struct_def keys_among_def\<close>)
qed

text \<open>
  C40: What the reader of a model relay request admits is a JSON object whose every key is one
  of the seven it knows (up to the folding of encoding/json), with the required table there
  and at least one message: no binding, identity, key or address can be stated.
\<close>

theorem ParseRelayRequest_strict:
  "case ParseRelayRequest ext raw of
     Inl e \<Rightarrow> True
   | Inr r \<Rightarrow> keys_among [''callId'', ''routeId'', ''messages'', ''tools'', ''maxOutputTokens'', ''maxExposure'', ''deadline''] raw
       \<and> rqCallID r \<noteq> [] \<and> rqRouteID r \<noteq> [] \<and> elems (rqMessages r) \<noteq> [] \<and> 1 \<le> rqMaxOutputTokens r
       \<and> moCurrency (rqMaxExposure r) \<noteq> [] \<and> moAmount (rqMaxExposure r) \<noteq> []"
proof (cases "ParseRelayRequest ext raw")
  case (Inr r)
  then obtain rest where "decode_strict (relayFields ext) zeroRelayRequest raw = Some (r, rest)"
    and "rqCallID r \<noteq> [] \<and> rqRouteID r \<noteq> [] \<and> elems (rqMessages r) \<noteq> [] \<and> 1 \<le> rqMaxOutputTokens r
       \<and> moCurrency (rqMaxExposure r) \<noteq> [] \<and> moAmount (rqMaxExposure r) \<noteq> []"
    by (auto simp: ParseRelayRequest_def parse_request_Inr not_less)
  with decode_strict_keys [of "relayFields ext" zeroRelayRequest raw r rest] Inr show ?thesis
    by (simp add: relayFields_def)
qed simp

section \<open>Binding a request\<close>

definition within_deadline :: "Scope \<Rightarrow> string \<Rightarrow> time \<Rightarrow> bool" where
  "within_deadline s requested d \<longleftrightarrow>
     d \<le> scDeadline s \<and> (case parse_rfc3339 requested of None \<Rightarrow> requested = [] | Some (t, _) \<Rightarrow> d \<le> t)"

lemma bound_deadline_within:
  "bound_deadline ext (scDeadline s) rq = Inr t \<Longrightarrow> within_deadline s rq (truncate_ms t)"
proof -
  assume b: "bound_deadline ext (scDeadline s) rq = Inr t"
  have n: "parse_rfc3339 [] = None" by code_simp
  from b truncate_ms_le [of t] show ?thesis
    by (auto simp: within_deadline_def bound_deadline_def n split: if_splits option.splits)
qed

text \<open>
  C16: A bound request carries the confirmed scope and nothing the caller said of it: the
  execution binding of a model call, and the subject, operation, attempt, instance and epoch
  of a tool call and a search are the scope's; their deadlines are never later than the
  attempt's nor than the one the caller asked for.
\<close>

theorem bound_requests_carry_the_scope:
  "(case Bind ext s r raw of Inl e \<Rightarrow> True
    | Inr q \<Rightarrow> mcBinding q = execution_binding s \<and> ebTenantId (mcBinding q) = scTenantID s
        \<and> ebAttemptId (mcBinding q) = scAttemptID s \<and> ebExecutionEpoch (mcBinding q) = scExecutionEpoch s
        \<and> (\<exists>d. mcDeadline q = format_ms d \<and> within_deadline s (rqDeadline r) d))
   \<and> (case BindCall ext s c raw of Inl e \<Rightarrow> True
    | Inr q \<Rightarrow> ccScope q = subject s \<and> ccOperationId q = scOperationID s \<and> ccAttemptId q = scAttemptID s
        \<and> ccInstanceId q = scInstanceID s \<and> ccExecutionEpoch q = scExecutionEpoch s \<and> scActorID s \<noteq> []
        \<and> ciActorId (ccCommand q) = scActorID s \<and> ccArgumentDigest q = DigestOf (ccArguments q)
        \<and> within_deadline s (caDeadline c) (ccDeadline q))
   \<and> (case BindSearch ext s k of Inl e \<Rightarrow> True
    | Inr q \<Rightarrow> kqScope q = subject s \<and> scActorID s \<noteq> [] \<and> within_deadline s (seDeadline k) (kqDeadline q))"
proof (intro conjI)
  show "case Bind ext s r raw of Inl e \<Rightarrow> True
    | Inr q \<Rightarrow> mcBinding q = execution_binding s \<and> ebTenantId (mcBinding q) = scTenantID s
        \<and> ebAttemptId (mcBinding q) = scAttemptID s \<and> ebExecutionEpoch (mcBinding q) = scExecutionEpoch s
        \<and> (\<exists>d. mcDeadline q = format_ms d \<and> within_deadline s (rqDeadline r) d)"
    using bound_deadline_within [of ext s "rqDeadline r"]
    by (cases "bound_deadline ext (scDeadline s) (rqDeadline r)")
       (auto simp: Bind_def Let_def execution_binding_def)
  show "case BindCall ext s c raw of Inl e \<Rightarrow> True
    | Inr q \<Rightarrow> ccScope q = subject s \<and> ccOperationId q = scOperationID s \<and> ccAttemptId q = scAttemptID s
        \<and> ccInstanceId q = scInstanceID s \<and> ccExecutionEpoch q = scExecutionEpoch s \<and> scActorID s \<noteq> []
        \<and> ciActorId (ccCommand q) = scActorID s \<and> ccArgumentDigest q = DigestOf (ccArguments q)
        \<and> within_deadline s (caDeadline c) (ccDeadline q)"
    using bound_deadline_within [of ext s "caDeadline c"]
    by (cases "bound_deadline ext (scDeadline s) (caDeadline c)") (auto simp: BindCall_def)
  show "case BindSearch ext s k of Inl e \<Rightarrow> True
    | Inr q \<Rightarrow> kqScope q = subject s \<and> scActorID s \<noteq> [] \<and> within_deadline s (seDeadline k) (kqDeadline q)"
    using bound_deadline_within [of ext s "seDeadline k"]
    by (cases "bound_deadline ext (scDeadline s) (seDeadline k)") (auto simp: BindSearch_def)
qed

text \<open>
  The deadline text of a bound model call reads back as the deadline it was made from, to
  the millisecond: the server's write deadline and the Proxy's are the same instant.
\<close>

lemma relay_deadline_roundtrip:
  assumes "in_years t"
  shows "relay_deadline (format_ms t) = truncate_ms t"
  using format_ms_parse [OF assms] by (simp add: relay_deadline_def)

text \<open>
  C37: The request digest of a bound tool call is taken of a text that determines the whole bound
  scope and the caller's bytes, so one digest is one request under one scope.
\<close>

theorem call_digest_covers:
  assumes "BindCall ext s c raw = Inr q" "BindCall ext' s' c' raw' = Inr q'"
    and "list_all (\<lambda>(k, v). valid_utf8 v) (scope_members s)" "list_all (\<lambda>(k, v). valid_utf8 v) (scope_members s')"
  shows "ciRequestDigest (ccCommand q) = DigestOf (call_preimage s raw)
    \<and> ciRequestDigest (ccCommand q') = DigestOf (call_preimage s' raw')
    \<and> (call_preimage s raw = call_preimage s' raw' \<longleftrightarrow> scope_members s = scope_members s' \<and> raw = raw')"
proof -
  have "ciRequestDigest (ccCommand q) = DigestOf (call_preimage s raw)"
    "ciRequestDigest (ccCommand q') = DigestOf (call_preimage s' raw')"
    using assms(1,2) by (auto simp: BindCall_def call_preimage_def result_simps)
  moreover have "call_preimage s raw = call_preimage s' raw' \<longleftrightarrow> scope_members s = scope_members s' \<and> raw = raw'"
    using call_preimage_inj [of s raw s' raw'] assms(3,4) by (auto simp: list_all_iff call_preimage_def bound_scope_text)
  ultimately show ?thesis by blast
qed

theorem call_digest_covers_witness:
  "\<exists>q. BindCall sample_externals sample_scope zeroCallRequest ''{}'' = Inr q
     \<and> ciRequestDigest (ccCommand q) = DigestOf (call_preimage sample_scope ''{}'')
     \<and> call_preimage sample_scope ''{}'' \<noteq> call_preimage (sample_scope\<lparr>scActorID := ''actor-2''\<rparr>) ''{}''"
proof -
  let ?s = "sample_scope\<lparr>scActorID := ''actor-2''\<rparr>"
  have u: "list_all (\<lambda>(k, v). valid_utf8 v) (scope_members sample_scope)" "list_all (\<lambda>(k, v). valid_utf8 v) (scope_members ?s)"
    by code_simp+
  have a: "scActorID sample_scope \<noteq> []" "scActorID sample_scope \<noteq> ''actor-2''" by code_simp+
  then obtain q q' where q: "BindCall sample_externals sample_scope zeroCallRequest ''{}'' = Inr q"
      "BindCall sample_externals ?s zeroCallRequest ''{}'' = Inr q'"
    by (simp add: BindCall_def bound_deadline_def zeroCallRequest_def)
  from call_digest_covers [OF q u] a(2) q(1) show ?thesis by (simp add: scope_members_def)
qed

section \<open>Relaying the answer\<close>

text \<open>
  Whatever the caller's connection does, what is written of an event stream is a prefix of
  the Proxy's bytes: nothing is added, dropped, changed or reordered.
\<close>

lemma stream_is_a_prefix:
  "\<exists>out t. wOut (copy_stream accepts s w) = wOut w @ out \<and> s = written out @ t"
  by (rule copy_stream_prefix)

text \<open>
  C36: On a connection that takes every write the whole stream is written, it ends with a
  flush, and each frame (ended by a blank line) is flushed before any byte of the next.
\<close>

theorem frames_are_flushed:
  assumes "\<forall>w b. accepts w b"
  shows "\<exists>out. wOut (copy_stream accepts s w) = wOut w @ out \<and> written out = s \<and> out \<noteq> [] \<and> last out = Flushed
    \<and> (\<forall>a b. s = a @ CHR 0x0A # b \<and> (a = [] \<or> last a = CHR 0x0A) \<longrightarrow>
         (\<exists>o1 o2. out = o1 @ Flushed # o2 \<and> written o1 = a @ [CHR 0x0A]))"
  by (rule copy_stream_frames [OF assms])

theorem frames_are_flushed_witness:
  "\<exists>out o1 o2. wOut (copy_stream (\<lambda>w b. True) ([CHR ''a'', CHR 0x0A, CHR 0x0A, CHR ''b'']) new_writer) = out
     \<and> out = o1 @ Flushed # o2 \<and> written o1 = [CHR ''a'', CHR 0x0A, CHR 0x0A]
     \<and> written out = [CHR ''a'', CHR 0x0A, CHR 0x0A, CHR ''b'']"
proof -
  let ?s = "[CHR ''a'', CHR 0x0A] @ CHR 0x0A # [CHR ''b'']"
  obtain out where o: "wOut (copy_stream (\<lambda>w b. True) ?s new_writer) = wOut new_writer @ out" "written out = ?s"
    and f: "\<And>a b. ?s = a @ CHR 0x0A # b \<and> (a = [] \<or> last a = CHR 0x0A) \<Longrightarrow>
         \<exists>o1 o2. out = o1 @ Flushed # o2 \<and> written o1 = a @ [CHR 0x0A]"
    using frames_are_flushed [of "\<lambda>w b. True" ?s new_writer] by blast
  from f [of "[CHR ''a'', CHR 0x0A]" "[CHR ''b'']"] obtain o1 o2
    where "out = o1 @ Flushed # o2" "written o1 = [CHR ''a'', CHR 0x0A, CHR 0x0A]" by auto
  with o show ?thesis by (auto simp: new_writer_def)
qed

lemma copy_stream_keeps:
  "wSent w = Some x \<Longrightarrow> wSent (copy_stream accepts s w) = Some x \<and> wDeadline (copy_stream accepts s w) = wDeadline w"
proof (induction accepts s w rule: copy_stream.induct)
  case (1 accepts s w)
  obtain line rest eof where r: "read_slice s = (line, rest, eof)" by (cases "read_slice s") auto
  let ?w1 = "if line = [] then w
             else if length line = 1 then flush (write_bytes line w) else write_bytes line w"
  have w1: "wSent ?w1 = Some x \<and> wDeadline ?w1 = wDeadline w"
    using "1.prems" by (auto simp: flush_def write_bytes_def write_header_def)
  show ?case
  proof (cases "line \<noteq> [] \<and> \<not> accepts w line \<or> eof")
    case True
    then have "copy_stream accepts s w \<in> {w, flush ?w1}"
      unfolding copy_stream.simps [of accepts s w] r Let_def by (cases eof) auto
    moreover have "wSent (flush ?w1) = Some x \<and> wDeadline (flush ?w1) = wDeadline w"
      using w1 by (simp add: flush_def write_header_def del: if_split)
    ultimately show ?thesis using "1.prems" by (simp only: insert_iff empty_iff) presburger
  next
    case False
    then have "copy_stream accepts s w = copy_stream accepts rest ?w1"
      unfolding copy_stream.simps [of accepts s w] r Let_def by auto
    moreover have "wSent (copy_stream accepts rest ?w1) = Some x
        \<and> wDeadline (copy_stream accepts rest ?w1) = wDeadline ?w1"
      by (rule "1.IH" [OF r [symmetric] refl _ refl]) (use False w1 in auto)
    ultimately show ?thesis using w1 by presburger
  qed
qed

lemma Forward_fresh:
  assumes "wSent w = None" "wOut w = []"
  shows "snd (Forward up accepts w q d h) = h @ [CreateModelCall q]
   \<and> (case createModelCall up h q of
        Inl e \<Rightarrow> (\<exists>m. fst (Forward up accepts w q d h) = (Some (Wrapped ErrUnavailable m), w))
      | Inr resp \<Rightarrow> (\<exists>w'. fst (Forward up accepts w q d h) = (None, w')
          \<and> status_of w' = Some (hpStatus resp)
          \<and> header_get (sent_headers w') ''Content-Type'' = header_get (hpHeaders resp) ''Content-Type''
          \<and> (if hpStatus resp = 200
             then wDeadline w' = Some (d + thirty_seconds) \<and> (\<exists>t. hpBody resp = body_of w' @ t)
             else body_of w' = take slice_size (hpBody resp))))"
proof (cases "createModelCall up h q")
  case (Inl e)
  then show ?thesis by (auto simp: Forward_def rpc_def)
next
  case (Inr resp)
  let ?w1 = "set_header ''Connection'' ''close'' (set_header ''Content-Type'' (header_get (hpHeaders resp) ''Content-Type'') w)"
  have "canonical_key ''Connection'' \<noteq> canonical_key ''Content-Type''" by code_simp
  then have ct: "header_get (wHeader ?w1) ''Content-Type'' = header_get (hpHeaders resp) ''Content-Type''"
    by (simp add: header_get_set_other)
  show ?thesis
  proof (cases "hpStatus resp = 200")
    case True
    define w2 where "w2 = flush ((write_header 200 ?w1)\<lparr>wDeadline := Some (d + thirty_seconds)\<rparr>)"
    have w2: "wSent w2 = Some (200, wHeader ?w1)" "wDeadline w2 = Some (d + thirty_seconds)" "written (wOut w2) = []"
      using assms by (simp_all add: w2_def flush_def write_header_def set_header_def)
    obtain out t where o: "wOut (copy_stream accepts (hpBody resp) w2) = wOut w2 @ out" "hpBody resp = written out @ t"
      using copy_stream_prefix by blast
    have f: "fst (Forward up accepts w q d h) = (None, copy_stream accepts (hpBody resp) w2)"
      "snd (Forward up accepts w q d h) = h @ [CreateModelCall q]"
      using True Inr by (simp_all add: Forward_def rpc_def Let_def w2_def)
    have k: "wSent (copy_stream accepts (hpBody resp) w2) = Some (200, wHeader ?w1)
        \<and> wDeadline (copy_stream accepts (hpBody resp) w2) = wDeadline w2"
      by (rule copy_stream_keeps [OF w2(1)])
    have b: "body_of (copy_stream accepts (hpBody resp) w2) = written out" using o(1) w2(3) by (simp add: body_of_def)
    have "\<exists>t. hpBody resp = body_of (copy_stream accepts (hpBody resp) w2) @ t" unfolding b using o(2) by blast
    with k w2(2) True ct show ?thesis
      unfolding f Inr sum.case status_of_def sent_headers_def by (auto simp del: set_header_sent)
  next
    case False
    let ?w2 = "write_bytes (take slice_size (hpBody resp)) (write_header (hpStatus resp) ?w1)"
    have f: "fst (Forward up accepts w q d h) = (None, ?w2)"
      "snd (Forward up accepts w q d h) = h @ [CreateModelCall q]"
      using False Inr by (simp_all add: Forward_def rpc_def Let_def)
    have k: "wSent ?w2 = Some (hpStatus resp, wHeader ?w1)" "body_of ?w2 = take slice_size (hpBody resp)"
      using assms by (simp_all add: write_bytes_def write_header_def body_of_def)
    show ?thesis
      unfolding f Inr sum.case status_of_def sent_headers_def
      using k False ct by (auto simp del: set_header_sent)
  qed
qed

text \<open>
  C35: Forward asks the Proxy exactly once.  It fails only when the Proxy does not answer, and
  then nothing was written; a refusal is passed on with its status, its content type and at
  most 64 KiB of its body; a stream is answered 200 with a write deadline 30 seconds after
  the call's.
\<close>

theorem Forward_answers:
  "let w = \<lparr>wHeader = hs, wSent = None, wOut = [], wDeadline = dl\<rparr> in
   snd (Forward up accepts w q d h) = h @ [CreateModelCall q]
   \<and> (case createModelCall up h q of
        Inl e \<Rightarrow> (\<exists>m. fst (Forward up accepts w q d h) = (Some (Wrapped ErrUnavailable m), w))
      | Inr resp \<Rightarrow> (\<exists>w'. fst (Forward up accepts w q d h) = (None, w')
          \<and> status_of w' = Some (hpStatus resp)
          \<and> header_get (sent_headers w') ''Content-Type'' = header_get (hpHeaders resp) ''Content-Type''
          \<and> (if hpStatus resp = 200
             then wDeadline w' = Some (d + thirty_seconds) \<and> (\<exists>t. hpBody resp = body_of w' @ t)
             else body_of w' = take slice_size (hpBody resp))))"
proof -
  define w where "w = \<lparr>wHeader = hs, wSent = None, wOut = [], wDeadline = dl\<rparr>"
  then have "wSent w = None" "wOut w = []" by simp_all
  from Forward_fresh [OF this, of up accepts q d h] show ?thesis by (simp only: Let_def w_def)
qed

end
