(* ===== verification/Requests.thy ===== *)
theory Requests
  imports Samples
begin

text \<open>
  The properties of the two sockets' servers: who is admitted and what every answer carries,
  under which authority the process calls out for a request, what the candidate can cause,
  which bytes a staged input can be, and how errors are answered.
\<close>

section \<open>Admission\<close>

abbreviation fresh_writer :: "header \<Rightarrow> writer" where
  "fresh_writer hs \<equiv> \<lparr>wHeader = hs, wSent = None, wOut = [], wDeadline = None\<rparr>"

text \<open>
  C3: The guard of a socket, with the token derived from the launch secret: a peer of another
  UID, a nonce that is not fresh in form and a wrong token are answered in this order and
  touch nothing, the first and the last with a line in the log that names the peer and the
  route and neither token nor nonce; everything else reaches the handler, with the proof of the token over the
  nonce in the answer's headers.  The branch that answers INTERNAL is never taken.
\<close>

theorem guard_decides:
  "guard lg u (Token secret role) next req w st =
     (let nonce = header_get (hrHeader req) HeaderNonce in
      if \<not> from_peer u req
      then (fail 403 ''PEER_UID_MISMATCH'' [] w, fst st,
              lg (UnexpectedPeer u (pUID (peer_of req)) (pPID (peer_of req)) (route_of req)) (snd st))
      else if \<not> (length nonce = 32 \<and> list_all is_lower_hex nonce)
      then (fail 400 ''PEER_NONCE_INVALID'' (''the request needs a fresh 32-hex-character '' @ HeaderNonce) w, st)
      else if header_get (hrHeader req) HeaderToken \<noteq> Token secret role
      then (fail 403 ''PEER_TOKEN_MISMATCH'' [] w, fst st, lg (WrongPeerToken (pUID (peer_of req)) (route_of req)) (snd st))
      else next req (set_header HeaderProof
             (hex_encode (hmac_sha256 (hmac_sha256 secret (tokenPrefix @ role)) (proofPrefix @ nonce))) w) st)"
proof (cases "lowerHex (header_get (hrHeader req) HeaderNonce) 32")
  case True
  then have "Proof (Token secret role) (header_get (hrHeader req) HeaderNonce) =
      Inr (hex_encode (hmac_sha256 (hmac_sha256 secret (tokenPrefix @ role)) (proofPrefix @ header_get (hrHeader req) HeaderNonce)))"
    by (simp add: Proof_def Token_def ValidNonce_def nonceHexLen_def)
  with True show ?thesis by (simp add: guard_cases lowerHex_iff Let_def)
next
  case False
  then show ?thesis by (auto simp: guard_cases lowerHex_iff Let_def)
qed

text \<open>
  A connection the listener of a UID accepted passes the guard's first check for that UID:
  the peer bound at accept is the peer every request on the connection is checked against.
\<close>

lemma accepted_connections_pass:
  "case Accept u arrivals lg of
     (Some (Inr c), rest, lg') \<Rightarrow> from_peer u (req\<lparr>hrPeer := ConnContext (Some c)\<rparr>)
   | _ \<Rightarrow> True"
proof (cases "Accept u arrivals lg")
  case (fields res rest lg')
  from Accept_run [OF fields] show ?thesis
    unfolding fields by (auto simp: from_peer_def ConnContext_def split: option.splits sum.splits)
qed

definition proof_of :: "string \<Rightarrow> request \<Rightarrow> string" where
  "proof_of token req = (case Proof token (header_get (hrHeader req) HeaderNonce) of Inl _ \<Rightarrow> [] | Inr p \<Rightarrow> p)"

lemma serve_mux_answered:
  assumes "\<And>h vals w. carries pf w \<Longrightarrow> answered pf (fst (run h req vals w st))" "carries pf w"
  shows "answered pf (fst (serve_mux ext pats run req w st))"
  by (cases rule: serve_mux_cases [where ext = ext and pats = pats and run = run and req = req and w = w and st = st and pf = pf])
     (simp_all add: assms)

lemma guarded_answered:
  assumes "admitted u (Token secret role) req"
    and "\<And>pf w. carries pf w \<Longrightarrow> answered pf (fst (next req w st))"
  shows "answered (proof_of (Token secret role) req) (fst (guard lg u (Token secret role) next req (fresh_writer hs) st))"
proof -
  from guard_admitted [OF assms(1) Token_format] obtain pf
    where p: "Proof (Token secret role) (header_get (hrHeader req) HeaderNonce) = Inr pf"
      and g: "guard lg u (Token secret role) next req (fresh_writer hs) st = next req (set_header HeaderProof pf (fresh_writer hs)) st"
    by blast
  have "answered pf (fst (next req (set_header HeaderProof pf (fresh_writer hs)) st))"
    by (rule assms(2), rule carries_proof) simp
  with p g show ?thesis by (simp add: proof_of_def)
qed

text \<open>The log of the process, as the server writes to it.\<close>

abbreviation to_log :: "server_line \<Rightarrow> world \<Rightarrow> world" where
  "to_log \<equiv> \<lambda>l. logged (ServerLine l)"

lemma Trusted_proved:
  assumes "wiTrustedToken wi = Token secret RoleTrusted"
  shows "if admitted (wiTrustedUID wi) (Token secret RoleTrusted) req
    then answered (proof_of (Token secret RoleTrusted) req) (fst (Trusted (sidecar up accepts ext wi) req (fresh_writer hs) st))
    else snd (Trusted (sidecar up accepts ext wi) req (fresh_writer hs) st)
      = noted to_log (refused_line (wiTrustedUID wi) (Token secret RoleTrusted) req) st"
proof -
  define sv where "sv = sidecar up accepts ext wi"
  have f: "svTrustedUID sv = wiTrustedUID wi" "svTrustedToken sv = Token secret RoleTrusted" "svLog sv = to_log"
    using assms by (simp_all add: sv_def sidecar_def)
  have "carries pf w \<Longrightarrow> answered pf (fst (serve_mux (svExt sv) trusted_patterns (trusted_handler sv) req w st))" for pf w
    unfolding sv_def by (rule serve_mux_answered, rule live.trusted_handler_answered)
  then show ?thesis
    unfolding sv_def [symmetric] unfolding Trusted_def f by (simp add: guard_refused guarded_answered)
qed

lemma Candidate_proved:
  assumes "wiCandidateToken wi = Token secret RoleCandidate"
  shows "if admitted (wiCandidateUID wi) (Token secret RoleCandidate) req
    then answered (proof_of (Token secret RoleCandidate) req) (fst (Candidate (sidecar up accepts ext wi) req (fresh_writer hs) st))
    else snd (Candidate (sidecar up accepts ext wi) req (fresh_writer hs) st)
      = noted to_log (refused_line (wiCandidateUID wi) (Token secret RoleCandidate) req) st"
proof -
  define sv where "sv = sidecar up accepts ext wi"
  have f: "svCandidateUID sv = wiCandidateUID wi" "svCandidateToken sv = Token secret RoleCandidate" "svLog sv = to_log"
    using assms by (simp_all add: sv_def sidecar_def)
  have "carries pf w \<Longrightarrow> answered pf (fst (serve_mux (svExt sv) candidate_patterns (candidate_handler sv) req w st))" for pf w
    unfolding sv_def by (rule serve_mux_answered, rule live.candidate_handler_answered)
  then show ?thesis
    unfolding sv_def [symmetric] unfolding Candidate_def f by (simp add: guard_refused guarded_answered)
qed

text \<open>
  Every request the guard of the trusted socket admits is answered, and the answer carries
  the proof over the request's nonce; the same on the candidate socket.  A request it turns away
  leaves at most its line in the log.
\<close>

theorem every_answer_is_proved:
  "let sv = sidecar up accepts ext (wi\<lparr>wiTrustedToken := Token secret RoleTrusted, wiCandidateToken := Token secret RoleCandidate\<rparr>) in
   (if admitted (wiTrustedUID wi) (Token secret RoleTrusted) req
    then answered (proof_of (Token secret RoleTrusted) req) (fst (Trusted sv req (fresh_writer hs) st))
    else snd (Trusted sv req (fresh_writer hs) st)
      = noted to_log (refused_line (wiTrustedUID wi) (Token secret RoleTrusted) req) st)
   \<and> (if admitted (wiCandidateUID wi) (Token secret RoleCandidate) req
      then answered (proof_of (Token secret RoleCandidate) req) (fst (Candidate sv req (fresh_writer hs) st))
      else snd (Candidate sv req (fresh_writer hs) st)
        = noted to_log (refused_line (wiCandidateUID wi) (Token secret RoleCandidate) req) st)"
  using Trusted_proved [of "wi\<lparr>wiTrustedToken := Token secret RoleTrusted, wiCandidateToken := Token secret RoleCandidate\<rparr>"
      secret req up accepts ext hs st]
    Candidate_proved [of "wi\<lparr>wiTrustedToken := Token secret RoleTrusted, wiCandidateToken := Token secret RoleCandidate\<rparr>"
      secret req up accepts ext hs st]
  by (simp add: Let_def)

section \<open>Authority\<close>

text \<open>
  C1: Nothing the process asks of Control, the store, the Proxy, MCP or Knowledge for a request
  of either socket is asked without authority: the calls of the request are questions about
  the registration and, after them, only calls under a scope these questions confirmed, for
  the purpose the call needs, naming that scope's tenant, operation, attempt, instance and
  epoch.
\<close>

theorem requests_act_with_authority:
  "(\<exists>calls. woHist (snd (snd (Trusted (sidecar up accepts ext wi) req w st))) = woHist (snd st) @ calls
      \<and> authorized (confirmed up wi) (woHist (snd st)) calls)
   \<and> (\<exists>calls. woHist (snd (snd (Candidate (sidecar up accepts ext wi) req w st))) = woHist (snd st) @ calls
      \<and> authorized (confirmed up wi) (woHist (snd st)) calls)"
  using live.Trusted_within [unfolded live.within_def, of up accepts ext wi req w st]
    live.Candidate_within [unfolded live.within_def, of up accepts ext wi req w st] by blast

text \<open>The calls a candidate's request can make.\<close>

fun candidate_call :: "event \<Rightarrow> bool" where
  "candidate_call (CreateModelCall q) = True"
| "candidate_call e = asking e"

lemma asking_candidate: "asking e \<Longrightarrow> candidate_call e"
  by (cases e) simp_all

context scope_interface begin

lemma relay_adds: "svRelay sv = Some fwd \<Longrightarrow> fwd w q d s = (x, s') \<Longrightarrow> adds candidate_call s s'"
  by (rule adds_one, rule relay_acts, assumption+) simp

lemma candidate_handler_extends: "adds candidate_call (snd st) (snd (snd (candidate_handler sv r req vals w st)))"
proof (cases r)
  case C_ReadInput
  then show ?thesis
    by (auto simp: readInput_def Let_def intro!: with_scope_adds [OF asking_candidate] adds_refl split: option.split)
next
  case C_ModelRelay
  then show ?thesis
    by (auto simp: modelRelay_def Let_def intro!: with_scope_adds [OF asking_candidate] adds_refl
        intro: relay_adds split: option.split sum.split prod.split)
qed (simp add: forbidden_def adds_refl)

lemma Candidate_extends: "adds candidate_call (snd st) (snd (snd (Candidate sv req w st)))"
  unfolding Candidate_def by (intro guard_adds serve_mux_adds candidate_handler_extends)

end

lemma Candidate_same_inputs: "fst (snd (Candidate sv req w st)) = fst st"
proof -
  have m: "fst (snd (serve_mux ext candidate_patterns (candidate_handler sv) req w st)) = fst st" for ext w
    by (cases rule: serve_mux_cases [where ext = ext and pats = candidate_patterns and run = "candidate_handler sv" and req = req and w = w and st = st])
       (simp_all add: candidate_inputs)
  show ?thesis
    unfolding Candidate_def
    using guard_state [of "svLog sv" "svCandidateUID sv" "svCandidateToken sv"
        "serve_mux (svExt sv) candidate_patterns (candidate_handler sv)" req w st] m by auto
qed

text \<open>
  C9: Whatever the candidate sends, its socket never changes the staged inputs, and all it can
  make the process ask of the outside is the registration of the instance and a model call
  of the Proxy: no transfer, artifact, result, progress, tool call or search.
\<close>

theorem candidate_is_confined:
  "\<exists>calls. woHist (snd (snd (Candidate (sidecar up accepts ext wi) req w st))) = woHist (snd st) @ calls
     \<and> list_all candidate_call calls
     \<and> fst (snd (Candidate (sidecar up accepts ext wi) req w st)) = fst st"
  using live.Candidate_extends [unfolded live.adds_def, of up accepts ext wi req w st]
  by (simp add: Candidate_same_inputs)

section \<open>Staged inputs\<close>

text \<open>A sequence of requests, each on the trusted socket or on the candidate's.\<close>

fun serve_all :: "'s server \<Rightarrow> (bool \<times> request) list \<Rightarrow> Inputs \<times> 's \<Rightarrow> Inputs \<times> 's" where
  "serve_all sv [] st = st"
| "serve_all sv ((trusted, req) # rest) st =
     serve_all sv rest (snd ((if trusted then Trusted sv else Candidate sv) req new_writer st))"

lemma Trusted_stages: "stages_only (fst st) (fst (snd (Trusted sv req w st)))"
proof -
  have m: "stages_only (fst st) (fst (snd (serve_mux ext trusted_patterns (trusted_handler sv) req w st)))" for ext w
    by (cases rule: serve_mux_cases [where ext = ext and pats = trusted_patterns and run = "trusted_handler sv" and req = req and w = w and st = st])
       (simp_all add: trusted_inputs stages_only_refl)
  show ?thesis
    unfolding Trusted_def
    using guard_state [of "svLog sv" "svTrustedUID sv" "svTrustedToken sv"
        "serve_mux (svExt sv) trusted_patterns (trusted_handler sv)" req w st] m by (auto simp: stages_only_refl)
qed

lemma serve_all_reachable:
  "inputs.reachable init (fst st) \<Longrightarrow> inputs.reachable init (fst (serve_all sv rs st))"
proof (induction sv rs st rule: serve_all.induct)
  case (2 sv trusted req rest st)
  have "inputs.reachable init (fst (snd ((if trusted then Trusted sv else Candidate sv) req new_writer st)))"
  proof (cases trusted)
    case True
    from Trusted_stages [of st sv req new_writer] show ?thesis
    proof (unfold stages_only_def, elim disjE exE conjE)
      fix n c
      assume "fst (snd (Trusted sv req new_writer st)) = snd (Stage_input (fst st) n c)"
      with True inputs.reachable.step [OF "2.prems" prod.collapse [symmetric], of n c] show ?thesis by simp
    qed (use True "2.prems" in simp)
  qed (use "2.prems" in \<open>simp add: Candidate_same_inputs\<close>)
  from "2.IH" [OF this] show ?case by simp
qed simp

lemma declared_in_envelope:
  "declared_digest (NewInputs env) n b \<Longrightarrow> \<exists>i \<in> set (elems (eInputs env)). inName i = n \<and> inDigest i = DigestOf b"
  by (fastforce simp: declared_digest_def NewInputs_def fold_declare emptyInputs_def dest: map_of_SomeD)

text \<open>
  C10: After any sequence of requests on both sockets, the bytes readable under an input's name
  are bytes whose digest the launch envelope declares for that name.
\<close>

theorem inputs_are_declared:
  "case Get (fst (serve_all sv rs (NewInputs env, s))) name of
     None \<Rightarrow> True
   | Some b \<Rightarrow> \<exists>i \<in> set (elems (eInputs env)). inName i = name \<and> inDigest i = DigestOf b"
proof (cases "Get (fst (serve_all sv rs (NewInputs env, s))) name")
  case (Some b)
  have "inputs.reachable (NewInputs env) (fst (serve_all sv rs (NewInputs env, s)))"
    by (rule serve_all_reachable) (simp add: inputs.reachable.start)
  from inputs.reachable_get [OF this _ Some] have "declared_digest (NewInputs env) name b"
    by (simp add: Get_def)
  from declared_in_envelope [OF this] Some show ?thesis by simp
qed simp

lemma readInput_refused:
  assumes "status_of (fst (readInput sv req vals (fresh_writer hs) st)) \<noteq> Some 200"
  shows "\<exists>st' c x w0. fst (readInput sv req vals (fresh_writer hs) st) = fail st' c x w0 \<and> wOut w0 = []
    \<and> status_of (fst (readInput sv req vals (fresh_writer hs) st)) \<in> {Some 404, Some 403, Some 503}"
proof -
  have scope: "\<exists>st' c x w0. fst (answerScopeError (Some e) (fresh_writer hs)) = fail st' c x w0 \<and> wOut w0 = []
      \<and> status_of (fst (answerScopeError (Some e) (fresh_writer hs))) \<in> {Some 403, Some 503}" for e
    by (auto simp: answerScopeError_def intro!: exI)
  obtain res s1 where c: "srcConfirm (svScope sv) ForNewAuthorization (snd st) = (res, s1)" by fastforce
  obtain w1 st1 where r: "readInput sv req vals (fresh_writer hs) st = (w1, st1)" by (rule prod.exhaust)
  consider "w1 = fail 404 ''NOT_FOUND'' [] (fresh_writer hs)"
    | e where "w1 = fst (answerScopeError (Some e) (fresh_writer hs))"
    | b where "w1 = write_bytes b (set_header ''Connection'' ''close''
        (set_header ''Content-Type'' ''application/octet-stream'' (fresh_writer hs)))"
    using r c by (cases res) (auto simp: readInput_def with_scope_def Let_def split: if_splits option.splits)
  then show ?thesis
  proof cases
    case 1
    with r show ?thesis
      by (intro exI [of _ 404] exI [of _ "''NOT_FOUND''"] exI [of _ "[]"] exI [of _ "fresh_writer hs"]) simp
  next
    case (2 e)
    with scope [of e] r show ?thesis by auto
  next
    case (3 b)
    with assms r show ?thesis by (simp add: status_of_def write_bytes_def write_header_def)
  qed
qed

text \<open>
  Reading an input answers 200 only for a well-formed name that is staged, after Control
  confirmed the authority in this request, and then exactly the staged bytes; every other
  answer is a JSON failure and holds none of them.
\<close>

theorem readInput_answers:
  "case readInput sv req vals (fresh_writer hs) (ip, s) of (w', ip', s') \<Rightarrow>
     ip' = ip \<and>
     (if status_of w' = Some 200
      then is_input_name (path_value vals) \<and> Get ip (path_value vals) = Some (body_of w')
        \<and> (\<exists>sc. srcConfirm (svScope sv) ForNewAuthorization s = (Inr sc, s'))
      else status_of w' \<in> {Some 404, Some 403, Some 503} \<and> (\<exists>st c r w0. w' = fail st c r w0 \<and> wOut w0 = []))"
proof -
  obtain w' ip' s' where r: "readInput sv req vals (fresh_writer hs) (ip, s) = (w', ip', s')"
    by (cases "readInput sv req vals (fresh_writer hs) (ip, s)") auto
  have ip: "ip' = ip" using unchanged_inputs(1) [of sv req vals "fresh_writer hs" "(ip, s)"] by (simp add: r)
  show ?thesis
  proof (cases "status_of w' = Some 200")
    case True
    from readInput_ok [OF r True] obtain sc b where ok: "srcConfirm (svScope sv) ForNewAuthorization s = (Inr sc, s')"
        "is_input_name (path_value vals)" "Get ip (path_value vals) = Some b"
        "w' = write_bytes b (set_header ''Connection'' ''close''
          (set_header ''Content-Type'' ''application/octet-stream'' (fresh_writer hs)))" by auto
    then have "body_of w' = b" by (simp add: body_of_write_bytes)
    with True ok ip r show ?thesis by auto
  next
    case False
    with readInput_refused [of sv req vals hs "(ip, s)"] ip r show ?thesis by auto
  qed
qed

section \<open>Errors\<close>

text \<open>
  A scope that is not usable is answered 503 with a retry hint exactly when the launcher
  has not registered the instance or Control could not answer, and 403 without one when
  Control answered and the authority is refused.
\<close>

lemma scope_errors_are_classified:
  "let w' = fst (answerScopeError (Some e) (fresh_writer hs)) in
   status_of w' = Some (if sentinel_of e \<in> {ErrUnregistered, ErrUnavailable} then 503 else 403)
   \<and> header_get (sent_headers w') ''Retry-After'' =
       (if sentinel_of e \<in> {ErrUnregistered, ErrUnavailable} then ''2'' else header_get hs ''Retry-After'')"
proof -
  have k: "canonical_key ''Retry-After'' \<noteq> canonical_key ''Content-Type''"
    "canonical_key ''Retry-After'' \<noteq> canonical_key ''Connection''" by code_simp+
  have h: "header_get (sent_headers (fail st c r w)) ''Retry-After'' = header_get (wHeader w) ''Retry-After''"
    if "wSent w = None" for st c r w
    using that k by (simp add: fail_def sent_headers_def writeJSON_sent header_get_set_other)
  show ?thesis
    by (cases "sentinel_of e") (simp_all add: answerScopeError_def errors_is_def h)
qed

lemma Code_refused: "Code (Wrapped ErrRefused t) = t"
  using str_cut_prefix [of "''refused: ''" t] by (simp add: Code_def errors_is_def)


end
