(* ===== verification/Bounds.thy ===== *)
theory Bounds
  imports Requests
begin

text \<open>
  The bounds of internal/server/server.go and of scope.go's loads: what a request can carry is
  cut at the configured sizes before anything is asked under a scope, so every call to the
  outside and every staged input stays within them.
\<close>

section \<open>Calls within the limits\<close>

text \<open>A bound that is not positive admits the empty text only.\<close>

definition within_size :: "int \<Rightarrow> bytes \<Rightarrow> bool" where
  "within_size n b \<longleftrightarrow> int (length b) \<le> max n 0"

fun sized :: "Limits \<Rightarrow> event \<Rightarrow> bool" where
  "sized lm (BeginTransfer r) \<longleftrightarrow>
     (\<exists>n. brExpectedSize r = show_int n \<and> 0 \<le> n \<and> n \<le> max (lmMaxTransferBytes lm) 0)"
| "sized lm (HttpDo q) \<longleftrightarrow> within_size (lmMaxTransferBytes lm) (hqBody q)"
| "sized lm (AcceptResult r) \<longleftrightarrow>
     arqResultManifest r \<noteq> [] \<and> within_size (lmMaxManifestBytes lm) (arqResultManifest r)"
| "sized lm (RecordAttemptProgress r) \<longleftrightarrow>
     pqNode r \<noteq> [] \<and> within_size 32 (pqNode r) \<and> pqState r \<noteq> [] \<and> within_size 32 (pqState r)
     \<and> within_size 20 (pqRound r)
     \<and> (case pqOutcomeCode r of None \<Rightarrow> True | Some c \<Rightarrow> c \<noteq> [] \<and> within_size 64 c)"
| "sized lm _ \<longleftrightarrow> True"

lemma asking_sized: "asking e \<Longrightarrow> sized lm e"
  by (cases e) simp_all

locale bounded_interface = scope_interface sv trace granted
  for sv :: "'s server" and trace :: "'s \<Rightarrow> hist" and granted :: "Purpose \<Rightarrow> Scope \<Rightarrow> hist \<Rightarrow> bool" +
  assumes upload_sized: "srcUpload (svScope sv) sc c m b s = (r1, s') \<Longrightarrow>
        within_size (lmMaxTransferBytes (svLimits sv)) b \<Longrightarrow> adds (sized (svLimits sv)) s s'"
    and submit_sized: "srcSubmit (svScope sv) sc v fc ob mf s = (r2, s') \<Longrightarrow> mf \<noteq> [] \<Longrightarrow>
        within_size (lmMaxManifestBytes (svLimits sv)) mf \<Longrightarrow> adds (sized (svLimits sv)) s s'"
    and progress_sized: "srcProgress (svScope sv) sc n st rd oc s = (r3, s') \<Longrightarrow>
        n \<noteq> [] \<Longrightarrow> within_size 32 n \<Longrightarrow> st \<noteq> [] \<Longrightarrow> within_size 32 st \<Longrightarrow>
        within_size 20 rd \<Longrightarrow> within_size 64 oc \<Longrightarrow> adds (sized (svLimits sv)) s s'"
    and accepted_sized: "srcAcceptedStage (svScope sv) sc s = (r4, s') \<Longrightarrow> adds (sized (svLimits sv)) s s'"
    and prior_sized: "srcPriorStage (svScope sv) sc a s = (r5, s') \<Longrightarrow> adds (sized (svLimits sv)) s s'"
    and load_sized: "srcLoad (svScope sv) sc hn mx s = (r6, s') \<Longrightarrow> adds (sized (svLimits sv)) s s'"
    and loaded_size: "srcLoad (svScope sv) sc hn mx s = (Inr ld, s') \<Longrightarrow> 0 < mx \<Longrightarrow> within_size mx (ldBytes ld)"
begin

lemma relays_sized:
  "svRelay sv = Some fwd \<Longrightarrow> fwd w q d s = (x, s') \<Longrightarrow> adds (sized (svLimits sv)) s s'"
  "svMCP sv = Some call \<Longrightarrow> call cq s = (r7, s') \<Longrightarrow> adds (sized (svLimits sv)) s s'"
  "svKnowledge sv = Some search \<Longrightarrow> search kq s = (r8, s') \<Longrightarrow> adds (sized (svLimits sv)) s s'"
  using adds_one [OF relay_acts] adds_one [OF mcp_acts] adds_one [OF knowledge_acts] by simp_all

end

lemma read_body_size: "read_body n req = Some b \<Longrightarrow> within_size n b"
  by (auto simp: read_body_def within_size_def split: if_splits)

lemma decode_first_refused: "decode_first t z bad b = Some x \<Longrightarrow> \<not> bad x"
  by (auto simp: decode_first_def split: option.splits prod.splits if_splits)

context bounded_interface begin

lemma handlers_sized:
  "adds (sized (svLimits sv)) (snd st) (snd (snd (readInput sv req vals w st)))"
  "adds (sized (svLimits sv)) (snd st) (snd (snd (modelRelay sv req vals w st)))"
  "adds (sized (svLimits sv)) (snd st) (snd (snd (mcpCall sv req vals w st)))"
  "adds (sized (svLimits sv)) (snd st) (snd (snd (knowledgeSearch sv req vals w st)))"
  "adds (sized (svLimits sv)) (snd st) (snd (snd (unavailable sv dep req vals w st)))"
  "adds (sized (svLimits sv)) (snd st) (snd (snd (getScope sv req vals w st)))"
  "adds (sized (svLimits sv)) (snd st) (snd (snd (putInput sv req vals w st)))"
  "adds (sized (svLimits sv)) (snd st) (snd (snd (loadInput sv req vals w st)))"
  "adds (sized (svLimits sv)) (snd st) (snd (snd (getStage sv req vals w st)))"
  "adds (sized (svLimits sv)) (snd st) (snd (snd (getResult sv req vals w st)))"
  unfolding readInput_def modelRelay_def mcpCall_def knowledgeSearch_def unavailable_def getScope_def
    putInput_def loadInput_def getStage_def getResult_def Let_def
  by (auto split: option.split sum.split prod.split intro!: with_scope_adds [OF asking_sized] adds_refl
      intro: relays_sized accepted_sized prior_sized load_sized)

lemma guarded_sized:
  "srcUpload (svScope sv) sc c m b s = (r1, s') \<Longrightarrow> read_body (lmMaxTransferBytes (svLimits sv)) req = Some b \<Longrightarrow>
     adds (sized (svLimits sv)) s s'"
  "srcSubmit (svScope sv) sc v fc ob mf s = (r2, s') \<Longrightarrow> mf \<noteq> [] \<Longrightarrow>
     \<not> lmMaxManifestBytes (svLimits sv) < int (length mf) \<Longrightarrow> adds (sized (svLimits sv)) s s'"
  "srcProgress (svScope sv) sc n st rd oc s = (r3, s') \<Longrightarrow> n \<noteq> [] \<Longrightarrow> st \<noteq> [] \<Longrightarrow> \<not> 32 < length n \<Longrightarrow>
     \<not> 32 < length st \<Longrightarrow> \<not> 20 < length rd \<Longrightarrow> \<not> 64 < length oc \<Longrightarrow> adds (sized (svLimits sv)) s s'"
  by (erule upload_sized, erule read_body_size)
     (erule submit_sized progress_sized; simp add: within_size_def)+

lemma postTransfer_sized: "adds (sized (svLimits sv)) (snd st) (snd (snd (postTransfer sv req vals w st)))"
  unfolding postTransfer_def Let_def
  by (auto split: option.split sum.split prod.split intro!: with_scope_adds [OF asking_sized] adds_refl
      dest: guarded_sized(1))

lemma postResult_sized: "adds (sized (svLimits sv)) (snd st) (snd (snd (postResult sv req vals w st)))"
  unfolding postResult_def Let_def
  by (auto split: option.split sum.split prod.split intro!: with_scope_adds [OF asking_sized] adds_refl
      dest!: decode_first_refused dest: guarded_sized(2))

lemma postProgress_sized: "adds (sized (svLimits sv)) (snd st) (snd (snd (postProgress sv req vals w st)))"
  unfolding postProgress_def Let_def
  by (auto split: option.split sum.split prod.split intro!: with_scope_adds [OF asking_sized] adds_refl
      dest!: decode_first_refused dest: guarded_sized(3))

lemma trusted_handler_sized: "adds (sized (svLimits sv)) (snd st) (snd (snd (trusted_handler sv r req vals w st)))"
  by (cases r) (simp_all add: handlers_sized postTransfer_sized postResult_sized postProgress_sized
      forbidden_def adds_refl)

lemma candidate_handler_sized: "adds (sized (svLimits sv)) (snd st) (snd (snd (candidate_handler sv r req vals w st)))"
  by (cases r) (simp_all add: handlers_sized forbidden_def adds_refl)

lemma Trusted_sized: "adds (sized (svLimits sv)) (snd st) (snd (snd (Trusted sv req w st)))"
  unfolding Trusted_def by (intro guard_adds serve_mux_adds trusted_handler_sized)

lemma Candidate_sized: "adds (sized (svLimits sv)) (snd st) (snd (snd (Candidate sv req w st)))"
  unfolding Candidate_def by (intro guard_adds serve_mux_adds candidate_handler_sized)

lemma serve_all_sized: "adds (sized (svLimits sv)) (snd st) (snd (serve_all sv rs st))"
proof (induction rs arbitrary: st)
  case (Cons r rs)
  obtain trusted req where r: "r = (trusted, req)" by (cases r)
  let ?st = "snd ((if trusted then Trusted sv else Candidate sv) req new_writer st)"
  have "adds (sized (svLimits sv)) (snd st) (snd ?st)" by (simp add: Trusted_sized Candidate_sized)
  from adds_trans [OF this Cons.IH [of ?st]] show ?case by (simp add: r)
qed (simp add: adds_refl)

end

section \<open>The sidecar's calls\<close>

lemma upload_calls_sized:
  "upload_calls sc c m b calls \<Longrightarrow> within_size (lmMaxTransferBytes lm) b \<Longrightarrow> list_all (sized lm) calls"
proof (induction sc c m b calls rule: upload_calls.induct)
  case (2 sc c m body b rest)
  then have "sized lm (BeginTransfer b)" by (fastforce simp: begin_request_def within_size_def Let_def)
  moreover from "2.prems"(1) have "list_all (sized lm) rest"
    by (cases rule: upload_calls_cases) (use "2.prems"(2) in \<open>simp_all add: put_request_def\<close>)
  ultimately show ?case by simp
qed simp_all

lemma load_calls_sized: "load_calls sc hn calls \<Longrightarrow> list_all (sized lm) calls"
  by (induction sc hn calls rule: load_calls.induct) (auto simp: load_request_def within_size_def)

interpretation bounded: bounded_interface "sidecar up accepts ext wi" woHist "confirmed up wi"
  for up accepts ext wi
proof unfold_locales
  let ?sv = "sidecar up accepts ext wi"
  have lm: "svLimits ?sv = wiLimits wi" by (simp add: sidecar_def)
  show "live.adds (sized (svLimits ?sv)) s s'"
    if "srcUpload (svScope ?sv) sc c m b s = (r1, s')" "within_size (lmMaxTransferBytes (svLimits ?sv)) b" for sc c m b s r1 s'
  proof -
    have "Upload up (printable ext) sc c m b (woHist s) = (r1, woHist s')"
      using that(1) by (auto simp: sidecar_def resolver_source_def dest: on_world_hist)
    with Upload_calls [of up "printable ext" sc c m b "woHist s"] upload_calls_sized that(2) show ?thesis
      by (fastforce simp: live.adds_def)
  qed
  show "live.adds (sized (svLimits ?sv)) s s'"
    if "srcSubmit (svScope ?sv) sc v fc ob mf s = (r2, s')" "mf \<noteq> []" "within_size (lmMaxManifestBytes (svLimits ?sv)) mf"
    for sc v fc ob mf s r2 s'
  proof -
    have "Submit up (printable ext) sc v fc mf (woHist s) = (r2, woHist s')"
      using that(1) by (auto simp: sidecar_def resolver_source_def resolver_Submit_def logged_def dest!: on_world_hist)
    from Submit_history [OF this] that(2,3) show ?thesis
      by (auto simp: live.adds_def accept_request_def Let_def)
  qed
  show "live.adds (sized (svLimits ?sv)) s s'"
    if "srcProgress (svScope ?sv) sc n st rd oc s = (r3, s')" "n \<noteq> []" "within_size 32 n" "st \<noteq> []" "within_size 32 st"
      "within_size 20 rd" "within_size 64 oc" for sc n st rd oc s r3 s'
  proof -
    have "Progress up sc n st rd oc (woHist s) = (r3, woHist s')"
      using that(1) by (auto simp: sidecar_def resolver_source_def resolver_Progress_def logged_def dest!: on_world_hist)
    with that(2-) Progress_history [of up sc n st rd oc "woHist s"] show ?thesis
      by (auto simp: live.adds_def progress_request_def)
  qed
  show "live.adds (sized (svLimits ?sv)) s s'" if "srcAcceptedStage (svScope ?sv) sc s = (r4, s')" for sc s r4 s'
  proof -
    have "AcceptedStage_read up sc (woHist s) = (r4, woHist s')"
      using that by (auto simp: sidecar_def resolver_source_def dest: on_world_hist)
    then show ?thesis by (auto simp: live.adds_def AcceptedStage_read_def dest!: read_stage_history)
  qed
  show "live.adds (sized (svLimits ?sv)) s s'" if "srcPriorStage (svScope ?sv) sc a s = (r5, s')" for sc a s r5 s'
  proof -
    have "PriorStage up sc a (woHist s) = (r5, woHist s')"
      using that by (auto simp: sidecar_def resolver_source_def dest: on_world_hist)
    then show ?thesis by (auto simp: live.adds_def PriorStage_def dest!: read_stage_history)
  qed
  have load: "Load up (printable ext) sc hn mx (woHist s) = (r6, woHist s')"
    if "srcLoad (svScope ?sv) sc hn mx s = (r6, s')" for sc hn mx s r6 s'
    using that by (auto simp: sidecar_def resolver_source_def dest: on_world_hist)
  show "live.adds (sized (svLimits ?sv)) s s'" if "srcLoad (svScope ?sv) sc hn mx s = (r6, s')" for sc hn mx s r6 s'
    using Load_calls [of up "printable ext" sc hn mx "woHist s"] load [OF that] load_calls_sized
    by (fastforce simp: live.adds_def)
  show "within_size mx (ldBytes ld)" if "srcLoad (svScope ?sv) sc hn mx s = (Inr ld, s')" "0 < mx" for sc hn mx s ld s'
    using Load_verified [OF load [OF that(1)]] that(2) by (simp add: within_size_def)
qed

section \<open>Staged inputs\<close>

definition staged_within :: "int \<Rightarrow> Inputs \<Rightarrow> bool" where
  "staged_within n ip \<longleftrightarrow> list_all (\<lambda>(name, b). int (length b) \<le> n) (ipBytes ip)"

lemma map_put_all: "list_all P m \<Longrightarrow> P (k, v) \<Longrightarrow> list_all P (map_put k v m)"
  by (induction k v m rule: map_put.induct) auto

lemma Stage_within:
  "staged_within n ip \<Longrightarrow> int (length b) \<le> n \<Longrightarrow> Stage_input ip name b = (r, ip') \<Longrightarrow> staged_within n ip'"
  by (cases r) (auto simp: staged_within_def result_simps intro: map_put_all dest: Stage_input_Inl)

lemma with_scope_staged:
  "staged_within n (fst st) \<Longrightarrow> (\<And>sc s1. staged_within n (fst (snd (go sc (fst st, s1))))) \<Longrightarrow>
     staged_within n (fst (snd (with_scope sv p w st go)))"
  by (auto simp: with_scope_def split: prod.split sum.split)

context bounded_interface begin

lemma staging_within:
  assumes "0 < lmMaxInputBytes (svLimits sv)" "staged_within (lmMaxInputBytes (svLimits sv)) (fst st)"
  shows "staged_within (lmMaxInputBytes (svLimits sv)) (fst (snd (putInput sv req vals w st)))"
    and "staged_within (lmMaxInputBytes (svLimits sv)) (fst (snd (loadInput sv req vals w st)))"
proof -
  have body: "int (length b) \<le> lmMaxInputBytes (svLimits sv)" if "read_body (lmMaxInputBytes (svLimits sv)) req = Some b" for b
    using read_body_size [OF that] assms(1) by (simp add: within_size_def)
  then show "staged_within (lmMaxInputBytes (svLimits sv)) (fst (snd (putInput sv req vals w st)))"
    unfolding putInput_def Let_def using assms(2)
    by (auto split: option.split sum.split prod.split intro!: with_scope_staged intro: Stage_within)
  have ld: "staged_within (lmMaxInputBytes (svLimits sv)) ip'"
    if "srcLoad (svScope sv) sc hn (lmMaxInputBytes (svLimits sv)) s = (Inr l, s')"
      "Stage_input (fst st) name (ldBytes l) = (r, ip')" for sc hn s l s' name r ip'
    using Stage_within [OF assms(2) _ that(2)] loaded_size [OF that(1) assms(1)] assms(1) by (simp add: within_size_def)
  show "staged_within (lmMaxInputBytes (svLimits sv)) (fst (snd (loadInput sv req vals w st)))"
    unfolding loadInput_def Let_def using assms(2)
    by (auto split: option.split sum.split prod.split intro!: with_scope_staged intro: ld)
qed

lemma Trusted_staged:
  assumes "0 < lmMaxInputBytes (svLimits sv)" "staged_within (lmMaxInputBytes (svLimits sv)) (fst st)"
  shows "staged_within (lmMaxInputBytes (svLimits sv)) (fst (snd (Trusted sv req w st)))"
proof -
  have h: "staged_within (lmMaxInputBytes (svLimits sv)) (fst (snd (trusted_handler sv r req vals w st)))" for r vals w
    using assms(2) staging_within [OF assms] by (cases r) (simp_all add: unchanged_inputs forbidden_def)
  have m: "staged_within (lmMaxInputBytes (svLimits sv))
      (fst (snd (serve_mux ext trusted_patterns (trusted_handler sv) req w st)))" for ext w
    by (cases rule: serve_mux_cases [where ext = ext and pats = trusted_patterns and run = "trusted_handler sv" and req = req and w = w and st = st])
       (simp_all add: h assms(2))
  show ?thesis
    unfolding Trusted_def
    using guard_state [of "svLog sv" "svTrustedUID sv" "svTrustedToken sv"
        "serve_mux (svExt sv) trusted_patterns (trusted_handler sv)" req w st] m assms(2) by auto
qed

lemma serve_all_staged:
  "0 < lmMaxInputBytes (svLimits sv) \<Longrightarrow> staged_within (lmMaxInputBytes (svLimits sv)) (fst st) \<Longrightarrow>
     staged_within (lmMaxInputBytes (svLimits sv)) (fst (serve_all sv rs st))"
proof (induction rs arbitrary: st)
  case (Cons r rs)
  obtain trusted req where r: "r = (trusted, req)" by (cases r)
  let ?st = "snd ((if trusted then Trusted sv else Candidate sv) req new_writer st)"
  have "staged_within (lmMaxInputBytes (svLimits sv)) (fst ?st)"
    using Cons.prems by (simp add: Trusted_staged Candidate_same_inputs)
  from Cons.IH [OF Cons.prems(1) this] show ?case by (simp add: r)
qed simp

end


text \<open>The trusted harness stages the brief of the sample launch.\<close>

definition staging_request :: request where
  "staging_request =
     \<lparr>hrMethod = ''PUT'', hrRequestURI = ''/v1/inputs/brief'', hrEscapedPath = ''/v1/inputs/brief'',
      hrHeader = [(HeaderToken, replicate 64 CHR ''a''), (HeaderNonce, replicate 32 CHR ''0'')],
      hrBody = ''{}'', hrTorn = False, hrPeer = Some \<lparr>pUID = 10000, pGID = 10000, pPID = 0\<rparr>\<rparr>"


end
