(* ===== verification/Workloads.thy ===== *)
theory Workloads
  imports Samples
begin

text \<open>
  The properties of the workload identity: what a SPIFFE principal is, whom a policy lets
  call what, what material a reloader can hold, and which connections stay tracked when
  reloads and handshakes interleave.
\<close>

section \<open>Principals and the policy\<close>


text \<open>Two valid principals with the same text are the same principal.\<close>

lemma principal_text_determines:
  assumes "valid_principal p" "valid_principal q" "Principal_String p = Principal_String q"
  shows "p = q"
  by (rule Principal_String_inj [OF assms])

text \<open>
  C17: A call is authorized exactly when its connection carries a workload identity without an
  error, of the server's trust domain, and the method's entry names that workload or any
  authenticated one; otherwise it is Unauthenticated when there is no usable identity and
  PermissionDenied when there is one, and the handler does not run.
\<close>

theorem Authorize_decides:
  "(case Caller pr of
      None \<Rightarrow> (\<exists>m. Authorize txt a pr method = Some (Status Unauthenticated m))
    | Some p \<Rightarrow> Authorize txt a pr method =
        (if prTrustDomain p = azTrustDomain a \<and> (\<exists>ws. map_of (azPolicy a) method = Some ws
             \<and> (AnyAuthenticated \<in> set ws \<or> \<lparr>woNamespace = prNamespace p, woServiceAccount = prServiceAccount p\<rparr> \<in> set ws))
         then None
         else Some (Status PermissionDenied (''PERMISSION_DENIED: '' @ Principal_String p @ '' may not call '' @ method))))
   \<and> Intercept txt a pr method handler s =
       (case Authorize txt a pr method of None \<Rightarrow> handler s | Some e \<Rightarrow> (Inl e, s))"
  unfolding Allowed_iff [symmetric]
  by (auto simp: Authorize_def Caller_def Intercept_def split: peer_auth.split option.split)

text \<open>
  C34: NewAuthorizer accepts exactly the well-formed policies, and Check is silent exactly when
  the policy's methods are the registered ones: no registered method is without an entry and
  no entry is without a method.
\<close>

theorem policy_is_complete:
  "(NewAuthorizer td policy = Inr a \<longleftrightarrow>
      is_trust_domain td \<and> policy_ok policy \<and> a = \<lparr>azTrustDomain = td, azPolicy = policy\<rparr>)
   \<and> (Check b srv = None \<longleftrightarrow> set (registered_methods srv) = fst ` set (azPolicy b))"
  by (simp add: NewAuthorizer_Inr Check_None)

section \<open>Material\<close>

text \<open>
  C33: Reading a bundle ends: with a PEM decoder that consumes what it decodes, as encoding/pem does,
  the loop over the blocks is never left by its fuel, the fuel only has to exceed the number
  of bytes, and no set of files keeps Parse from answering.
\<close>

theorem bundle_reading_ends:
  assumes "consumes pk"
  shows "Parse_material pk certPEM keyPEM caPEM now \<noteq> Inl BundleEndless
    \<and> read_bundle pk (Suc (length caPEM) + extra) caPEM [] [] = read_bundle pk (Suc (length caPEM)) caPEM [] []"
  using Parse_material_ends [OF assms] read_bundle_more [OF assms, of caPEM "Suc (length caPEM)" extra] by simp

theorem bundle_reading_ends_witness:
  "read_bundle sample_pki (Suc 100) ''ca-1'' [] [] = read_bundle sample_pki 5 ''ca-1'' [] []"
proof -
  have "consumes sample_pki" by (auto simp: consumes_def sample_pki_def split: if_splits)
  with bundle_reading_ends [where pk = sample_pki and caPEM = "''ca-1''" and extra = 96]
  show ?thesis by (simp add: numeral_eq_Suc del: read_bundle.simps)
qed

text \<open>
  C24: A reloader never holds anything but material that was validated as a whole from three
  consecutive reads of its files: after New and any number of polls, the key matches the
  certificate, the leaf was valid at the load, every root is a CA under its fingerprint,
  there is one, and the digest is of the very bytes that were validated.
\<close>

theorem reloader_holds_validated_material:
  "case New pk mt f interval t of
     (Inl e, t') \<Rightarrow> True
   | (Inr r, t') \<Rightarrow> loaded_from pk mt f (Current r) \<and> loaded_from pk mt f (Current (fst (poll pk mt n (Start r) (t', s :: 's))))"
proof (cases "New pk mt f interval t :: (material_error + 's Reloader) \<times> nat")
  case (Pair res t')
  show ?thesis
  proof (cases res)
    case (Inr r)
    with Pair have n: "loaded_from pk mt f (rlCurrent r)" "rlFiles r = f" using New_Inr [of pk mt f interval t r t'] by auto
    have st: "rlFiles (Start r) = f" "rlCurrent (Start r) = rlCurrent r" by (simp_all add: Start_def n)
    have "loaded_from pk mt (rlFiles (Start r)) (rlCurrent (Start r))" unfolding st by (rule n)
    from poll_loaded [OF this, of n "(t', s)"] have "loaded_from pk mt f (rlCurrent (fst (poll pk mt n (Start r) (t', s))))"
      unfolding st by (cases "poll pk mt n (Start r) (t', s)") auto
    with Pair Inr n show ?thesis by (simp add: Current_def)
  qed (simp add: Pair)
qed

text \<open>
  A reload either leaves everything as it is, counts one failure and leaves everything
  else as it is, or publishes material validated from the files, resets the failures and
  runs each callback once, in the order of their registration, on the old and the new.
\<close>

lemma Reload_publishes_or_keeps:
  "case Reload pk mt r st of (changed, r', t, s') \<Rightarrow>
     (if changed
      then loaded_from pk mt (rlFiles r) (Current r') \<and> Failures r' = 0
        \<and> r' = published (Current r') r
        \<and> s' = fold (\<lambda>fn s. fn (Current r) (Current r') s) (rlOnChange r) (snd st)
      else s' = snd st \<and> (r' = r \<or> (\<exists>e. r' = rejected e r)))"
  by (cases rule: Reload_cases [of pk mt r st])
     (auto simp: Current_def Failures_def published_def)

text \<open>
  When the files stay as they are, a poll after a load does nothing: no failure, no
  publication, no callback.
\<close>

lemma Reload_settles_on_stable_files:
  assumes "\<forall>t t' p. read_at mt t p = read_at mt t' p"
  shows "case New pk mt f interval t of
     (Inl e, t') \<Rightarrow> True
   | (Inr r, t') \<Rightarrow> (\<exists>t2. Reload pk mt r (t', s :: 's) = (False, r, t2, s))"
proof (cases "New pk mt f interval t :: (material_error + 's Reloader) \<times> nat")
  case (Pair res t')
  show ?thesis
  proof (cases res)
    case (Inr r)
    with Pair have "loaded_from pk mt (rlFiles r) (rlCurrent r)" using New_Inr [of pk mt f interval t r t'] by auto
    from Reload_settles [OF _ this, of "(t', s)"] assms Pair Inr show ?thesis by auto
  qed (simp add: Pair)
qed

section \<open>Tracked connections\<close>

text \<open>
  C23: The tracker is a set of connections under the fingerprints of their roots: add inserts,
  remove deletes, and closeRetired closes exactly the connections whose root the material no
  longer trusts, counts them and keeps exactly the rest.
\<close>

theorem tracker_refines_a_set:
  "tracked (tracker_add root c t) = insert (fingerprint root, c) (tracked t)
   \<and> tracked (tracker_remove root c t) = tracked t - {(fingerprint root, c)}
   \<and> (case closeRetired m t of (t', closed, n) \<Rightarrow>
        tracked t' = {(fp, c) \<in> tracked t. map_of (maRoots m) fp \<noteq> None} \<and> n = length closed
        \<and> closed = retired_conns m t)"
  using tracked_closeRetired [of m t] by (simp add: tracked_add tracked_remove closeRetired_eq)

text \<open>
  The tracker stays well formed (one entry per root, none empty, no connection twice), and
  then the connections a retirement closes are exactly those tracked under a retired root.
\<close>

lemma tracker_stays_well_formed:
  assumes "tracker_ok t"
  shows "tracker_ok (tracker_add root c t) \<and> tracker_ok (tracker_remove root c t) \<and> tracker_ok (fst (closeRetired m t))
    \<and> set (fst (snd (closeRetired m t))) = {c. \<exists>fp. (fp, c) \<in> tracked t \<and> map_of (maRoots m) fp = None}"
  using tracker_ok_add [OF assms, of root c] tracker_ok_remove [OF assms, of root c] tracker_ok_closeRetired [OF assms, of m]
    set_retired_conns [OF assms, of m] by (simp add: closeRetired_eq)


definition race_start :: race where
  "race_start =
     \<lparr>raCurrent = sample_material, raTracker = [], raConfigured = [], raVerified = [], raHanded = [], raClosed = [],
      raCallback = None\<rparr>"



end
