(* ===== verification/Encoding.thy ===== *)
theory Encoding
  imports Answers
begin

text \<open>
  Reading back what the sidecar's encoder writes: an object whose members are written by
  \<open>json_member\<close> parses to exactly these members, in order, and leaves what follows it.
\<close>

text \<open>A text that reads as a value wherever a member of an object can stand.\<close>

definition reads :: "bytes \<Rightarrow> json \<Rightarrow> bool" where
  "reads raw v \<longleftrightarrow> (\<forall>t. skip_ws (raw @ t) = raw @ t)
     \<and> (\<forall>n d t. (take 1 t = '','' \<or> take 1 t = ''}'') \<longrightarrow> parse_value (Suc n) d (raw @ t) = Some (v, t))"

lemma skip_ws_quote [simp]: "skip_ws (quote_char # t) = quote_char # t"
  by (simp add: skip_ws_def is_ws_def)

lemma scan_json_string: "valid_utf8 s \<Longrightarrow> scan_string (quote_body s @ quote_char # t) = Some (quote_body s, t)"
  using quote_body_roundtrip by blast

lemma unquote_json_string: "valid_utf8 s \<Longrightarrow> unquote (quote_body s) = s"
  using quote_body_roundtrip by blast

lemma reads_string: "valid_utf8 s \<Longrightarrow> reads (json_string s) (JStr s)"
  by (simp add: reads_def json_string_def scan_json_string unquote_json_string)

lemma reads_one: "reads ''1'' (JNum ''1'')"
proof -
  have d: "is_digit CHR ''1''" "\<not> is_digit CHR '',''" "\<not> is_digit CHR ''}''" by code_simp+
  have "scan_number (CHR ''1'' # t) = Some (''1'', t)" if "take 1 t = '','' \<or> take 1 t = ''}''" for t
    using that d
    by (cases t) (auto simp: scan_number_def scan_int_def take_digits_def scan_frac_def scan_exp_def)
  then show ?thesis by (simp add: reads_def skip_ws_def is_ws_def)
qed

lemma parse_members_written:
  assumes "ms \<noteq> []" "list_all (\<lambda>(k, raw, v). valid_utf8 k \<and> reads raw v) ms"
  shows "parse_members (Suc (length ms + n)) d (join_with '','' (map json_member (map (\<lambda>(k, raw, v). (k, raw)) ms)) @ ''}'' @ t)
    = Some (ms, t)"
  using assms
proof (induction ms arbitrary: n)
  case (Cons m ms)
  obtain k raw v where m: "m = (k, raw, v)" by (cases m)
  with "Cons.prems" have k: "valid_utf8 k" and r: "reads raw v" by simp_all
  let ?rest = "if ms = [] then ''}'' @ t else '','' @ join_with '','' (map json_member (map (\<lambda>(k, raw, v). (k, raw)) ms)) @ ''}'' @ t"
  have whole: "join_with '','' (map json_member (map (\<lambda>(k, raw, v). (k, raw)) (m # ms))) @ ''}'' @ t
      = quote_char # quote_body k @ quote_char # CHR '':'' # raw @ ?rest"
    by (cases ms) (simp_all add: m json_member_def json_string_def)
  have sep: "take 1 ?rest = '','' \<or> take 1 ?rest = ''}''" by simp
  have colon: "skip_ws (CHR '':'' # x) = CHR '':'' # x" "skip_ws (CHR ''}'' # x) = CHR ''}'' # x"
    "skip_ws (CHR '','' # x) = CHR '','' # x" for x by (simp_all add: skip_ws_def is_ws_def)
  have val: "parse_value (Suc j) d (raw @ ?rest) = Some (v, ?rest)" for j
    using r [unfolded reads_def] sep by blast
  have ws: "skip_ws (raw @ ?rest) = raw @ ?rest" using r [unfolded reads_def] by blast
  have used: "consumed (raw @ ?rest) ?rest = raw" by (simp add: consumed_def)
  show ?case
  proof (cases "ms = []")
    case True
    then show ?thesis
      using val [of n] ws used
      unfolding whole by (simp del: parse_value.simps add: m k scan_json_string unquote_json_string colon Let_def)
  next
    case False
    with Cons have "parse_members (Suc (length ms + n)) d (join_with '','' (map json_member (map (\<lambda>(k, raw, v). (k, raw)) ms)) @ ''}'' @ t)
        = Some (ms, t)" by simp
    with False show ?thesis
      using val [of "length ms + n"] ws used
      unfolding whole by (simp del: parse_value.simps add: m k scan_json_string unquote_json_string colon Let_def)
  qed
qed simp

lemma length_members: "length ms \<le> length (join_with '','' (map json_member ms))"
proof (induction ms rule: induct_list012)
  case (2 m)
  show ?case by (simp add: json_member_def)
next
  case (3 m m2 ms)
  then show ?case by simp
qed simp

lemma parse_object_written:
  assumes "ms \<noteq> []" "list_all (\<lambda>(k, raw, v). valid_utf8 k \<and> reads raw v) ms"
  shows "parse_json (json_object (map (\<lambda>(k, raw, v). (k, raw)) ms) @ t) = Some (JObj ms, t)"
proof -
  define b where "b = join_with '','' (map json_member (map (\<lambda>(k, raw, v). (k, raw)) ms)) @ ''}'' @ t"
  have whole: "json_object (map (\<lambda>(k, raw, v). (k, raw)) ms) @ t = CHR ''{'' # b"
    by (simp add: json_object_def b_def)
  obtain k raw v ms' where m: "ms = (k, raw, v) # ms'" using assms(1) by (metis neq_Nil_conv surj_pair)
  then obtain r where r: "b = quote_char # r" by (cases ms') (simp_all add: b_def json_member_def json_string_def)
  have "length ms \<le> length b"
    using length_members [of "map (\<lambda>(k, raw, v). (k, raw)) ms"] by (simp add: b_def)
  define n where "n = 2 * length (CHR ''{'' # b) - length ms"
  have n: "2 * length (CHR ''{'' # b) + 1 = Suc (length ms + n)"
    using \<open>length ms \<le> length b\<close> unfolding n_def by simp
  have "parse_members (2 * length (CHR ''{'' # b) + 1) (Suc 0) b = Some (ms, t)"
    unfolding n by (rule parse_members_written [OF assms, where t = t, folded b_def])
  then show ?thesis
    unfolding parse_json_def whole
    by (simp add: skip_ws_def is_ws_def max_depth_def r del: parse_members.simps)
qed

text \<open>
  A failure the sidecar answers reads back as what it was made of: the body is one JSON
  object with the code, and the reason when there is one, as strings, and a newline.
\<close>

lemma failure_roundtrip:
  assumes "valid_utf8 code" "valid_utf8 reason"
  shows "parse_json (body_of (fail st code reason \<lparr>wHeader = hs, wSent = None, wOut = [], wDeadline = dl\<rparr>)) =
    Some (JObj ((''code'', json_string code, JStr code)
                # (if reason = [] then [] else [(''reason'', json_string reason, JStr reason)])), [CHR 0x0A])"
proof -
  let ?ms = "(''code'', json_string code, JStr code)
      # (if reason = [] then [] else [(''reason'', json_string reason, JStr reason)])"
  have v: "valid_utf8 ''code''" "valid_utf8 ''reason''" by code_simp+
  have "list_all (\<lambda>(k, raw, v). valid_utf8 k \<and> reads raw v) ?ms" using assms v by (simp add: reads_string)
  from parse_object_written [OF _ this, of "[CHR 0x0A]"] show ?thesis by (cases "reason = []") simp_all
qed

end
