(* ===== verification/Startup.thy ===== *)
theory Startup
  imports Samples Encoding
begin

text \<open>
  Properties of internal/config and of internal/app's \<open>Run\<close>: which configurations are
  accepted, where the facts of a launch come from, what a started process is made of, when
  an accepted configuration starts, and that a run gives back all it took.
\<close>

section \<open>The environment\<close>

text \<open>Whether a variable is one the loader looks at, and the setting an allowed one makes.\<close>

definition of_sidecar :: "string \<Rightarrow> bool" where
  "of_sidecar kv = (let name = fst (str_cut kv ''='') in has_prefix name envPrefix \<and> name \<noteq> EnvConfigFile)"

definition variable_key :: "string \<Rightarrow> string option" where
  "variable_key kv = (if of_sidecar kv then map_of envOverrides (fst (str_cut kv ''='')) else None)"

definition variable_ok :: "string \<Rightarrow> bool" where
  "variable_ok kv = (if of_sidecar kv then variable_key kv \<noteq> None else True)"

fun settings :: "string list \<Rightarrow> (string \<times> string) list" where
  "settings [] = []"
| "settings (kv # rest) =
     (case variable_key kv of
        None \<Rightarrow> settings rest
      | Some key \<Rightarrow> (key, fst (snd (str_cut kv ''=''))) # settings rest)"

text \<open>The value the last variable of a key gives it, or what the file or the defaults give it.\<close>

definition layered :: "store \<Rightarrow> string list \<Rightarrow> string \<Rightarrow> cval option" where
  "layered k environ key =
     (case map_of (rev (settings environ)) key of
        Some v \<Rightarrow> Some (CStr v)
      | None \<Rightarrow> map_of k key)"

abbreviation "override_keys \<equiv> map snd envOverrides"

lemma override_keys_free:
  assumes "a \<in> set override_keys" "b \<in> set override_keys"
  shows "\<not> has_prefix a (b @ ''.'')"
proof -
  have "list_all (\<lambda>a. list_all (\<lambda>b. \<not> has_prefix a (b @ ''.'')) override_keys) override_keys" by code_simp
  with assms show ?thesis unfolding list_all_iff by blast
qed

lemma key_set_lookup:
  "a \<in> set override_keys \<Longrightarrow> key \<in> set override_keys \<Longrightarrow>
     map_of (key_set key v k) a = (if a = key then Some v else map_of k a)"
proof -
  assume a: "a \<in> set override_keys" "key \<in> set override_keys"
  let ?P = "\<lambda>j. j \<noteq> key \<and> \<not> has_prefix j (key @ ''.'') \<and> \<not> has_prefix key (j @ ''.'')"
  have k: "key_set key v k = filter (\<lambda>(j, _). ?P j) k @ [(key, v)]"
    by (simp add: key_set_def case_prod_beta)
  show ?thesis
  proof (cases "a = key")
    case True
    have "map_of (filter (\<lambda>(j, _). ?P j) k) key = None" by (auto simp: map_of_eq_None_iff)
    with True show ?thesis unfolding k by (simp add: map_add_def)
  next
    case False
    with override_keys_free a have "?P a" by blast
    with False map_of_filter_key [of ?P k a] show ?thesis unfolding k by (simp add: map_add_def split: option.splits)
  qed
qed

lemma settings_keys: "fst ` set (settings environ) \<subseteq> set override_keys"
proof (induction environ)
  case (Cons kv rest)
  have "key \<in> set override_keys" if "variable_key kv = Some key" for key
    using that by (force simp: variable_key_def dest: map_of_SomeD split: if_splits)
  with Cons show ?case by (auto split: option.splits)
qed simp

lemma env_loop_settings:
  "env_loop environ k u = (fold (\<lambda>(key, v). key_set key (CStr v)) (settings environ) k,
     u @ map (\<lambda>kv. fst (str_cut kv ''='')) (filter (\<lambda>kv. of_sidecar kv \<and> variable_key kv = None) environ))"
proof (induction environ arbitrary: k u)
  case (Cons kv rest)
  obtain name v f where c: "str_cut kv ''='' = (name, v, f)" by (cases "str_cut kv ''=''")
  show ?case
    using Cons.IH by (auto simp: c variable_key_def of_sidecar_def split: option.splits)
qed simp

lemma fold_key_set_lookup:
  "a \<in> set override_keys \<Longrightarrow> fst ` set ss \<subseteq> set override_keys \<Longrightarrow>
     map_of (fold (\<lambda>(key, v). key_set key (CStr v)) ss k) a
       = (case map_of (rev ss) a of Some v \<Rightarrow> Some (CStr v) | None \<Rightarrow> map_of k a)"
proof (induction ss arbitrary: k)
  case (Cons s ss)
  obtain key v where s: "s = (key, v)" by (cases s)
  from Cons.prems(2) have key: "key \<in> set override_keys" and ss: "fst ` set ss \<subseteq> set override_keys"
    by (auto simp: s)
  show ?case
    using Cons.IH [OF Cons.prems(1) ss] key_set_lookup [OF Cons.prems(1) key]
    by (simp add: s map_add_def split: option.splits)
qed simp

lemma applyEnv_Inr:
  "applyEnv k environ = Inr k' \<longleftrightarrow>
     list_all variable_ok environ
     \<and> k' = fold (\<lambda>(key, v). key_set key (CStr v)) (settings environ) k"
  by (auto simp: applyEnv_def env_loop_settings filter_empty_conv list_all_iff variable_ok_def)

lemma LoadFrom_Inr:
  assumes "LoadFrom ld path environ = Inr (c, errs)"
  shows "\<exists>k k' c0. read_file ld path defaults = Inr k
    \<and> find (key_exists k) launch_facts = None \<and> find (key_exists k) placements = None
    \<and> applyEnv k environ = Inr k' \<and> unmarshal ld k' = Inr c0 \<and> c = default_proxy_mode c0
    \<and> errs = validate (url_parse ld) c"
proof -
  from assms obtain k where k: "read_file ld path defaults = Inr k"
    by (cases "read_file ld path defaults") (auto simp: LoadFrom_def)
  from assms have f: "find (key_exists k) launch_facts = None" "find (key_exists k) placements = None"
    by (auto simp: LoadFrom_def k split: option.splits)
  from assms obtain k' where k': "applyEnv k environ = Inr k'"
    by (cases "applyEnv k environ") (auto simp: LoadFrom_def k f)
  from assms obtain c0 where "unmarshal ld k' = Inr c0"
    by (cases "unmarshal ld k'") (auto simp: LoadFrom_def k f k')
  with assms k f k' show ?thesis by (auto simp: LoadFrom_def Let_def)
qed

lemma find_None: "find P xs = None \<longleftrightarrow> list_all (\<lambda>x. \<not> P x) xs"
  by (auto simp: find_None_iff list_all_iff)

text \<open>
  C27: A configuration is read only when the file names none of the facts of a launch and none
  of the placements (the Proxy's URL and token), and when every variable with the sidecar's
  prefix is an allowed one.  Every key an allowed variable can set then has the value the
  last such variable gives it, and otherwise the one of the file or the defaults; a fact of
  the launch therefore comes from the environment or is absent.
\<close>

theorem environment_alone_supplies_launch_facts:
  "case LoadFrom ld path environ of
     Inl e \<Rightarrow> True
   | Inr (c, errs) \<Rightarrow>
       \<exists>k k' c0. read_file ld path defaults = Inr k
         \<and> list_all (\<lambda>key. \<not> key_exists k key \<and> layered k environ key = map_option CStr (map_of (rev (settings environ)) key))
             (launch_facts @ placements)
         \<and> list_all variable_ok environ
         \<and> list_all (\<lambda>key. map_of k' key = layered k environ key) override_keys
         \<and> unmarshal ld k' = Inr c0 \<and> c = default_proxy_mode c0 \<and> errs = validate (url_parse ld) c"
proof (cases "LoadFrom ld path environ")
  case (Inr r)
  obtain c errs where r: "r = (c, errs)" by (cases r)
  from Inr r have "LoadFrom ld path environ = Inr (c, errs)" by simp
  from LoadFrom_Inr [OF this] obtain k k' c0 where l: "read_file ld path defaults = Inr k"
      "find (key_exists k) launch_facts = None" "find (key_exists k) placements = None"
      "applyEnv k environ = Inr k'" "unmarshal ld k' = Inr c0" "c = default_proxy_mode c0"
      "errs = validate (url_parse ld) c" by blast
  have keys: "list_all (\<lambda>key. map_of k' key = layered k environ key) override_keys"
    using fold_key_set_lookup [OF _ settings_keys, of _ environ k] l(4)
    by (simp add: list_all_iff applyEnv_Inr layered_def)
  have absent: "map_of k key = None" if "\<not> key_exists k key" for key
    using that by (auto simp: key_exists_def list_ex_iff map_of_eq_None_iff)
  have facts: "list_all (\<lambda>key. \<not> key_exists k key
      \<and> layered k environ key = map_option CStr (map_of (rev (settings environ)) key)) (launch_facts @ placements)"
    using l(2,3) absent by (auto simp: find_None list_all_iff layered_def split: option.splits)
  show ?thesis
    unfolding Inr r using l(1,4-7) keys facts by (auto simp: applyEnv_Inr)
qed simp

text \<open>
  Validation reports nothing exactly for the configurations of the reviewed form: abstract
  distinct socket names, three distinct UIDs of which only the trusted one may be root, an
  identity mode with what it needs, a Proxy placement with its identity, a complete launch
  unless the profile is disabled, and every limit and timeout within its bounds.
\<close>

lemma validate_accepts: "validate up c = [] \<longleftrightarrow> config_ok up c"
  by (rule validate_Nil)

section \<open>What a run holds\<close>

text \<open>The resources of the process, and what they are once the deferred calls have run.\<close>

definition holdings :: "system \<Rightarrow> string list \<times> nat \<times> nat" where
  "holdings y = (syHeld y, syPolling y, syConns y)"

definition settled :: "system \<Rightarrow> string list \<times> nat \<times> nat" where
  "settled y = holdings (unwind y)"

lemma undo_frame:
  "undo d (y\<lparr>syDeferred := e\<rparr>) = (undo d y)\<lparr>syDeferred := e\<rparr>"
  "undo d (y\<lparr>syTick := t\<rparr>) = (undo d y)\<lparr>syTick := t\<rparr>"
  "undo d (y\<lparr>syLog := lg\<rparr>) = (undo d y)\<lparr>syLog := lg\<rparr>"
  "undo d (y\<lparr>syShutdown := sh\<rparr>) = (undo d y)\<lparr>syShutdown := sh\<rparr>"
  "syShutdown (undo d y) = syShutdown y" "syLog (undo d y) = syLog y"
  by (cases d; simp)+

lemma fold_undo_frame:
  "fold undo ds (y\<lparr>syDeferred := e\<rparr>) = (fold undo ds y)\<lparr>syDeferred := e\<rparr>"
  "fold undo ds (y\<lparr>syTick := t\<rparr>) = (fold undo ds y)\<lparr>syTick := t\<rparr>"
  "fold undo ds (y\<lparr>syLog := lg\<rparr>) = (fold undo ds y)\<lparr>syLog := lg\<rparr>"
  "fold undo ds (y\<lparr>syShutdown := sh\<rparr>) = (fold undo ds y)\<lparr>syShutdown := sh\<rparr>"
  "syShutdown (fold undo ds y) = syShutdown y" "syLog (fold undo ds y) = syLog y"
  by (induction ds arbitrary: y) (simp_all add: undo_frame)

lemma settled_defers: "settled (defers d y) = settled (undo d y)"
proof -
  have "syDeferred (undo d y) = syDeferred y" by (cases d) simp_all
  then show ?thesis by (simp add: settled_def unwind_def defers_def fold_undo_frame undo_frame holdings_def)
qed

lemma settled_tick [simp]: "settled (y\<lparr>syTick := t\<rparr>) = settled y"
  by (simp add: settled_def unwind_def fold_undo_frame holdings_def)

lemma settled_quiet [simp]: "settled (says l y) = settled y" "settled (y\<lparr>syShutdown := sh\<rparr>) = settled y"
  by (simp_all add: says_def settled_def unwind_def fold_undo_frame holdings_def)

lemma settled_polling [simp]: "settled (polling y) = settled y"
  by (simp add: polling_def settled_defers)

lemma settled_connected [simp]: "settled (connected y) = settled y"
  by (simp add: connected_def settled_defers)

lemma settled_on_tick [simp]: "on_tick f y = (r, y') \<Longrightarrow> settled y' = settled y"
  by (auto simp: on_tick_def split: prod.splits)

lemma settled_start_identity: "start_identity ho cfg y = (r, y') \<Longrightarrow> settled y' = settled y"
  by (auto simp: start_identity_def Let_def split: if_splits prod.splits sum.splits)

lemma settled_dial_control: "dial_control ho cfg files y = (r, y') \<Longrightarrow> settled y' = settled y"
  by (auto simp: dial_control_def split: prod.splits sum.splits)

lemma settled_prepare: "prepare ho cfg y = (r, y') \<Longrightarrow> settled y' = settled y"
  by (auto simp: prepare_def dest!: settled_start_identity settled_dial_control
      split: if_splits prod.splits sum.splits)

lemma settled_bind_sockets:
  assumes "bind_sockets ho cfg y = (r, y')"
  shows "settled y' = settled y"
proof -
  let ?c = "Create (hoBindFails ho) (scTrustedName (cfSockets cfg)) (scCandidateName (cfSockets cfg))
    (scTrustedUID (cfSockets cfg)) (scCandidateUID (cfSockets cfg)) (syHeld y)"
  show ?thesis
  proof (cases ?c)
    case (Pair res held)
    with assms Create_cases [where bf = "hoBindFails ho" and tn = "scTrustedName (cfSockets cfg)"
        and cn = "scCandidateName (cfSockets cfg)" and tu = "scTrustedUID (cfSockets cfg)"
        and cu = "scCandidateUID (cfSockets cfg)" and held = "syHeld y"]
    show ?thesis by (cases res) (auto simp: bind_sockets_def settled_defers)
  qed
qed

lemma settled_start_relays: "start_relays ho cfg files y = (r, y') \<Longrightarrow> settled y' = settled y"
  by (auto simp: start_relays_def start_model_def start_mcp_def start_knowledge_def
      Let_def split: if_splits prod.splits sum.splits option.splits)

lemma settled_start: "start ho cfg y = (r, y') \<Longrightarrow> settled y' = settled y"
  by (auto simp: start_def dest!: settled_prepare settled_bind_sockets settled_start_relays
      split: prod.splits sum.splits)

text \<open>No step before the serving shuts a server down.\<close>

lemma shutdown_frame [simp]:
  "syShutdown (says l y) = syShutdown y" "syShutdown (polling y) = syShutdown y"
  "syShutdown (connected y) = syShutdown y" "syShutdown (defers d y) = syShutdown y"
  "syShutdown (unwind y) = syShutdown y"
  by (simp_all add: says_def polling_def connected_def defers_def unwind_def fold_undo_frame)

lemma shutdown_on_tick: "on_tick f y = (r, y') \<Longrightarrow> syShutdown y' = syShutdown y"
  by (auto simp: on_tick_def split: prod.splits)

lemma shutdown_start: "start ho cfg y = (r, y') \<Longrightarrow> syShutdown y' = syShutdown y"
proof -
  have p: "prepare ho cfg y = (r, y') \<Longrightarrow> syShutdown y' = syShutdown y" for r y y'
    by (auto simp: prepare_def start_identity_def dial_control_def Let_def dest!: shutdown_on_tick
        split: if_splits prod.splits sum.splits)
  have b: "bind_sockets ho cfg y = (r, y') \<Longrightarrow> syShutdown y' = syShutdown y" for r y y'
    by (auto simp: bind_sockets_def split: prod.splits sum.splits)
  have l: "start_relays ho cfg files y = (r, y') \<Longrightarrow> syShutdown y' = syShutdown y" for files r y y'
    by (auto simp: start_relays_def start_model_def start_mcp_def start_knowledge_def Let_def dest!: shutdown_on_tick
        split: if_splits prod.splits sum.splits option.splits)
  show "start ho cfg y = (r, y') \<Longrightarrow> syShutdown y' = syShutdown y"
    by (auto simp: start_def dest!: p b l split: prod.splits sum.splits)
qed

text \<open>
  C14: However a run of the process ends, and at whichever step a start fails, the socket
  names, the polling reloaders and the open connections are what they were before it.  Both
  servers of a process that started are shut down gracefully, the trusted one first, unless
  one of them returned an error; then none is.
\<close>

theorem Run_gives_everything_back:
  "holdings (snd (Run ho cfg ending (y\<lparr>syDeferred := []\<rparr>))) = holdings y
   \<and> syDeferred (snd (Run ho cfg ending y)) = []
   \<and> syShutdown (snd (Run ho cfg ending y)) = syShutdown y @
       (case (fst (start ho cfg y), ending) of
          (Inl e, _) \<Rightarrow> []
        | (Inr po, ServerReturned (Some e)) \<Rightarrow> []
        | (Inr po, _) \<Rightarrow> [(lnName (loTrusted (poLayout po)), cfShutdownTimeout cfg),
                          (lnName (loCandidate (poLayout po)), cfShutdownTimeout cfg)])"
proof -
  obtain r y' where s: "start ho cfg (y\<lparr>syDeferred := []\<rparr>) = (r, y')"
    by (cases "start ho cfg (y\<lparr>syDeferred := []\<rparr>)")
  have "holdings (snd (Run ho cfg ending (y\<lparr>syDeferred := []\<rparr>))) = settled y'"
    by (cases r) (simp_all add: Run_def s settled_def [symmetric] shutdown_def split: serve_end.split option.split)
  then have "holdings (snd (Run ho cfg ending (y\<lparr>syDeferred := []\<rparr>))) = holdings y"
    using settled_start [OF s] by (simp add: settled_def unwind_def holdings_def)
  moreover have "syDeferred (snd (Run ho cfg ending y)) = []"
    by (simp add: Run_def unwind_def split: prod.splits sum.splits serve_end.split option.split)
  ultimately show ?thesis
    by (cases "start ho cfg y") (auto simp: Run_def shutdown_def shutdown_start split: sum.split serve_end.split option.split)
qed

section \<open>What a started process is made of\<close>

text \<open>The identity material a connection is made under, and the transport to a named server.\<close>

definition files_for :: "Config \<Rightarrow> TLSFiles option \<Rightarrow> bool" where
  "files_for cfg files \<longleftrightarrow>
     (if icMode (cfIdentity cfg) = IdentityMTLS
      then \<exists>f r. files = Some f \<and> tfReloader f = Some r \<and> tfServerName f = mtServerName (icMTLS (cfIdentity cfg))
      else files = None)"

definition transport_for :: "Config \<Rightarrow> string \<Rightarrow> transport_creds \<Rightarrow> bool" where
  "transport_for cfg name creds \<longleftrightarrow>
     (if icMode (cfIdentity cfg) = IdentityMTLS
      then name \<noteq> [] \<and> creds = WorkloadCreds \<lparr>ckServerName = name\<rparr>
      else creds = Plaintext)"

definition proxy_for :: "Config \<Rightarrow> Relay \<Rightarrow> bool" where
  "proxy_for cfg rl \<longleftrightarrow>
     \<not> pxFollowRedirects rl
     \<and> (if mpIdentityMode (cfModelProxy cfg) = IdentityMTLS
        then icMode (cfIdentity cfg) = IdentityMTLS \<and> pxAuthorization rl = None \<and> pxServerName rl \<noteq> None
        else pxAuthorization rl = Some (''Bearer '' @ mpToken (cfModelProxy cfg)) \<and> pxServerName rl = None)"

lemma on_tick_Inr: "on_tick f y = (r, y') \<Longrightarrow> f (syTick y) = (r, syTick y') \<and> syHeld y' = syHeld y"
  by (auto simp: on_tick_def split: prod.splits)

lemma held_frame [simp]: "syHeld (polling y) = syHeld y" "syHeld (connected y) = syHeld y" "syHeld (defers d y) = syHeld y"
    "syHeld (says l y) = syHeld y"
  by (simp_all add: polling_def connected_def defers_def says_def)

lemma start_identity_Inr: "start_identity ho cfg y = (Inr files, y') \<Longrightarrow> files_for cfg files \<and> syHeld y' = syHeld y"
  by (auto simp: start_identity_def files_for_def Let_def dest: on_tick_Inr split: if_splits prod.splits sum.splits)

lemma dial_transport:
  assumes "files_for cfg files" "dial_target ho a (with_server_name name files) t = (Inr creds, t')"
  shows "transport_for cfg name creds"
  using assms(1) dial_target_Inr [OF assms(2)]
  by (auto simp: files_for_def transport_for_def with_server_name_def split: if_splits)

lemma own_server_name:
  "files_for cfg files \<Longrightarrow> with_server_name (mtServerName (icMTLS (cfIdentity cfg))) files = files"
  by (auto simp: files_for_def with_server_name_def split: if_splits)

lemma dial_control_Inr:
  assumes "dial_control ho cfg files y = (Inr c, y')" "files_for cfg files"
  shows "transport_for cfg (mtServerName (icMTLS (cfIdentity cfg))) (coCreds c)
    \<and> coIdentity c = launch_identity cfg \<and> syHeld y' = syHeld y"
proof -
  let ?o = "\<lparr>opAddress = ccAddress (cfControl cfg), opTimeout = ccTimeout (cfControl cfg),
    opTLS = files, opUpload = Some (liUploadTimeout (cfLimits cfg))\<rparr>"
  from assms(1) obtain y1 where d: "on_tick (Dial ho (launch_identity cfg) ?o) y = (Inr c, y1)" "syHeld y' = syHeld y1"
    by (auto simp: dial_control_def split: prod.splits sum.splits)
  from on_tick_Inr [OF d(1)] obtain t where
    t: "dial_target ho (ccAddress (cfControl cfg)) files (syTick y) = (Inr (coCreds c), t)" "coIdentity c = launch_identity cfg"
    by (auto simp: Dial_def split: prod.splits sum.splits)
  from dial_transport [OF assms(2), of ho] own_server_name [OF assms(2)] t(1)
  have "transport_for cfg (mtServerName (icMTLS (cfIdentity cfg))) (coCreds c)" by metis
  with t(2) d on_tick_Inr [OF d(1)] show ?thesis by simp
qed

lemma prepare_Inr:
  assumes "prepare ho cfg y = (Inr pp, y')"
  shows "\<not> Disabled cfg \<and> hoUID ho = scOwnerUID (cfSockets cfg) \<and> hoEUID ho = scOwnerUID (cfSockets cfg)
    \<and> Parse (laEnvelope (cfLaunch cfg)) = Inr (ppEnvelope pp) \<and> eLaunchKey (ppEnvelope pp) = laLaunchKey (cfLaunch cfg)
    \<and> ParseSecret (laSecret (cfLaunch cfg)) = Inr (ppSecret pp) \<and> ppBinding pp = launch_binding cfg (ppEnvelope pp)
    \<and> coIdentity (ppClient pp) = launch_identity cfg \<and> files_for cfg (ppFiles pp)
    \<and> transport_for cfg (mtServerName (icMTLS (cfIdentity cfg))) (coCreds (ppClient pp)) \<and> syHeld y' = syHeld y"
proof -
  from assms obtain env files y1 client y2 secret where
    p: "\<not> Disabled cfg" "hoUID ho = scOwnerUID (cfSockets cfg)" "hoEUID ho = scOwnerUID (cfSockets cfg)"
      "Parse (laEnvelope (cfLaunch cfg)) = Inr env" "start_identity ho cfg y = (Inr files, y1)"
      "dial_control ho cfg files y1 = (Inr client, y')" "eLaunchKey env = laLaunchKey (cfLaunch cfg)"
      "ParseSecret (laSecret (cfLaunch cfg)) = Inr secret"
      "pp = \<lparr>ppEnvelope = env, ppFiles = files, ppClient = client, ppBinding = launch_binding cfg env, ppSecret = secret\<rparr>"
    by (auto simp: prepare_def split: if_splits prod.splits sum.splits)
  from start_identity_Inr [OF p(5)] dial_control_Inr [OF p(6)] p show ?thesis by simp
qed

lemma bind_sockets_Inr:
  assumes "bind_sockets ho cfg y = (Inr l, y')"
  shows "l = \<lparr>loTrusted = \<lparr>lnName = scTrustedName (cfSockets cfg), lnExpectedUID = scTrustedUID (cfSockets cfg)\<rparr>,
             loCandidate = \<lparr>lnName = scCandidateName (cfSockets cfg), lnExpectedUID = scCandidateUID (cfSockets cfg)\<rparr>\<rparr>
    \<and> syHeld y' = scCandidateName (cfSockets cfg) # scTrustedName (cfSockets cfg) # syHeld y"
proof (cases "Create (hoBindFails ho) (scTrustedName (cfSockets cfg)) (scCandidateName (cfSockets cfg))
    (scTrustedUID (cfSockets cfg)) (scCandidateUID (cfSockets cfg)) (syHeld y)")
  case (Pair res held)
  with assms Create_cases [where bf = "hoBindFails ho" and tn = "scTrustedName (cfSockets cfg)"
      and cn = "scCandidateName (cfSockets cfg)" and tu = "scTrustedUID (cfSockets cfg)"
      and cu = "scCandidateUID (cfSockets cfg)" and held = "syHeld y"]
  show ?thesis by (cases res) (auto simp: bind_sockets_def)
qed

lemma start_model_Inr:
  assumes "start_model ho cfg files y = (Inr (rl, files'), y')" "files_for cfg files"
  shows "(case rl of None \<Rightarrow> mpURL (cfModelProxy cfg) = [] | Some r \<Rightarrow> mpURL (cfModelProxy cfg) \<noteq> [] \<and> proxy_for cfg r)
    \<and> files_for cfg files' \<and> syHeld y' = syHeld y"
proof (cases "mpURL (cfModelProxy cfg) = []")
  case False
  let ?y = "if mpIdentityMode (cfModelProxy cfg) = IdentityMTLS then y else says DevelopmentProxyIdentity y"
  from False assms(1) obtain o' r fo where o': "relay_options cfg files = Inr o'"
      "on_tick (NewRelay ho o') ?y = (Inr (r, fo), y')" "rl = Some r"
      "files' = (case fo of None \<Rightarrow> files | Some f \<Rightarrow> map_option (\<lambda>g. g\<lparr>tfReloader := tfReloader f\<rparr>) files)"
    by (auto simp: start_model_def Let_def split: sum.splits prod.splits option.splits)
  from on_tick_Inr [OF o'(2)] have n: "NewRelay ho o' (syTick ?y) = (Inr (r, fo), syTick y')" and h: "syHeld y' = syHeld y"
    by (auto split: if_splits)
  have "files_for cfg files' \<and> proxy_for cfg r"
  proof (cases "mpIdentityMode (cfModelProxy cfg) = IdentityMTLS")
    case True
    with o'(1) assms(2) obtain f where f: "files = Some f"
        "roTLS o' = Some (f\<lparr>tfServerName := mpServerName (cfModelProxy cfg)\<rparr>)"
      by (auto simp: relay_options_def Let_def split: option.splits)
    from n f obtain rd where "fo = Some rd" "tfReloader rd \<noteq> None"
      by (auto simp: NewRelay_def proxy_transport_def Let_def split: if_splits option.splits sum.splits prod.splits)
    with f assms(2) o'(4) NewRelay_Inr [OF n] True show ?thesis
      by (auto simp: files_for_def proxy_for_def split: if_splits)
  next
    case False
    with o'(1) have "roTLS o' = None" "roToken o' = mpToken (cfModelProxy cfg)" by (auto simp: relay_options_def Let_def)
    with NewRelay_Inr [OF n] False assms(2) o'(4) show ?thesis by (auto simp: proxy_for_def)
  qed
  with False o'(3) h show ?thesis by simp
qed (use assms in \<open>auto simp: start_model_def\<close>)

lemma start_mcp_Inr:
  assumes "start_mcp ho cfg files y = (Inr m, y')" "files_for cfg files"
  shows "(case m of None \<Rightarrow> mcAddress (cfMCP cfg) = [] | Some g \<Rightarrow> transport_for cfg (mcServerName (cfMCP cfg)) (gcCreds g))
    \<and> syHeld y' = syHeld y"
  using assms(1) dial_transport [OF assms(2)]
  by (fastforce simp: start_mcp_def NewMCPRelay_def dest!: on_tick_Inr split: if_splits prod.splits sum.splits)

lemma start_knowledge_Inr:
  assumes "start_knowledge ho cfg files y = (Inr k, y')" "files_for cfg files"
  shows "(case k of None \<Rightarrow> knAddress (cfKnowledge cfg) = [] | Some g \<Rightarrow> transport_for cfg (knServerName (cfKnowledge cfg)) (gcCreds g))
    \<and> syHeld y' = syHeld y"
  using assms(1) dial_transport [OF assms(2)]
  by (fastforce simp: start_knowledge_def NewKnowledgeRelay_def dest!: on_tick_Inr split: if_splits prod.splits sum.splits)

lemma start_Inr:
  assumes "start ho cfg y = (Inr po, y')"
  obtains pp y1 y2 y3 rs where "prepare ho cfg y = (Inr pp, y1)" "bind_sockets ho cfg y1 = (Inr (poLayout po), y2)"
    "start_relays ho cfg (ppFiles pp) y2 = (Inr rs, y3)" "poPrepared po = pp" "poStarted po = rs"
    "poWiring po = wiring_of cfg pp rs" "y' = says (serving_line cfg rs) y3"
  using assms by (auto simp: start_def split: prod.splits sum.splits)

lemma start_relays_Inr:
  assumes "start_relays ho cfg files y = (Inr rs, y')"
  obtains files' y1 y2 where "start_model ho cfg files y = (Inr (stModel rs, files'), y1)"
    "start_mcp ho cfg files' y1 = (Inr (stMCP rs), y2)" "start_knowledge ho cfg files' y2 = (Inr (stKnowledge rs), y')"
  using assms by (auto simp: start_relays_def split: prod.splits sum.splits)

lemma start_relays_facts:
  assumes "start_relays ho cfg files y = (Inr rs, y')" "files_for cfg files"
  shows "(case stModel rs of None \<Rightarrow> mpURL (cfModelProxy cfg) = [] | Some r \<Rightarrow> mpURL (cfModelProxy cfg) \<noteq> [] \<and> proxy_for cfg r)
    \<and> (case stMCP rs of None \<Rightarrow> mcAddress (cfMCP cfg) = [] | Some g \<Rightarrow> transport_for cfg (mcServerName (cfMCP cfg)) (gcCreds g))
    \<and> (case stKnowledge rs of None \<Rightarrow> knAddress (cfKnowledge cfg) = []
       | Some g \<Rightarrow> transport_for cfg (knServerName (cfKnowledge cfg)) (gcCreds g))
    \<and> syHeld y' = syHeld y"
proof -
  obtain files' y1 y2 where r: "start_model ho cfg files y = (Inr (stModel rs, files'), y1)"
      "start_mcp ho cfg files' y1 = (Inr (stMCP rs), y2)" "start_knowledge ho cfg files' y2 = (Inr (stKnowledge rs), y')"
    using assms(1) by (rule start_relays_Inr)
  from start_model_Inr [OF r(1) assms(2)] have f: "files_for cfg files'" by simp
  from start_model_Inr [OF r(1) assms(2)] start_mcp_Inr [OF r(2) f] start_knowledge_Inr [OF r(3) f]
  show ?thesis by simp
qed

text \<open>
  A process serves only when its profile is enabled and it runs under the owner's UID, real
  and effective; it then holds both sockets, each accepting the UID its routes expect, and
  is wired to the launch: the envelope is one Parse accepts and names the launch key of the
  environment, the binding is the envelope's, and both peer tokens are derived from the
  launch secret.
\<close>

lemma started_process_is_of_the_launch:
  "case start ho cfg y of
     (Inl e, y') \<Rightarrow> True
   | (Inr po, y') \<Rightarrow>
       icMode (cfIdentity cfg) \<noteq> IdentityDisabled
       \<and> hoUID ho = scOwnerUID (cfSockets cfg) \<and> hoEUID ho = scOwnerUID (cfSockets cfg)
       \<and> syHeld y' = [lnName (loCandidate (poLayout po)), lnName (loTrusted (poLayout po))] @ syHeld y
       \<and> lnExpectedUID (loTrusted (poLayout po)) = wiTrustedUID (poWiring po)
       \<and> lnExpectedUID (loCandidate (poLayout po)) = wiCandidateUID (poWiring po)
       \<and> (\<exists>env secret. Parse (laEnvelope (cfLaunch cfg)) = Inr env \<and> eLaunchKey env = laLaunchKey (cfLaunch cfg)
            \<and> ParseSecret (laSecret (cfLaunch cfg)) = Inr secret
            \<and> wiEnvelope (poWiring po) = env
            \<and> wiResolver (poWiring po) = \<lparr>reIdentity = launch_identity cfg, reBinding = launch_binding cfg env\<rparr>
            \<and> wiTrustedToken (poWiring po) = Token secret RoleTrusted
            \<and> wiCandidateToken (poWiring po) = Token secret RoleCandidate)"
proof (cases "start ho cfg y")
  case (Pair r y')
  show ?thesis
  proof (cases r)
    case (Inr po)
    with Pair have "start ho cfg y = (Inr po, y')" by simp
    then obtain pp y1 y2 y3 rs where s: "prepare ho cfg y = (Inr pp, y1)" "bind_sockets ho cfg y1 = (Inr (poLayout po), y2)"
        "start_relays ho cfg (ppFiles pp) y2 = (Inr rs, y3)" "poWiring po = wiring_of cfg pp rs"
        "y' = says (serving_line cfg rs) y3"
      by (rule start_Inr)
    from prepare_Inr [OF s(1)] bind_sockets_Inr [OF s(2)] start_relays_facts [OF s(3)] s(4,5) Pair Inr
    show ?thesis by (simp add: wiring_of_def Disabled_def)
  qed (simp add: Pair)
qed


section \<open>When an accepted configuration starts\<close>

abbreviation succeeds :: "('e + 'a) \<times> 's \<Rightarrow> bool" where
  "succeeds r \<equiv> \<not> isl (fst r)"

text \<open>The host does its part: the UIDs, the free names, the reachable targets, the mounted identity.\<close>

definition host_ready :: "host \<Rightarrow> Config \<Rightarrow> system \<Rightarrow> bool" where
  "host_ready ho cfg y \<longleftrightarrow>
     hoUID ho = scOwnerUID (cfSockets cfg) \<and> hoEUID ho = scOwnerUID (cfSockets cfg)
     \<and> list_all (\<lambda>n. n \<notin> set (syHeld y) \<and> \<not> hoBindFails ho n) [scTrustedName (cfSockets cfg), scCandidateName (cfSockets cfg)]
     \<and> list_all (\<lambda>a. hoTargetError ho a = None) [ccAddress (cfControl cfg), mcAddress (cfMCP cfg), knAddress (cfKnowledge cfg)]
     \<and> hoProxyError ho (trim_right CHR ''/'' (mpURL (cfModelProxy cfg)) @ ''/api/v1'') = None
     \<and> (icMode (cfIdentity cfg) = IdentityMTLS \<longrightarrow> succeeds (start_identity ho cfg y))"

text \<open>What validation does not check: the launch key of the envelope, and what the relays need.\<close>

definition launch_agrees :: "Config \<Rightarrow> bool" where
  "launch_agrees cfg = (case Parse (laEnvelope (cfLaunch cfg)) of Inl _ \<Rightarrow> False | Inr e \<Rightarrow> eLaunchKey e = laLaunchKey (cfLaunch cfg))"

definition proxy_startable :: "host \<Rightarrow> Config \<Rightarrow> bool" where
  "proxy_startable ho cfg =
     (let p = cfModelProxy cfg in
      mpURL p = [] \<or>
      (if mpIdentityMode p = IdentityMTLS
       then mpServerName p \<noteq> [] \<or> (case hoURLParse ho (mpURL p) of None \<Rightarrow> False | Some u \<Rightarrow> puHostname u \<noteq> [])
       else mpToken p \<noteq> []))"

definition knowledge_startable :: "Config \<Rightarrow> bool" where
  "knowledge_startable cfg =
     (knAddress (cfKnowledge cfg) = [] \<or> icMode (cfIdentity cfg) \<noteq> IdentityMTLS \<or> knServerName (cfKnowledge cfg) \<noteq> [])"

lemma on_tick_succeeds [simp]: "succeeds (on_tick f y) = succeeds (f (syTick y))"
  by (simp add: on_tick_def split: prod.splits)

lemma dial_target_succeeds:
  "files_for cfg files \<Longrightarrow> hoTargetError ho a = None \<Longrightarrow>
     succeeds (dial_target ho a (with_server_name name files) t) = (icMode (cfIdentity cfg) \<noteq> IdentityMTLS \<or> name \<noteq> [])"
  by (auto simp: files_for_def with_server_name_def dial_target_def transportCredentials_def tls_reloader_def
      NewClientCredentials_def split: if_splits)

lemma succeeds_step:
  "succeeds (case x of (Inl e, s) \<Rightarrow> (Inl (f e), s) | (Inr a, s) \<Rightarrow> (Inr (g a), h s)) = succeeds x"
  by (cases x; cases "fst x") auto

lemma succeedsE: "succeeds x \<Longrightarrow> (\<And>a s. x = (Inr a, s) \<Longrightarrow> P) \<Longrightarrow> P"
  by (cases x; cases "fst x") auto

lemma dial_control_succeeds:
  assumes "files_for cfg files" "hoTargetError ho (ccAddress (cfControl cfg)) = None" "identity_ok cfg"
  shows "succeeds (dial_control ho cfg files y)"
proof -
  have "succeeds (dial_target ho (ccAddress (cfControl cfg)) files t)" for t
    using dial_target_succeeds [OF assms(1,2), of "mtServerName (icMTLS (cfIdentity cfg))" t] own_server_name [OF assms(1)] assms(3)
    by (auto simp: identity_ok_def Let_def)
  then show ?thesis
    by (simp add: dial_control_def succeeds_step Dial_def split: prod.splits sum.splits)
qed

lemma prepare_succeeds:
  assumes "host_ready ho cfg y" "identity_ok cfg" "launch_ok (cfLaunch cfg)" "\<not> Disabled cfg"
  shows "succeeds (prepare ho cfg y) = launch_agrees cfg"
proof -
  obtain env where e: "Parse (laEnvelope (cfLaunch cfg)) = Inr env" using assms(3) by (auto simp: launch_ok_def)
  obtain sec where sec: "ParseSecret (laSecret (cfLaunch cfg)) = Inr sec"
    using assms(3) ParseSecret_Inl_iff [of "laSecret (cfLaunch cfg)"] by (auto simp: launch_ok_def split: sum.splits)
  have "succeeds (start_identity ho cfg y)" using assms(1) by (auto simp: host_ready_def start_identity_def)
  then obtain files y1 where i: "start_identity ho cfg y = (Inr files, y1)" by (rule succeedsE)
  from start_identity_Inr [OF i] have f: "files_for cfg files" by simp
  have "succeeds (dial_control ho cfg files y1)"
    using dial_control_succeeds [OF f _ assms(2)] assms(1) by (simp add: host_ready_def)
  then obtain c y2 where d: "dial_control ho cfg files y1 = (Inr c, y2)" by (rule succeedsE)
  show ?thesis
    using assms(1,4) by (simp add: prepare_def host_ready_def e i d sec launch_agrees_def)
qed

lemma bind_sockets_succeeds:
  "host_ready ho cfg y \<Longrightarrow> syHeld y' = syHeld y \<Longrightarrow> sockets_ok (cfSockets cfg) \<Longrightarrow> succeeds (bind_sockets ho cfg y')"
  by (auto simp: bind_sockets_def Create_def listen_def host_ready_def sockets_ok_def)

lemma start_model_succeeds:
  assumes "host_ready ho cfg y" "files_for cfg files" "proxy_ok (hoURLParse ho) cfg"
  shows "succeeds (start_model ho cfg files y') = proxy_startable ho cfg"
proof (cases "mpURL (cfModelProxy cfg) = []")
  case False
  show ?thesis
  proof (cases "mpIdentityMode (cfModelProxy cfg) = IdentityMTLS")
    case True
    with assms(3) False have "icMode (cfIdentity cfg) = IdentityMTLS" by (auto simp: proxy_ok_def Let_def)
    with assms(2) obtain f r where f: "files = Some f" "tfReloader f = Some r" by (auto simp: files_for_def)
    from assms(1) False True f show ?thesis
      by (auto simp: start_model_def relay_options_def Let_def NewRelay_def proxy_transport_def tls_reloader_def
          proxy_server_name_def proxy_startable_def host_ready_def on_tick_def split: option.splits)
  next
    case dev: False
    from assms(1) False dev show ?thesis
      by (auto simp: start_model_def relay_options_def Let_def NewRelay_def proxy_transport_def
          proxy_startable_def host_ready_def on_tick_def)
  qed
qed (simp add: start_model_def proxy_startable_def)

lemma start_mcp_succeeds:
  assumes "host_ready ho cfg y" "files_for cfg files" "identity_ok cfg"
  shows "succeeds (start_mcp ho cfg files y')"
  using dial_target_succeeds [OF assms(2)] assms(1,3)
  by (auto simp: start_mcp_def succeeds_step NewMCPRelay_def host_ready_def identity_ok_def Let_def
      split: prod.splits sum.splits)

lemma start_knowledge_succeeds:
  assumes "host_ready ho cfg y" "files_for cfg files"
  shows "succeeds (start_knowledge ho cfg files y') = knowledge_startable cfg"
  using dial_target_succeeds [OF assms(2)] assms(1)
  by (auto simp: start_knowledge_def succeeds_step NewKnowledgeRelay_def host_ready_def knowledge_startable_def
      split: prod.splits sum.splits)

lemma start_relays_succeeds:
  assumes "host_ready ho cfg y" "files_for cfg files" "identity_ok cfg" "proxy_ok (hoURLParse ho) cfg"
  shows "succeeds (start_relays ho cfg files y') = (proxy_startable ho cfg \<and> knowledge_startable cfg)"
proof (cases "succeeds (start_model ho cfg files y')")
  case True
  then obtain m files' y1 where m: "start_model ho cfg files y' = (Inr (m, files'), y1)"
    by (metis succeedsE surj_pair)
  from start_model_Inr [OF m assms(2)] have f: "files_for cfg files'" by simp
  obtain g y2 where "start_mcp ho cfg files' y1 = (Inr g, y2)"
    using start_mcp_succeeds [OF assms(1) f assms(3)] by (rule succeedsE)
  then have "succeeds (start_relays ho cfg files y') = succeeds (start_knowledge ho cfg files' y2)"
    by (simp add: start_relays_def m split: prod.splits sum.splits)
  with True start_model_succeeds [OF assms(1,2,4)] start_knowledge_succeeds [OF assms(1) f] show ?thesis by simp
next
  case False
  then have "\<not> succeeds (start_relays ho cfg files y')"
    by (cases "start_model ho cfg files y'"; cases "fst (start_model ho cfg files y')") (auto simp: start_relays_def)
  with False start_model_succeeds [OF assms(1,2,4)] show ?thesis by simp
qed

lemma start_succeeds:
  assumes "config_ok (hoURLParse ho) cfg" "\<not> Disabled cfg" "host_ready ho cfg y"
  shows "succeeds (start ho cfg y) = (launch_agrees cfg \<and> proxy_startable ho cfg \<and> knowledge_startable cfg)"
proof (cases "launch_agrees cfg")
  case True
  from assms(1,2) have c: "identity_ok cfg" "proxy_ok (hoURLParse ho) cfg" "launch_ok (cfLaunch cfg)" "sockets_ok (cfSockets cfg)"
    by (simp_all add: config_ok_def)
  from True prepare_succeeds [OF assms(3) c(1,3) assms(2)] have "succeeds (prepare ho cfg y)" by simp
  then obtain pp y1 where p: "prepare ho cfg y = (Inr pp, y1)" by (rule succeedsE)
  from prepare_Inr [OF p] have f: "files_for cfg (ppFiles pp)" and h: "syHeld y1 = syHeld y" by simp_all
  obtain l y2 where b: "bind_sockets ho cfg y1 = (Inr l, y2)"
    using bind_sockets_succeeds [OF assms(3) h c(4)] by (rule succeedsE)
  have "succeeds (start ho cfg y) = succeeds (start_relays ho cfg (ppFiles pp) y2)"
    by (simp add: start_def p b split: prod.splits sum.splits)
  with True start_relays_succeeds [OF assms(3) f c(1,2)] show ?thesis by simp
next
  case False
  from assms(1,2) prepare_succeeds [OF assms(3) _ _ assms(2)] False have "\<not> succeeds (prepare ho cfg y)"
    by (simp add: config_ok_def)
  with False show ?thesis by (auto simp: start_def split: prod.splits sum.splits)
qed

text \<open>
  C12: On a host that does its part, a configuration that validation accepts and that is enabled
  starts exactly when three things hold that validation does not check: the envelope names
  the launch key of the environment, the Model Proxy has a token or, under mtls, a name to
  verify, and Knowledge, under mtls, has a server name.
\<close>

theorem accepted_configuration_starts:
  assumes "validate (hoURLParse ho) cfg = []" "\<not> Disabled cfg" "host_ready ho cfg y"
  shows "succeeds (start ho cfg y) = (launch_agrees cfg \<and> proxy_startable ho cfg \<and> knowledge_startable cfg)"
  using assms unfolding validate_Nil by (rule start_succeeds)

section \<open>A configuration that starts\<close>

definition launch_members :: "(string \<times> string) list" where
  "launch_members =
     [(''launchId'', ''l-1''), (''launchKey'', ''launch-1''), (''operationId'', ''op-1''), (''attemptId'', ''att-1''),
      (''profileId'', ''prof-1''), (''profileRevision'', ''1''), (''jobKind'', ''codegen''),
      (''executionEpoch'', ''3''), (''launchEpoch'', ''1''), (''deadline'', ''2026-10-08T12:00:00Z'')]"

definition launch_text :: string where
  "launch_text = json_object ((''schemaVersion'', ''1'') # map (\<lambda>(k, v). (k, json_string v)) launch_members)"

definition launch_envelope :: Envelope where
  "launch_envelope =
     \<lparr>eSchemaVersion = 1, eLaunchID = ''l-1'', eLaunchKey = ''launch-1'', eOperationID = ''op-1'',
      eAttemptID = ''att-1'', eProfileID = ''prof-1'', eProfileRevision = ''1'', eJobKind = ''codegen'',
      eExecutionEpoch = ''3'', eLaunchEpoch = ''1'', eDeadline = ''2026-10-08T12:00:00Z'', eComponent = None,
      eInputs = ([], 0)\<rparr>"

lemma launch_text_json:
  "parse_json launch_text =
     Some (JObj ((''schemaVersion'', ''1'', JNum ''1'') # map (\<lambda>(k, v). (k, json_string v, JStr v)) launch_members), [])"
proof -
  let ?ms = "(''schemaVersion'', ''1'', JNum ''1'') # map (\<lambda>(k, v). (k, json_string v, JStr v)) launch_members"
  have "list_all (\<lambda>(k, v). valid_utf8 k \<and> valid_utf8 v) launch_members" "valid_utf8 ''schemaVersion''" by code_simp+
  then have "list_all (\<lambda>(k, raw, v). valid_utf8 k \<and> reads raw v) ?ms"
    using reads_one reads_string by (auto simp: list_all_iff)
  from parse_object_written [OF _ this, of "[]"] show ?thesis
    by (simp add: launch_text_def split_def comp_def)
qed

lemma launch_text_accepted: "Parse launch_text = Inr launch_envelope"
proof -
  have "parse_digits ''1'' = Some 1" by code_simp
  then have "parse_int64 ''1'' = Some 1" by (simp add: parse_int64_def)
  then have n: "dec_int64 a (JNum ''1'') b = Some 1" for a b by (simp add: dec_int64_def)
  have "decode_strict envelopeFields zeroEnvelope launch_text = Some (launch_envelope, [])"
    by (simp add: decode_strict_def launch_text_json launch_members_def decode_struct_def find_field_def
        envelopeFields_def on_field_def dec_string_def n zeroEnvelope_def launch_envelope_def)
  moreover have "envelope_ok launch_envelope" by code_simp
  moreover have "\<not> dec_more []" by code_simp
  ultimately show ?thesis using Parse_Inr by blast
qed

definition sample_config :: Config where
  "sample_config =
     \<lparr>cfDevelopmentEnabled = False,
      cfSockets = \<lparr>scTrustedName = ''@anvilkit/trusted'', scCandidateName = ''@anvilkit/candidate'',
        scTrustedUID = 0, scCandidateUID = 10001, scOwnerUID = 10002\<rparr>,
      cfControl = \<lparr>ccAddress = ''control:443'', ccTimeout = 15 * second\<rparr>,
      cfIdentity = \<lparr>icMode = IdentityMTLS,
        icMTLS = \<lparr>mtCertFile = ''crt'', mtKeyFile = ''key'', mtCAFile = ''ca'', mtServerName = ''control''\<rparr>\<rparr>,
      cfLaunch = \<lparr>laBackend = ''k8s'', laLaunchKey = ''launch-1'', laPodUID = ''pod-1'', laEnvelope = launch_text,
        laSecret = replicate 64 CHR ''a''\<rparr>,
      cfModelProxy = \<lparr>mpURL = ''https://proxy/'', mpToken = [], mpTimeout = 300 * second, mpIdentityMode = IdentityMTLS,
        mpServerName = []\<rparr>,
      cfMCP = \<lparr>mcAddress = ''mcp:443'', mcTimeout = 120 * second, mcServerName = ''mcp''\<rparr>,
      cfKnowledge = \<lparr>knAddress = ''knowledge:443'', knTimeout = 30 * second, knServerName = ''knowledge''\<rparr>,
      cfLimits = \<lparr>liMaxInputBytes = 1048576, liMaxTransferBytes = 67108864, liMaxManifestBytes = 16384,
        liRequestTimeout = 60 * second, liUploadTimeout = 300 * second\<rparr>,
      cfShutdownTimeout = 20 * second\<rparr>"

definition sample_host :: host where
  "sample_host =
     \<lparr>hoUID = 10002, hoEUID = 10002, hoPKI = sample_pki, hoMount = sample_mount, hoBindFails = (\<lambda>n. False),
      hoURLParse = (\<lambda>s. Some \<lparr>puScheme = ''https'', puHost = ''proxy'', puHostname = ''proxy'', puHasUser = False\<rparr>),
      hoTargetError = (\<lambda>a. None), hoProxyError = (\<lambda>s. None)\<rparr>"

definition sample_system :: system where
  "sample_system = \<lparr>syTick = 0, syHeld = [''@other''], syPolling = 0, syConns = 0, syDeferred = [], syShutdown = [], syLog = []\<rparr>"

lemma sample_config_ok: "config_ok (hoURLParse sample_host) sample_config"
proof -
  have "sockets_ok (cfSockets sample_config)" "identity_ok sample_config" "proxy_ok (hoURLParse sample_host) sample_config"
    by (simp_all add: sample_config_def sample_host_def sockets_ok_def identity_ok_def proxy_ok_def IsAbstract_def has_prefix_def
        IdentityMTLS_def)
  moreover have "limits_ok sample_config" by (simp add: sample_config_def limits_ok_def)
  moreover have "is_label ''launch-1''" "lowerHex (replicate 64 CHR ''a'') 64" by code_simp+
  ultimately show ?thesis
    using launch_text_accepted by (auto simp: config_ok_def launch_ok_def sample_config_def)
qed

lemma sample_start_identity: "succeeds (start_identity sample_host sample_config sample_system)"
  using sample_new [where 'a = conns]
  by (simp add: start_identity_def sample_config_def sample_host_def sample_system_def on_tick_def sample_files_def Let_def)

definition bearer_config :: Config where
  "bearer_config = sample_config\<lparr>cfModelProxy :=
     \<lparr>mpURL = ''https://proxy/'', mpToken = ''token'', mpTimeout = 300 * second, mpIdentityMode = IdentityDisabled, mpServerName = []\<rparr>\<rparr>"

text \<open>What else the sample configurations and their host have.\<close>

lemma sample_ready:
  "\<not> Disabled sample_config" "host_ready sample_host sample_config sample_system" "launch_agrees sample_config"
  "proxy_startable sample_host sample_config" "knowledge_startable sample_config"
  using sample_start_identity launch_text_accepted
  by (simp_all add: Disabled_def host_ready_def launch_agrees_def proxy_startable_def knowledge_startable_def
      sample_config_def sample_host_def sample_system_def launch_envelope_def)

lemma bearer_ready:
  "config_ok (hoURLParse sample_host) bearer_config" "\<not> Disabled bearer_config"
  "host_ready sample_host bearer_config sample_system" "launch_agrees bearer_config"
  "proxy_startable sample_host bearer_config" "knowledge_startable bearer_config"
proof -
  have "start_identity sample_host bearer_config sample_system = start_identity sample_host sample_config sample_system"
    by (simp add: start_identity_def bearer_config_def)
  with sample_ready(2) show "host_ready sample_host bearer_config sample_system"
    by (simp add: host_ready_def bearer_config_def sample_host_def)
  show "config_ok (hoURLParse sample_host) bearer_config"
    using sample_config_ok
    by (simp add: config_ok_def identity_ok_def proxy_ok_def limits_ok_def Disabled_def bearer_config_def sample_host_def Let_def)
qed (use sample_ready in \<open>simp_all add: Disabled_def launch_agrees_def proxy_startable_def knowledge_startable_def bearer_config_def
    split: sum.splits\<close>)

theorem accepted_configuration_starts_witness:
  "succeeds (start sample_host sample_config sample_system)"
  using accepted_configuration_starts [OF validate_Nil [THEN iffD2, OF sample_config_ok] sample_ready(1,2)] sample_ready(3-5) by blast

text \<open>
  A Model Proxy whose own identity mode is disabled is still reached, and with the bearer
  token: a process that starts so presents it, whatever the process's own identity, and
  validation of the placement does not look at development.enabled.
\<close>

lemma disabled_proxy_mode_sends_the_token:
  assumes "mpIdentityMode (cfModelProxy cfg) = IdentityDisabled" "mpURL (cfModelProxy cfg) \<noteq> []"
    and "start ho cfg y = (Inr po, y')"
  shows "(\<exists>rl. stModel (poStarted po) = Some rl \<and> pxAuthorization rl = Some (''Bearer '' @ mpToken (cfModelProxy cfg)))
    \<and> validate_proxy up (cfg\<lparr>cfDevelopmentEnabled := False\<rparr>) = validate_proxy up cfg"
proof -
  from assms(3) obtain pp y1 y2 y3 rs where s: "prepare ho cfg y = (Inr pp, y1)"
      "start_relays ho cfg (ppFiles pp) y2 = (Inr rs, y3)" "poStarted po = rs"
    by (rule start_Inr)
  from prepare_Inr [OF s(1)] start_relays_facts [OF s(2)] s(3) assms(1,2)
  have "\<exists>rl. stModel (poStarted po) = Some rl \<and> pxAuthorization rl = Some (''Bearer '' @ mpToken (cfModelProxy cfg))"
    by (auto simp: proxy_for_def split: option.splits)
  with assms(1) show ?thesis by (simp add: validate_proxy_def Let_def)
qed

lemma bearer_config_sends_the_token:
  "\<not> cfDevelopmentEnabled bearer_config \<and> icMode (cfIdentity bearer_config) = IdentityMTLS
   \<and> validate (hoURLParse sample_host) bearer_config = []
   \<and> (\<exists>po y' rl. start sample_host bearer_config sample_system = (Inr po, y')
        \<and> stModel (poStarted po) = Some rl \<and> pxAuthorization rl = Some ''Bearer token'')"
proof -
  have "succeeds (start sample_host bearer_config sample_system)"
    using start_succeeds [OF bearer_ready(1-3)] bearer_ready(4-6) by blast
  then obtain po y' where s: "start sample_host bearer_config sample_system = (Inr po, y')" by (rule succeedsE)
  have "mpIdentityMode (cfModelProxy bearer_config) = IdentityDisabled" "mpURL (cfModelProxy bearer_config) \<noteq> []"
    by (simp_all add: bearer_config_def)
  from disabled_proxy_mode_sends_the_token [OF this s] s bearer_ready(1)
  show ?thesis by (auto simp: validate_Nil) (simp_all add: bearer_config_def sample_config_def)
qed

end
