(* ===== verification/Filesystem.thy ===== *)
theory Filesystem
  imports Prelude "HOL-Library.Word"
begin

text \<open>
  The part of package \<open>os\<close> that mounted identity files live in: a tree of directories, files
  and symbolic links, resolution of a path with the kernel's bound on links, and the calls
  that read and change it.  A path is its list of components; a \<open>history\<close> is the states of the
  tree so far, oldest first, one more after every call that changes it, so what another
  process can read between two calls is a state of the history.  Any call may fail:
  \<open>io n\<close> is the error of the call that would make the \<open>n\<close>th state, if the host gives one.
\<close>

section \<open>Paths\<close>

definition comps :: "string \<Rightarrow> string list" where
  "comps p = filter (\<lambda>c. c \<noteq> [] \<and> c \<noteq> ''.'') (split_on CHR ''/'' p)"

text \<open>\<open>filepath.Join\<close> of a clean directory and a clean name, and \<open>filepath.Base\<close>.\<close>

definition path_join :: "string \<Rightarrow> string \<Rightarrow> string" where
  "path_join dir name = (if dir = [] then name else dir @ ''/'' @ name)"

definition path_base :: "string \<Rightarrow> string" where
  "path_base p = (if comps p = [] then ''/'' else last (comps p))"

section \<open>The tree\<close>

datatype node = Dir | File bytes | Link string

type_synonym fs = "string list \<Rightarrow> node option"
type_synonym history = "fs list"

definition max_links :: nat where "max_links = 40"

text \<open>
  The physical path a path names: links are followed, at most as many as the kernel allows,
  and everything before the last component is a directory.
\<close>

function resolve :: "fs \<Rightarrow> nat \<Rightarrow> string list \<Rightarrow> string list \<Rightarrow> string list option" where
  "resolve d k base [] = Some base"
| "resolve d k base (c # rest) =
     (if c = ''..'' then resolve d k (butlast base) rest
      else (case d (base @ [c]) of
              None \<Rightarrow> None
            | Some Dir \<Rightarrow> resolve d k (base @ [c]) rest
            | Some (File b) \<Rightarrow> (if rest = [] then Some (base @ [c]) else None)
            | Some (Link t) \<Rightarrow>
                (if k = 0 then None
                 else resolve d (k - 1) (if has_prefix t ''/'' then [] else base) (comps t @ rest))))"
  by pat_completeness auto

termination
  by (relation "measures [\<lambda>(d, k, base, rest). k, \<lambda>(d, k, base, rest). length rest]") auto

definition is_dir :: "fs \<Rightarrow> string list \<Rightarrow> bool" where
  "is_dir d p = (p = [] \<or> d p = Some Dir)"

text \<open>Where the last component of a path stands, itself not followed.\<close>

definition place :: "fs \<Rightarrow> string list \<Rightarrow> string list option" where
  "place d p =
     (if p = [] then None
      else (case resolve d max_links [] (butlast p) of
              None \<Rightarrow> None
            | Some q \<Rightarrow> if is_dir d q then Some (q @ [last p]) else None))"

definition ReadFile :: "fs \<Rightarrow> string \<Rightarrow> string + bytes" where
  "ReadFile d p =
     (case resolve d max_links [] (comps p) of
        None \<Rightarrow> Inl ''no such file or directory''
      | Some q \<Rightarrow> (case d q of Some (File b) \<Rightarrow> Inr b | _ \<Rightarrow> Inl ''is a directory''))"

section \<open>Calls that change the tree\<close>

definition mkdir :: "string list \<Rightarrow> fs \<Rightarrow> string + fs" where
  "mkdir p d =
     (case place d p of
        None \<Rightarrow> Inl ''no such file or directory''
      | Some q \<Rightarrow> if d q = None then Inr (d(q \<mapsto> Dir)) else Inl ''file exists'')"

text \<open>Opening for writing truncates the file or makes it; a dangling link is refused.\<close>

definition create :: "string list \<Rightarrow> fs \<Rightarrow> string + fs" where
  "create p d =
     (case resolve d max_links [] p of
        Some q \<Rightarrow> (case d q of Some (File b) \<Rightarrow> Inr (d(q \<mapsto> File [])) | _ \<Rightarrow> Inl ''is a directory'')
      | None \<Rightarrow>
          (case place d p of
             None \<Rightarrow> Inl ''no such file or directory''
           | Some q \<Rightarrow> if d q = None then Inr (d(q \<mapsto> File [])) else Inl ''no such file or directory''))"

definition write_all :: "string list \<Rightarrow> bytes \<Rightarrow> fs \<Rightarrow> string + fs" where
  "write_all p b d =
     (case resolve d max_links [] p of
        None \<Rightarrow> Inl ''no such file or directory''
      | Some q \<Rightarrow> Inr (d(q \<mapsto> File b)))"

text \<open>A name that is not a directory is removed; the empty directories \<open>Remove\<close> takes are not needed.\<close>

definition unlink :: "string list \<Rightarrow> fs \<Rightarrow> string + fs" where
  "unlink p d =
     (case place d p of
        None \<Rightarrow> Inl ''no such file or directory''
      | Some q \<Rightarrow>
          (case d q of
             None \<Rightarrow> Inl ''no such file or directory''
           | Some Dir \<Rightarrow> Inl ''directory not empty''
           | Some _ \<Rightarrow> Inr (d(q := None))))"

definition symlink :: "string \<Rightarrow> string list \<Rightarrow> fs \<Rightarrow> string + fs" where
  "symlink t p d =
     (case place d p of
        None \<Rightarrow> Inl ''no such file or directory''
      | Some q \<Rightarrow> if d q = None then Inr (d(q \<mapsto> Link t)) else Inl ''file exists'')"

text \<open>Renaming what is not a directory: the new name is replaced in the same step.\<close>

definition rename :: "string list \<Rightarrow> string list \<Rightarrow> fs \<Rightarrow> string + fs" where
  "rename p p' d =
     (case (place d p, place d p') of
        (Some q, Some q') \<Rightarrow>
          (case d q of
             None \<Rightarrow> Inl ''no such file or directory''
           | Some Dir \<Rightarrow> Inl ''is a directory''
           | Some n \<Rightarrow> if d q' = Some Dir then Inl ''file exists'' else Inr ((d(q := None))(q' \<mapsto> n)))
      | _ \<Rightarrow> Inl ''no such file or directory'')"

definition Lstat :: "string list \<Rightarrow> fs \<Rightarrow> bool" where
  "Lstat p d = (case place d p of None \<Rightarrow> False | Some q \<Rightarrow> d q \<noteq> None)"

section \<open>Calls over a history\<close>

definition syscall :: "(nat \<Rightarrow> string option) \<Rightarrow> (fs \<Rightarrow> string + fs) \<Rightarrow> history \<Rightarrow> (string + unit) \<times> history" where
  "syscall io f h =
     (case io (length h) of
        Some e \<Rightarrow> (Inl e, h)
      | None \<Rightarrow> (case f (last h) of Inl e \<Rightarrow> (Inl e, h) | Inr d \<Rightarrow> (Inr (), h @ [d])))"

definition stat_dir :: "string list \<Rightarrow> fs \<Rightarrow> bool" where
  "stat_dir p d = (case resolve d max_links [] p of None \<Rightarrow> False | Some q \<Rightarrow> is_dir d q)"

fun mkdir_each ::
  "(nat \<Rightarrow> string option) \<Rightarrow> string list \<Rightarrow> string list \<Rightarrow> history \<Rightarrow> (string + unit) \<times> history" where
  "mkdir_each io base [] h = (Inr (), h)"
| "mkdir_each io base (c # cs) h =
     (if stat_dir (base @ [c]) (last h) then mkdir_each io (base @ [c]) cs h
      else (case syscall io (mkdir (base @ [c])) h of
              (Inl e, h') \<Rightarrow> (Inl e, h')
            | (Inr u, h') \<Rightarrow> mkdir_each io (base @ [c]) cs h'))"

definition MkdirAll :: "(nat \<Rightarrow> string option) \<Rightarrow> string \<Rightarrow> history \<Rightarrow> (string + unit) \<times> history" where
  "MkdirAll io dir h = mkdir_each io [] (comps dir) h"

text \<open>
  \<open>os.MkdirTemp\<close> of a pattern without a star: the pattern and a random number of 32 bits, drawn
  again when the name exists.  \<open>draws\<close> are the numbers it draws, as many as it tries.
\<close>

fun MkdirTemp ::
  "(nat \<Rightarrow> string option) \<Rightarrow> 32 word list \<Rightarrow> string \<Rightarrow> string \<Rightarrow> history \<Rightarrow> (string + string) \<times> history" where
  "MkdirTemp io [] dir pat h = (Inl ''file exists'', h)"
| "MkdirTemp io (w # ws) dir pat h =
     (let name = path_join dir (pat @ show_nat (unat w)) in
      if Lstat (comps name) (last h) then MkdirTemp io ws dir pat h
      else (case syscall io (mkdir (comps name)) h of
              (Inl e, h') \<Rightarrow> (Inl e, h')
            | (Inr u, h') \<Rightarrow> (Inr name, h')))"

definition WriteFile :: "(nat \<Rightarrow> string option) \<Rightarrow> string \<Rightarrow> bytes \<Rightarrow> history \<Rightarrow> (string + unit) \<times> history" where
  "WriteFile io p b h =
     (case syscall io (create (comps p)) h of
        (Inl e, h') \<Rightarrow> (Inl e, h')
      | (Inr u, h') \<Rightarrow> syscall io (write_all (comps p) b) h')"

definition Remove :: "(nat \<Rightarrow> string option) \<Rightarrow> string \<Rightarrow> history \<Rightarrow> (string + unit) \<times> history" where
  "Remove io p h = syscall io (unlink (comps p)) h"

definition Symlink :: "(nat \<Rightarrow> string option) \<Rightarrow> string \<Rightarrow> string \<Rightarrow> history \<Rightarrow> (string + unit) \<times> history" where
  "Symlink io t p h = syscall io (symlink t (comps p)) h"

definition Rename :: "(nat \<Rightarrow> string option) \<Rightarrow> string \<Rightarrow> string \<Rightarrow> history \<Rightarrow> (string + unit) \<times> history" where
  "Rename io p p' h = syscall io (rename (comps p) (comps p')) h"

section \<open>Lemmas\<close>

lemma split_on_at: "split_on d (u @ d # t) = split_on d u @ split_on d t"
  by (induction u) (auto split: list.split)

lemma comps_append: "comps (u @ CHR ''/'' # t) = comps u @ comps t"
  by (simp add: comps_def split_on_at)

lemma comps_join [simp]: "comps (path_join dir name) = comps dir @ comps name"
  by (simp add: path_join_def comps_append) (simp add: comps_def)

text \<open>Directories all the way down a path, so that it names itself.\<close>

fun dirs :: "fs \<Rightarrow> string list \<Rightarrow> string list \<Rightarrow> bool" where
  "dirs d base [] \<longleftrightarrow> True"
| "dirs d base (c # cs) \<longleftrightarrow> c \<noteq> ''..'' \<and> d (base @ [c]) = Some Dir \<and> dirs d (base @ [c]) cs"

lemma resolve_dirs: "dirs d base cs \<Longrightarrow> resolve d k base (cs @ rest) = resolve d k (base @ cs) rest"
  by (induction cs arbitrary: base) simp_all

lemma resolve_dirs_only [simp]: "dirs d base cs \<Longrightarrow> resolve d k base cs = Some (base @ cs)"
  using resolve_dirs [of d base cs k "[]"] by simp

lemma dirs_append: "dirs d base (cs @ ds) \<longleftrightarrow> dirs d base cs \<and> dirs d (base @ cs) ds"
  by (induction cs arbitrary: base) auto

lemma dirs_end: "dirs d base cs \<Longrightarrow> cs \<noteq> [] \<Longrightarrow> d (base @ cs) = Some Dir"
proof (induction cs arbitrary: base)
  case (Cons c cs)
  with Cons.IH [of "base @ [c]"] show ?case by (cases cs) auto
qed simp

lemma dirs_is_dir [simp]: "dirs d [] cs \<Longrightarrow> is_dir d cs"
  using dirs_end [of d "[]" cs] by (auto simp: is_dir_def)

lemma place_in: "dirs d [] cs \<Longrightarrow> place d (cs @ [n]) = Some (cs @ [n])"
  by (simp add: place_def)

text \<open>A change below a directory leaves the directories above as they are.\<close>

lemma dirs_cong: "(\<And>p. length p \<le> length base + length cs \<Longrightarrow> d' p = d p) \<Longrightarrow> dirs d' base cs = dirs d base cs"
proof (induction cs arbitrary: base)
  case (Cons c cs)
  have "dirs d' (base @ [c]) cs = dirs d (base @ [c]) cs" by (rule Cons.IH) (simp add: Cons.prems)
  with Cons.prems [of "base @ [c]"] show ?case by simp
qed simp

lemma dirs_upd [simp]: "length base + length cs < length p \<Longrightarrow> dirs (d(p := n)) base cs = dirs d base cs"
  by (rule dirs_cong) auto

text \<open>What a call did: it failed and left no state, or it made one.\<close>

lemma syscall_cases:
  obtains (fails) e where "syscall io f h = (Inl e, h)"
  | (makes) d where "io (length h) = None" "f (last h) = Inr d" "syscall io f h = (Inr (), h @ [d])"
  by (cases "io (length h)"; cases "f (last h)") (auto simp: syscall_def)

lemma syscall_Inr: "syscall io f h = (Inr u, h') \<longleftrightarrow> io (length h) = None \<and> (\<exists>d. f (last h) = Inr d \<and> h' = h @ [d])"
  by (cases rule: syscall_cases [of io f h]) (auto simp: syscall_def split: option.splits sum.splits)

text \<open>The states a run added all satisfy a predicate.\<close>

definition grows :: "(fs \<Rightarrow> bool) \<Rightarrow> history \<Rightarrow> history \<Rightarrow> bool" where
  "grows P h h' \<longleftrightarrow> (\<exists>ext. h' = h @ ext \<and> list_all P ext)"

lemma grows_refl [simp, intro]: "grows P h h"
  by (simp add: grows_def)

lemma grows_trans [trans]: "grows P h h' \<Longrightarrow> grows P h' h'' \<Longrightarrow> grows P h h''"
  by (auto simp: grows_def)

lemma grows_one [intro]: "P d \<Longrightarrow> grows P h (h @ [d])"
  by (simp add: grows_def)

lemma grows_mono: "grows P h h' \<Longrightarrow> (\<And>d. P d \<Longrightarrow> Q d) \<Longrightarrow> grows Q h h'"
  by (auto simp: grows_def list_all_iff)

lemma grows_last: "grows P h h' \<Longrightarrow> P (last h) \<Longrightarrow> P (last h')"
  by (auto simp: grows_def list_all_iff last_append)

lemma grows_nonempty: "grows P h h' \<Longrightarrow> h \<noteq> [] \<Longrightarrow> h' \<noteq> []"
  by (auto simp: grows_def)

end
