(* ===== verification/Pki.thy ===== *)
theory Pki
  imports Filesystem Material "HOL-Library.Multiset"
begin

text \<open>
  internal/identity/identitytest/pki.go: certificate authorities and leaves in memory, and
  mounted identity files in the layout and with the rotation of the kubelet.  Key generation, random
  numbers, the clock and the signing of a template are the fields of \<open>signer\<close>; what differs
  from call to call is given the number of calls before it, the clock the reading of the call too.  A failed step of a helper
  ends the test (\<open>t.Fatal\<close>, or the panic on the nil parent of an unread CA): it is the \<open>Inl\<close>
  of the result.
\<close>

section \<open>Certificates\<close>

datatype key_usage = KeyUsageDigitalSignature | KeyUsageCertSign | KeyUsageCRLSign
datatype ext_key_usage = ExtKeyUsageServerAuth | ExtKeyUsageClientAuth

record template =
  tmSerialNumber :: nat
  tmCommonName :: string
  tmNotBefore :: time
  tmNotAfter :: time
  tmIsCA :: bool
  tmBasicConstraintsValid :: bool
  tmKeyUsage :: "key_usage list"
  tmExtKeyUsage :: "ext_key_usage list"
  tmDNSNames :: "string list"
  tmIPAddresses :: "nat list list"
  tmURIs :: "url list"

text \<open>Keys are kept as what identifies them; a certificate is signed by a key of its issuer.\<close>

record signer =
  generate_key :: "nat \<Rightarrow> string + bytes"
  rand_int :: "nat \<Rightarrow> nat \<Rightarrow> string + nat"
  now_at :: "nat \<Rightarrow> nat \<Rightarrow> time"
  public_key :: "bytes \<Rightarrow> bytes"
  create_certificate :: "template \<Rightarrow> template + Certificate \<Rightarrow> bytes \<Rightarrow> bytes \<Rightarrow> string + bytes"
  parse_der :: "bytes \<Rightarrow> string + Certificate"
  marshal_key :: "bytes \<Rightarrow> string + bytes"
  url_of :: "string \<Rightarrow> string + url"
  pem_encode :: "pem_block \<Rightarrow> bytes"

record CA =
  caCert :: "Certificate option"
  caKey :: bytes
  caPEM :: bytes

record Leaf =
  lfCertPEM :: bytes
  lfKeyPEM :: bytes

text \<open>A serial is below 2 to the 120.\<close>

definition serial :: "signer \<Rightarrow> nat \<Rightarrow> string + nat" where
  "serial sg n = rand_int sg n (2 ^ 120)"

abbreviation hour :: duration where "hour \<equiv> 3600 * second"

text \<open>The self-signed template is its own parent, so a parent is a template or a certificate.\<close>

definition NewCA :: "signer \<Rightarrow> string \<Rightarrow> nat \<Rightarrow> string + CA" where
  "NewCA sg name n =
     (case generate_key sg n of
        Inl e \<Rightarrow> Inl e
      | Inr key \<Rightarrow>
          (case serial sg n of
             Inl e \<Rightarrow> Inl e
           | Inr no \<Rightarrow>
               let tmpl = \<lparr>tmSerialNumber = no, tmCommonName = name,
                     tmNotBefore = now_at sg n 0 - hour, tmNotAfter = now_at sg n 1 + 24 * hour,
                     tmIsCA = True, tmBasicConstraintsValid = True,
                     tmKeyUsage = [KeyUsageCertSign, KeyUsageCRLSign], tmExtKeyUsage = [],
                     tmDNSNames = [], tmIPAddresses = [], tmURIs = []\<rparr> in
               (case create_certificate sg tmpl (Inl tmpl) (public_key sg key) key of
                  Inl e \<Rightarrow> Inl e
                | Inr der \<Rightarrow>
                    Inr \<lparr>caCert = (case parse_der sg der of Inl _ \<Rightarrow> None | Inr c \<Rightarrow> Some c), caKey = key,
                      caPEM = pem_encode sg \<lparr>blType = ''CERTIFICATE'', blBytes = der\<rparr>\<rparr>)))"

fun parse_uris :: "signer \<Rightarrow> string list \<Rightarrow> url list \<Rightarrow> string + url list" where
  "parse_uris sg [] acc = Inr acc"
| "parse_uris sg (u # us) acc =
     (case url_of sg u of Inl e \<Rightarrow> Inl e | Inr parsed \<Rightarrow> parse_uris sg us (acc @ [parsed]))"

definition leaf_template ::
  "nat \<Rightarrow> string \<Rightarrow> time \<Rightarrow> time \<Rightarrow> string list \<Rightarrow> url list \<Rightarrow> template" where
  "leaf_template no commonName notBefore notAfter dnsNames us =
     \<lparr>tmSerialNumber = no, tmCommonName = commonName, tmNotBefore = notBefore, tmNotAfter = notAfter,
      tmIsCA = False, tmBasicConstraintsValid = False,
      tmKeyUsage = [KeyUsageDigitalSignature], tmExtKeyUsage = [ExtKeyUsageServerAuth, ExtKeyUsageClientAuth],
      tmDNSNames = ''localhost'' # dnsNames, tmIPAddresses = [[127, 0, 0, 1]], tmURIs = us\<rparr>"

definition IssueFor ::
  "signer \<Rightarrow> CA \<Rightarrow> string \<Rightarrow> string list \<Rightarrow> time \<Rightarrow> time \<Rightarrow> string list \<Rightarrow> nat \<Rightarrow> string + Leaf" where
  "IssueFor sg ca commonName uris notBefore notAfter dnsNames n =
     (case generate_key sg n of
        Inl e \<Rightarrow> Inl e
      | Inr key \<Rightarrow>
          (case serial sg n of
             Inl e \<Rightarrow> Inl e
           | Inr no \<Rightarrow>
               (case parse_uris sg uris [] of
                  Inl e \<Rightarrow> Inl e
                | Inr us \<Rightarrow>
                    (case caCert ca of
                       None \<Rightarrow> Inl ''nil parent''
                     | Some parent \<Rightarrow>
                         (case create_certificate sg (leaf_template no commonName notBefore notAfter dnsNames us)
                                 (Inr parent) (public_key sg key) (caKey ca) of
                            Inl e \<Rightarrow> Inl e
                          | Inr der \<Rightarrow>
                              (case marshal_key sg key of
                                 Inl e \<Rightarrow> Inl e
                               | Inr keyDER \<Rightarrow>
                                   Inr \<lparr>lfCertPEM = pem_encode sg \<lparr>blType = ''CERTIFICATE'', blBytes = der\<rparr>,
                                     lfKeyPEM = pem_encode sg \<lparr>blType = ''EC PRIVATE KEY'', blBytes = keyDER\<rparr>\<rparr>))))))"

definition Issue :: "signer \<Rightarrow> CA \<Rightarrow> string \<Rightarrow> string list \<Rightarrow> string list \<Rightarrow> nat \<Rightarrow> string + Leaf" where
  "Issue sg ca commonName uris dnsNames n =
     IssueFor sg ca commonName uris (now_at sg n 0 - 60 * second) (now_at sg n 1 + 12 * hour) dnsNames n"

definition SPIFFE :: "string \<Rightarrow> string \<Rightarrow> string \<Rightarrow> string" where
  "SPIFFE trustDomain namespace sa = ''spiffe://'' @ trustDomain @ ''/ns/'' @ namespace @ ''/sa/'' @ sa"

section \<open>Mounted files\<close>

fun write_files ::
  "(nat \<Rightarrow> string option) \<Rightarrow> string \<Rightarrow> (string \<times> bytes) list \<Rightarrow> history \<Rightarrow> (string + unit) \<times> history" where
  "write_files io ts [] h = (Inr (), h)"
| "write_files io ts ((name, body) # fs) h =
     (case WriteFile io (path_join ts name) body h of
        (Inl e, h') \<Rightarrow> (Inl e, h')
      | (Inr u, h') \<Rightarrow> write_files io ts fs h')"

fun link_names ::
  "(nat \<Rightarrow> string option) \<Rightarrow> string \<Rightarrow> string list \<Rightarrow> history \<Rightarrow> (string + unit) \<times> history" where
  "link_names io dir [] h = (Inr (), h)"
| "link_names io dir (name # names) h =
     (let p = path_join dir name in
      if Lstat (comps p) (last h) then link_names io dir names h
      else (case Symlink io (path_join ''..data'' name) p h of
              (Inl e, h') \<Rightarrow> (Inl e, h')
            | (Inr u, h') \<Rightarrow> link_names io dir names h'))"

definition mounted_names :: "string list" where
  "mounted_names = [''tls.crt'', ''tls.key'', ''ca.crt'']"

definition bodies :: "Leaf \<Rightarrow> bytes \<Rightarrow> (string \<times> bytes) list" where
  "bodies leaf caBundle = [(''tls.crt'', lfCertPEM leaf), (''tls.key'', lfKeyPEM leaf), (''ca.crt'', caBundle)]"

text \<open>The bodies are ranged over as a Go map: in the order \<open>order\<close> gives.\<close>

definition Mount ::
  "(nat \<Rightarrow> string option) \<Rightarrow> 32 word list \<Rightarrow> ((string \<times> bytes) list \<Rightarrow> (string \<times> bytes) list)
     \<Rightarrow> string \<Rightarrow> Leaf \<Rightarrow> bytes \<Rightarrow> history \<Rightarrow> (string + unit) \<times> history" where
  "Mount io draws order dir leaf caBundle h =
     (case MkdirAll io dir h of
        (Inl e, h1) \<Rightarrow> (Inl e, h1)
      | (Inr _, h1) \<Rightarrow>
          (case MkdirTemp io draws dir ''..ts-'' h1 of
             (Inl e, h2) \<Rightarrow> (Inl e, h2)
           | (Inr ts, h2) \<Rightarrow>
               (case write_files io ts (order (bodies leaf caBundle)) h2 of
                  (Inl e, h3) \<Rightarrow> (Inl e, h3)
                | (Inr _, h3) \<Rightarrow>
                    let tmp = path_join dir ''..data_tmp'' in
                    (case Symlink io (path_base ts) tmp (snd (Remove io tmp h3)) of
                       (Inl e, h4) \<Rightarrow> (Inl e, h4)
                     | (Inr _, h4) \<Rightarrow>
                         (case Rename io tmp (path_join dir ''..data'') h4 of
                            (Inl e, h5) \<Rightarrow> (Inl e, h5)
                          | (Inr _, h5) \<Rightarrow> link_names io dir mounted_names h5)))))"

definition mounted_files :: "string \<Rightarrow> Files" where
  "mounted_files dir =
     \<lparr>fiCertFile = path_join dir ''tls.crt'', fiKeyFile = path_join dir ''tls.key'',
      fiCAFile = path_join dir ''ca.crt''\<rparr>"

section \<open>What a mounted directory is\<close>

text \<open>
  \<open>ready\<close>: a directory Mount can be called on, its stable names absent or already links into
  \<open>..data\<close>.  \<open>prepared\<close>: and a generation with the given bodies stands in it.  \<open>serving\<close>: and
  \<open>..data\<close> names that generation.  \<open>mounts\<close>: and every
  stable name is in place.
\<close>

definition generation :: "string \<Rightarrow> bool" where
  "generation g \<longleftrightarrow> has_prefix g ''..ts-'' \<and> comps g = [g]"

definition stable_name :: "fs \<Rightarrow> string list \<Rightarrow> string \<Rightarrow> bool" where
  "stable_name d p n \<longleftrightarrow> d (p @ [n]) = Some (Link (path_join ''..data'' n))"

definition ready :: "fs \<Rightarrow> string list \<Rightarrow> bool" where
  "ready d p \<longleftrightarrow> dirs d [] p \<and> d (p @ [''..data'']) \<noteq> Some Dir
     \<and> list_all (\<lambda>n. d (p @ [n]) = None \<or> stable_name d p n) mounted_names"

definition prepared :: "fs \<Rightarrow> string list \<Rightarrow> string \<Rightarrow> (string \<times> bytes) list \<Rightarrow> bool" where
  "prepared d p g b \<longleftrightarrow> ready d p \<and> generation g \<and> d (p @ [g]) = Some Dir
     \<and> list_all (\<lambda>(n, x). d (p @ [g, n]) = Some (File x)) b"

definition serving :: "fs \<Rightarrow> string list \<Rightarrow> string \<Rightarrow> (string \<times> bytes) list \<Rightarrow> bool" where
  "serving d p g b \<longleftrightarrow> prepared d p g b \<and> d (p @ [''..data'']) = Some (Link g)"

definition mounts :: "fs \<Rightarrow> string list \<Rightarrow> string \<Rightarrow> (string \<times> bytes) list \<Rightarrow> bool" where
  "mounts d p g b \<longleftrightarrow> serving d p g b \<and> list_all (stable_name d p) mounted_names"

lemma generation_not: "generation g \<Longrightarrow>
    g \<noteq> ''..data'' \<and> g \<noteq> ''..data_tmp'' \<and> g \<noteq> ''..'' \<and> g \<notin> set mounted_names"
  by (auto simp: generation_def has_prefix_def mounted_names_def)

lemma comps_mounted [simp]:
  "comps ''tls.crt'' = [''tls.crt'']" "comps ''tls.key'' = [''tls.key'']" "comps ''ca.crt'' = [''ca.crt'']"
  "comps ''..data'' = [''..data'']" "comps ''..data_tmp'' = [''..data_tmp'']"
  by (simp_all add: comps_def)

text \<open>A mounted name reads as its body: the name, \<open>..data\<close> and the directory it names are followed.\<close>

lemma mounts_read:
  assumes "mounts d (comps dir) g b" "(n, x) \<in> set b" "n \<in> set mounted_names"
  shows "ReadFile d (path_join dir n) = Inr x"
proof -
  have n: "comps n = [n]" "n \<noteq> ''..''" using assms(3) by (auto simp: mounted_names_def)
  from assms have f: "dirs d [] (comps dir)" "generation g" "d (comps dir @ [''..data'']) = Some (Link g)"
      "d (comps dir @ [g]) = Some Dir" "d (comps dir @ [g, n]) = Some (File x)"
      "d (comps dir @ [n]) = Some (Link (path_join ''..data'' n))"
    by (auto simp: mounts_def serving_def prepared_def ready_def stable_name_def list_all_iff)
  have "\<not> has_prefix (path_join ''..data'' n) ''/''" by (simp add: path_join_def has_prefix_def)
  moreover have "\<not> has_prefix g ''/''" "g \<noteq> ''..''" "comps g = [g]"
    using f(2) by (cases g; auto simp: generation_def has_prefix_def)+
  ultimately have "resolve d 40 [] (comps dir @ [n]) = Some (comps dir @ [g, n])"
    using f n by (simp add: resolve_dirs)
  with f(5) n show ?thesis by (simp add: ReadFile_def max_links_def)
qed

text \<open>What the steps before the swap change: names that no mounted directory is made of.\<close>

lemma ready_upd:
  "x \<noteq> ''..data'' \<Longrightarrow> x \<notin> set mounted_names \<Longrightarrow> ready (d(p @ x # xs := v)) p = ready d p"
  by (auto simp: ready_def stable_name_def list_all_iff)

lemma prepared_upd:
  "x \<noteq> ''..data'' \<Longrightarrow> x \<noteq> g \<Longrightarrow> x \<notin> set mounted_names \<Longrightarrow> prepared (d(p @ x # xs := v)) p g b = prepared d p g b"
  by (auto simp: prepared_def ready_upd list_all_iff)

lemma mounts_upd:
  "x \<noteq> ''..data'' \<Longrightarrow> x \<noteq> g \<Longrightarrow> x \<notin> set mounted_names \<Longrightarrow> mounts (d(p @ x # xs := v)) p g b = mounts d p g b"
  by (auto simp: mounts_def serving_def prepared_upd stable_name_def list_all_iff)

section \<open>The steps of Mount\<close>

text \<open>
  \<open>P\<close> is any property of the tree that the steps before the swap cannot change: the new
  directory \<open>ts\<close> and the temporary link are outside it.
\<close>

definition untouched :: "(fs \<Rightarrow> bool) \<Rightarrow> string list \<Rightarrow> string \<Rightarrow> bool" where
  "untouched P p x \<longleftrightarrow> (\<forall>d xs v. P d \<longrightarrow> P (d(p @ x # xs := v)))"

lemma untouchedD: "untouched P p x \<Longrightarrow> P d \<Longrightarrow> P (d(p @ x # xs := v))"
  by (simp add: untouched_def)

text \<open>Writing a file of the new directory.\<close>

lemma place_in_new:
  "dirs d [] p \<Longrightarrow> d (p @ [t]) = Some Dir \<Longrightarrow> t \<noteq> ''..'' \<Longrightarrow> place d (p @ [t, n]) = Some (p @ [t, n])"
  using place_in [of d "p @ [t]" n] by (simp add: dirs_append)

lemma create_new:
  assumes "dirs d [] p" "d (p @ [t]) = Some Dir" "t \<noteq> ''..''" "n \<noteq> ''..''" "d (p @ [t, n]) = None"
  shows "create (p @ [t, n]) d = Inr (d(p @ [t, n] \<mapsto> File []))"
  using assms by (simp add: create_def resolve_dirs place_in_new)

lemma write_all_new:
  assumes "dirs d [] p" "d (p @ [t]) = Some Dir" "t \<noteq> ''..''" "n \<noteq> ''..''" "d (p @ [t, n]) = Some (File y)"
  shows "write_all (p @ [t, n]) b d = Inr (d(p @ [t, n] \<mapsto> File b))"
  using assms by (simp add: write_all_def resolve_dirs)

lemma write_file_new:
  assumes "comps f = p @ [t, n]" "dirs (last h) [] p" "last h (p @ [t]) = Some Dir" "t \<noteq> ''..''" "n \<noteq> ''..''"
    "last h (p @ [t, n]) = None" "P (last h)" "untouched P p t"
  shows "case WriteFile io f b h of (r, h') \<Rightarrow>
     grows P h h' \<and> (\<forall>u. r = Inr u \<longrightarrow> last h' = (last h)(p @ [t, n] \<mapsto> File b))"
proof (cases rule: syscall_cases [of io "create (comps f)" h])
  case (fails e)
  then show ?thesis by (simp add: WriteFile_def)
next
  case (makes d)
  have d: "d = (last h)(p @ [t, n] \<mapsto> File [])" using makes(2) create_new assms(1-6) by simp
  have P: "P d" unfolding d by (rule untouchedD [OF assms(8,7)])
  have P': "P (d(p @ [t, n] \<mapsto> File b))" by (rule untouchedD [OF assms(8) P])
  have w: "write_all (comps f) b d = Inr (d(p @ [t, n] \<mapsto> File b))"
    unfolding assms(1) by (rule write_all_new) (simp_all add: d assms)
  show ?thesis
  proof (cases rule: syscall_cases [of io "write_all (comps f) b" "h @ [d]"])
    case (fails e)
    with makes P show ?thesis by (auto simp: WriteFile_def intro: grows_one)
  next
    case (makes d')
    with w \<open>syscall io (create (comps f)) h = (Inr (), h @ [d])\<close> P P' show ?thesis
      by (simp add: WriteFile_def grows_def d)
  qed
qed

text \<open>Writing all of them, in whatever order.\<close>

definition unwritten :: "fs \<Rightarrow> string list \<Rightarrow> string \<Rightarrow> (string \<times> bytes) list \<Rightarrow> bool" where
  "unwritten d p t b \<longleftrightarrow> dirs d [] p \<and> d (p @ [t]) = Some Dir \<and> t \<noteq> ''..'' \<and> distinct (map fst b)
     \<and> list_all (\<lambda>(n, x). comps n = [n] \<and> n \<noteq> ''..'' \<and> d (p @ [t, n]) = None) b"

lemma write_files_new:
  assumes "comps ts = p @ [t]" "unwritten (last h) p t b" "P (last h)" "untouched P p t"
  shows "case write_files io ts b h of (r, h') \<Rightarrow> grows P h h' \<and>
     (\<forall>u. r = Inr u \<longrightarrow> list_all (\<lambda>(n, x). last h' (p @ [t, n]) = Some (File x)) b
        \<and> (\<forall>q. q \<notin> (\<lambda>n. p @ [t, n]) ` fst ` set b \<longrightarrow> last h' q = last h q))"
  using assms(2,3)
proof (induction b arbitrary: h)
  case (Cons f b)
  obtain n x where f: "f = (n, x)" by (cases f)
  from Cons.prems f have n: "dirs (last h) [] p" "last h (p @ [t]) = Some Dir" "t \<noteq> ''..''" "n \<noteq> ''..''"
      "last h (p @ [t, n]) = None" "comps (path_join ts n) = p @ [t, n]" "n \<notin> fst ` set b"
    by (auto simp: unwritten_def assms(1))
  obtain r h1 where w: "WriteFile io (path_join ts n) x h = (r, h1)" by fastforce
  from write_file_new [OF n(6,1-5) Cons.prems(2) assms(4), where io = io and b = x] w
  have g: "grows P h h1" and l: "\<And>u. r = Inr u \<Longrightarrow> last h1 = (last h)(p @ [t, n] \<mapsto> File x)" by auto
  show ?case
  proof (cases r)
    case (Inl e)
    with w f g show ?thesis by simp
  next
    case (Inr u)
    have u: "unwritten (last h1) p t b"
      using Cons.prems(1) n(7) by (force simp: unwritten_def f l [OF Inr] list_all_iff)
    have "p @ [t, n] \<notin> (\<lambda>n. p @ [t, n]) ` fst ` set b" using n(7) by auto
    with Cons.IH [OF u grows_last [OF g Cons.prems(2)]] f w Inr g l [OF Inr] n(7) show ?thesis
      by (auto intro: grows_trans)
  qed
qed simp

text \<open>The new directory and the temporary link.\<close>

lemma temp_generation: "generation (''..ts-'' @ show_nat n)"
proof -
  have "\<not> is_digit CHR ''/''" by code_simp
  then have digits: "c \<noteq> CHR ''/''" if "c \<in> set (show_nat n)" for c
    using that show_nat_digits [of n] by (auto simp: list_all_iff)
  have "split_on CHR ''/'' (''..ts-'' @ show_nat n) = [''..ts-'' @ show_nat n]"
    by (rule split_on_free) (use digits in auto)
  then show ?thesis by (simp add: generation_def comps_def has_prefix_def)
qed

lemma MkdirTemp_new:
  assumes "dirs (last h) [] (comps dir)"
  shows "case MkdirTemp io draws dir ''..ts-'' h of (r, h') \<Rightarrow> (\<exists>e. r = Inl e \<and> h' = h)
     \<or> (\<exists>t. generation t \<and> last h (comps dir @ [t]) = None \<and> r = Inr (path_join dir t)
          \<and> h' = h @ [(last h)(comps dir @ [t] \<mapsto> Dir)])"
proof (induction draws)
  case (Cons w draws)
  define t where "t = ''..ts-'' @ show_nat (unat w)"
  have t: "generation t" "comps t = [t]" using temp_generation by (simp_all add: t_def generation_def)
  have pl: "place (last h) (comps dir @ [t]) = Some (comps dir @ [t])" by (rule place_in [OF assms])
  show ?case
  proof (cases "last h (comps dir @ [t]) = None")
    case True
    with pl t have "mkdir (comps (path_join dir t)) (last h) = Inr ((last h)(comps dir @ [t] \<mapsto> Dir))"
      by (simp add: mkdir_def)
    with True pl t have "MkdirTemp io (w # draws) dir ''..ts-'' h = (case io (length h) of
        None \<Rightarrow> (Inr (path_join dir t), h @ [(last h)(comps dir @ [t] \<mapsto> Dir)]) | Some e \<Rightarrow> (Inl e, h))"
      by (simp add: t_def [symmetric, simplified] Lstat_def syscall_def Let_def split: option.split)
    with True t(1) show ?thesis by (cases "io (length h)") (simp_all only: prod.case option.case, blast+)
  next
    case False
    with Cons.IH pl t show ?thesis by (simp add: t_def [symmetric, simplified] Lstat_def Let_def)
  qed
qed simp

lemma MkdirAll_there:
  assumes "dirs (last h) [] (comps dir)"
  shows "MkdirAll io dir h = (Inr (), h)"
proof -
  have "mkdir_each io base cs h = (Inr (), h)" if "dirs (last h) [] (base @ cs)" for base cs
    using that
  proof (induction cs arbitrary: base)
    case (Cons c cs)
    then have "dirs (last h) [] (base @ [c])" using dirs_append [of "last h" "[]" "base @ [c]" cs] by simp
    then have "stat_dir (base @ [c]) (last h)" by (simp add: stat_dir_def)
    with Cons.IH [of "base @ [c]"] Cons.prems show ?case by simp
  qed simp
  from this [of "[]"] assms show ?thesis by (simp add: MkdirAll_def)
qed

text \<open>The swap: the temporary link, and its rename over \<open>..data\<close>.\<close>

lemma Remove_untouched:
  assumes "dirs (last h) [] (comps dir)" "P (last h)" "untouched P (comps dir) ''..data_tmp''"
  shows "grows P h (snd (Remove io (path_join dir ''..data_tmp'') h))"
proof (cases rule: syscall_cases [of io "unlink (comps dir @ [''..data_tmp''])" h])
  case (makes d)
  then have "d = (last h)(comps dir @ [''..data_tmp''] := None)"
    using place_in [OF assms(1)] by (auto simp: unlink_def split: option.splits node.splits)
  then have "P d" using untouchedD [OF assms(3,2)] by blast
  with makes show ?thesis by (simp add: Remove_def grows_one)
qed (simp add: Remove_def)

lemma Symlink_untouched:
  assumes "dirs (last h) [] (comps dir)" "P (last h)" "untouched P (comps dir) ''..data_tmp''"
    "Symlink io t (path_join dir ''..data_tmp'') h = (r, h')"
  shows "grows P h h'" and "r = Inr u \<Longrightarrow> last h' (comps dir @ [''..data_tmp'']) = Some (Link t)"
proof -
  have "d = (last h)(comps dir @ [''..data_tmp''] \<mapsto> Link t)"
    if "symlink t (comps dir @ [''..data_tmp'']) (last h) = Inr d" for d
    using that place_in [OF assms(1)] by (auto simp: symlink_def split: if_splits)
  note made = this
  have "grows P h h' \<and> (r = Inr u \<longrightarrow> last h' (comps dir @ [''..data_tmp'']) = Some (Link t))"
  proof (cases rule: syscall_cases [of io "symlink t (comps dir @ [''..data_tmp''])" h])
    case (makes d)
    have "P d" unfolding made [OF makes(2)] by (rule untouchedD [OF assms(3,2)])
    with makes made [OF makes(2)] assms(4) show ?thesis by (auto simp: Symlink_def)
  qed (use assms(4) in \<open>auto simp: Symlink_def\<close>)
  then show "grows P h h'" "r = Inr u \<Longrightarrow> last h' (comps dir @ [''..data_tmp'']) = Some (Link t)" by simp_all
qed

lemma Rename_swaps:
  assumes "prepared d p t b" "d (p @ [''..data_tmp'']) = Some (Link t)"
  shows "\<exists>d'. rename (p @ [''..data_tmp'']) (p @ [''..data'']) d = Inr d' \<and> serving d' p t b
    \<and> list_all (\<lambda>n. stable_name d' p n = stable_name d p n) mounted_names"
proof -
  have d: "dirs d [] p" "d (p @ [''..data'']) \<noteq> Some Dir" using assms(1) by (simp_all add: prepared_def ready_def)
  let ?d = "(d(p @ [''..data_tmp''] := None))(p @ [''..data''] \<mapsto> Link t)"
  have "rename (p @ [''..data_tmp'']) (p @ [''..data'']) d = Inr ?d"
    using d assms(2) by (simp add: rename_def place_in)
  moreover have st: "list_all (\<lambda>n. stable_name ?d p n = stable_name d p n) mounted_names"
    by (simp add: stable_name_def mounted_names_def)
  moreover have "serving ?d p t b"
    using assms(1) generation_not [of t]
    by (auto simp: serving_def prepared_def ready_def stable_name_def mounted_names_def list_all_iff)
  ultimately show ?thesis by blast
qed

text \<open>The stable names: those that stand are kept, the others are linked.\<close>

lemma serving_link:
  assumes "serving d p t b" "n \<in> set mounted_names"
  shows "serving (d(p @ [n] \<mapsto> Link (path_join ''..data'' n))) p t b"
  using assms generation_not [of t]
  by (auto simp: serving_def prepared_def ready_def stable_name_def mounted_names_def list_all_iff)

lemma link_names_serving:
  assumes "serving (last h) (comps dir) t b" "set ns \<subseteq> set mounted_names"
  shows "case link_names io dir ns h of (r, h') \<Rightarrow> grows (\<lambda>d. serving d (comps dir) t b) h h'
     \<and> (\<forall>u. r = Inr u \<longrightarrow> (\<forall>n. n \<in> set ns \<or> stable_name (last h) (comps dir) n \<longrightarrow> stable_name (last h') (comps dir) n))"
  using assms
proof (induction ns arbitrary: h)
  case (Cons n ns)
  let ?p = "comps dir" and ?l = "Link (path_join ''..data'' n)"
  have n: "n \<in> set mounted_names" "comps n = [n]" using Cons.prems(2) by (auto simp: mounted_names_def)
  have "dirs (last h) [] ?p" using Cons.prems(1) by (simp add: serving_def prepared_def ready_def)
  then have pl: "place (last h) (?p @ [n]) = Some (?p @ [n])" by (rule place_in)
  show ?case
  proof (cases "last h (?p @ [n])")
    case (Some x)
    then have "stable_name (last h) ?p n"
      using Cons.prems(1) n(1) by (auto simp: serving_def prepared_def ready_def list_all_iff)
    with Cons.IH [OF Cons.prems(1)] Cons.prems(2) Some pl n(2) show ?thesis by (auto simp: Lstat_def Let_def)
  next
    case None
    define d where "d = (last h)(?p @ [n] \<mapsto> ?l)"
    have s: "symlink (path_join ''..data'' n) (?p @ [n]) (last h) = Inr d" using pl None by (simp add: symlink_def d_def)
    have v: "serving d ?p t b" unfolding d_def by (rule serving_link [OF Cons.prems(1) n(1)])
    have st: "stable_name d ?p m" if "m = n \<or> stable_name (last h) ?p m" for m
      using that by (auto simp: d_def stable_name_def)
    show ?thesis
    proof (cases "io (length h)")
      case (Some e)
      with None pl n(2) show ?thesis by (simp add: Lstat_def Let_def Symlink_def syscall_def)
    next
      case io: None
      have "link_names io dir (n # ns) h = link_names io dir ns (h @ [d])"
        using None pl n(2) s io by (simp add: Lstat_def Let_def Symlink_def syscall_def)
      with Cons.IH [of "h @ [d]"] v st Cons.prems(2) show ?thesis by (auto intro: grows_trans)
    qed
  qed
qed simp

lemma link_names_there:
  assumes "dirs (last h) [] (comps dir)" "list_all (stable_name (last h) (comps dir)) ns" "set ns \<subseteq> set mounted_names"
  shows "link_names io dir ns h = (Inr (), h)"
  using assms(2,3)
proof (induction ns)
  case (Cons n ns)
  then have "comps n = [n]" "last h (comps dir @ [n]) \<noteq> None" by (auto simp: mounted_names_def stable_name_def)
  with Cons place_in [OF assms(1)] show ?case by (simp add: Lstat_def Let_def)
qed simp

section \<open>Mount\<close>

definition rooted :: "fs \<Rightarrow> string list \<Rightarrow> bool" where
  "rooted d p \<longleftrightarrow> (\<forall>x n. d (p @ [x]) = None \<longrightarrow> d (p @ [x, n]) = None)"

text \<open>
  Every state Mount makes before the swap keeps what the swap alone may change; the swap is one
  state; every state after it serves the new bodies, and a Mount that succeeds reached it.
\<close>

definition swaps :: "(fs \<Rightarrow> bool) \<Rightarrow> string list \<Rightarrow> (string \<times> bytes) list \<Rightarrow> history \<Rightarrow> (string + unit) \<times> history \<Rightarrow> bool" where
  "swaps P p b h res \<longleftrightarrow> (\<exists>t pre post. generation t \<and> snd res = h @ pre @ post \<and> list_all P pre
     \<and> list_all (\<lambda>d. serving d p t b) post
     \<and> ((\<forall>d. P d \<longrightarrow> list_all (stable_name d p) mounted_names) \<longrightarrow> list_all (\<lambda>d. mounts d p t b) post)
     \<and> (\<forall>u. fst res = Inr u \<longrightarrow> post \<noteq> [] \<and> mounts (last post) p t b))"

lemma swaps_before: "grows P h h' \<Longrightarrow> swaps P p b h (Inl e, h')"
proof -
  assume "grows P h h'"
  then obtain ext where "h' = h @ ext" "list_all P ext" by (auto simp: grows_def)
  then show ?thesis using temp_generation [of 0]
    by (simp only: swaps_def) (rule exI, rule exI [of _ ext], rule exI [of _ "[]"], auto)
qed

lemma swap_and_link:
  assumes "generation t" "prepared (last h) (comps dir) t b" "P (last h)"
    "last h (comps dir @ [''..data_tmp'']) = Some (Link t)" "grows P h0 h"
    "Rename io (path_join dir ''..data_tmp'') (path_join dir ''..data'') h = res"
  shows "swaps P (comps dir) b h0 (case res of (Inl e, h5) \<Rightarrow> (Inl e, h5) | (Inr _, h5) \<Rightarrow> link_names io dir mounted_names h5)"
proof -
  let ?p = "comps dir" and ?S = "\<lambda>d. serving d (comps dir) t b"
  obtain pre where pre: "h = h0 @ pre" "list_all P pre" using assms(5) by (auto simp: grows_def)
  obtain d where d: "rename (?p @ [''..data_tmp'']) (?p @ [''..data'']) (last h) = Inr d" "?S d"
      and st: "\<And>n. n \<in> set mounted_names \<Longrightarrow> stable_name d ?p n = stable_name (last h) ?p n"
    using Rename_swaps [OF assms(2,4)] by (auto simp: list_all_iff)
  have res: "res = (case io (length h) of None \<Rightarrow> (Inr (), h @ [d]) | Some e \<Rightarrow> (Inl e, h))"
    using d(1) assms(6) by (auto simp: Rename_def syscall_def split: option.splits)
  show ?thesis
  proof (cases "io (length h)")
    case (Some e)
    with swaps_before [OF assms(5)] show ?thesis by (simp add: res)
  next
    case None
    obtain r h' where l: "link_names io dir mounted_names (h @ [d]) = (r, h')" by fastforce
    obtain ext where ext: "h' = h @ d # ext" "list_all ?S ext"
        "\<And>u. r = Inr u \<Longrightarrow> list_all (stable_name (last h') ?p) mounted_names"
      using link_names_serving [of "h @ [d]" dir t b mounted_names io] d(2) l by (auto simp: grows_def list_all_iff)
    have post: "list_all (\<lambda>d. mounts d ?p t b) (d # ext)" if "\<forall>d. P d \<longrightarrow> list_all (stable_name d ?p) mounted_names"
    proof -
      have names: "list_all (stable_name d ?p) mounted_names" using that assms(3) st by (auto simp: list_all_iff)
      have "dirs d [] ?p" using d(2) by (simp add: serving_def prepared_def ready_def)
      from link_names_there [of "h @ [d]" dir mounted_names io] this names l ext(1) have "ext = []" by simp
      with d(2) names show ?thesis by (simp add: mounts_def)
    qed
    have "mounts (last (d # ext)) ?p t b" if "r = Inr u" for u
      using ext(3) [OF that] ext(1,2) d(2) last_in_set [of ext] by (cases ext) (auto simp: mounts_def list_all_iff)
    then show ?thesis using None l ext(1,2) d(2) pre assms(1) post
      by (simp only: swaps_def) (rule exI [of _ t], rule exI [of _ pre], rule exI [of _ "d # ext"], auto simp: res)
  qed
qed

text \<open>The new generation is written outside everything that is read, then swapped in.\<close>

definition all_written :: "(string \<times> bytes) list \<Rightarrow> (string \<times> bytes) list \<Rightarrow> bool" where
  "all_written o' b \<longleftrightarrow> mset o' = mset b \<and> distinct (map fst b) \<and> list_all (\<lambda>(n, x). comps n = [n] \<and> n \<noteq> ''..'') b"

lemma all_written_set: "all_written o' b \<Longrightarrow> set o' = set b \<and> distinct (map fst o')"
proof -
  assume a: "all_written o' b"
  then have "mset (map fst o') = mset (map fst b)" by (simp add: all_written_def)
  then have "distinct (map fst o') = distinct (map fst b)" by (rule mset_eq_imp_distinct_iff)
  with a show ?thesis using mset_eq_setD [of o' b] by (simp add: all_written_def)
qed

lemma write_generation:
  assumes "ready (last h) p" "rooted (last h) p" "P (last h)" "untouched P p t" "all_written o' b"
    and t: "generation t" "last h (p @ [t]) = None" "comps ts = p @ [t]"
    and w: "write_files io ts o' (h @ [(last h)(p @ [t] \<mapsto> Dir)]) = (r, h')"
  shows "grows P h h'" and "r = Inr u \<Longrightarrow> P (last h') \<and> prepared (last h') p t b"
proof -
  let ?R = "\<lambda>d. P d \<and> ready d p" and ?d = "(last h)(p @ [t] \<mapsto> Dir)"
  note nt = generation_not [OF t(1)] and o = all_written_set [OF assms(5)]
  have un: "untouched ?R p t"
    using assms(4) nt ready_upd [of t] by (auto simp: untouched_def mounted_names_def)
  have R: "?R ?d" using untouchedD [OF un, of "last h" "[]"] assms(1,3) by simp
  have uw: "unwritten (last (h @ [?d])) p t o'"
    using assms(1,2,5) o nt t(2) by (auto simp: unwritten_def list_all_iff ready_def rooted_def all_written_def)
  have "?R (last (h @ [?d]))" using R by simp
  note wf = write_files_new [OF t(3) uw this un, of io, unfolded w prod.case]
  have "grows ?R h (h @ [?d])" using R by (simp only: grows_def) (rule exI [of _ "[?d]"], simp)
  then have g: "grows ?R h h'" using wf by (blast intro: grows_trans)
  show "grows P h h'" by (rule grows_mono [OF g]) simp
  assume r: "r = Inr u"
  have "p @ [t] \<notin> (\<lambda>n. p @ [t, n]) ` fst ` set o'" by auto
  with wf r have f: "list_all (\<lambda>(n, x). last h' (p @ [t, n]) = Some (File x)) o'" "last h' (p @ [t]) = Some Dir"
    by auto
  with grows_last [OF g] assms(1,3) t(1) o show "P (last h') \<and> prepared (last h') p t b"
    by (auto simp: prepared_def list_all_iff)
qed

lemma swap_prepared:
  assumes "generation t" "prepared (last h) (comps dir) t b" "P (last h)" "untouched P (comps dir) ''..data_tmp''"
    "grows P h0 h" "tmp = path_join dir ''..data_tmp''"
  shows "swaps P (comps dir) b h0
     (case Symlink io t tmp (snd (Remove io tmp h)) of
        (Inl e, h4) \<Rightarrow> (Inl e, h4)
      | (Inr _, h4) \<Rightarrow> (case Rename io tmp (path_join dir ''..data'') h4 of
            (Inl e, h5) \<Rightarrow> (Inl e, h5) | (Inr _, h5) \<Rightarrow> link_names io dir mounted_names h5))"
proof -
  let ?p = "comps dir"
  let ?Q = "\<lambda>d. P d \<and> prepared d ?p t b"
  define h1 where "h1 = snd (Remove io tmp h)"
  obtain r h4 where s: "Symlink io t tmp h1 = (r, h4)" by fastforce
  have un: "untouched ?Q ?p ''..data_tmp''"
    using assms(4) generation_not [OF assms(1)] prepared_upd [of "''..data_tmp''" t]
    by (auto simp: untouched_def mounted_names_def)
  have dr: "dirs d [] ?p" if "?Q d" for d using that by (simp add: prepared_def ready_def)
  have Q: "?Q (last h)" using assms(2,3) by simp
  have g1: "grows ?Q h h1" unfolding h1_def assms(6) by (rule Remove_untouched [OF dr [OF Q] Q un])
  note Q1 = grows_last [OF g1 Q]
  have g4: "grows ?Q h1 h4" by (rule Symlink_untouched(1) [OF dr [OF Q1] Q1 un s [unfolded assms(6)]])
  have "grows P h h4" by (rule grows_mono [OF grows_trans [OF g1 g4]]) simp
  from grows_trans [OF assms(5) this] have g: "grows P h0 h4" .
  show ?thesis
  proof (cases r)
    case (Inl e)
    with s swaps_before [OF g] show ?thesis by (simp add: h1_def)
  next
    case (Inr u)
    have l: "last h4 (?p @ [''..data_tmp'']) = Some (Link t)"
      by (rule Symlink_untouched(2) [OF dr [OF Q1] Q1 un s [unfolded assms(6)] Inr])
    have "?Q (last h4)" by (rule grows_last [OF g4 Q1])
    with swap_and_link [OF assms(1) _ _ l g refl] s Inr show ?thesis by (simp add: h1_def assms(6))
  qed
qed

lemma Mount_swaps:
  assumes "ready (last h) (comps dir)" "rooted (last h) (comps dir)" "P (last h)"
    "mset (order (bodies leaf ca)) = mset (bodies leaf ca)"
    and un: "\<And>x. x = ''..data_tmp'' \<or> generation x \<and> last h (comps dir @ [x]) = None \<Longrightarrow> untouched P (comps dir) x"
  shows "swaps P (comps dir) (bodies leaf ca) h (Mount io draws order dir leaf ca h)"
proof -
  let ?p = "comps dir" and ?b = "bodies leaf ca"
  have dp: "dirs (last h) [] ?p" using assms(1) by (simp add: ready_def)
  have o: "all_written (order ?b) ?b" using assms(4) by (simp add: all_written_def bodies_def)
  obtain r2 h2 where t2: "MkdirTemp io draws dir ''..ts-'' h = (r2, h2)" by fastforce
  show ?thesis
  proof (cases r2)
    case (Inl e)
    with MkdirTemp_new [OF dp, of io draws] t2 show ?thesis
      by (auto simp: Mount_def MkdirAll_there [OF dp] intro: swaps_before)
  next
    case (Inr ts)
    then obtain t where t: "generation t" "last h (?p @ [t]) = None" "ts = path_join dir t"
        "h2 = h @ [(last h)(?p @ [t] \<mapsto> Dir)]"
      using MkdirTemp_new [OF dp, of io draws] t2 by auto
    have ct: "comps ts = ?p @ [t]" "path_base ts = t" using t(1,3) by (simp_all add: generation_def path_base_def)
    obtain r3 h3 where w: "write_files io ts (order ?b) h2 = (r3, h3)" by fastforce
    note wg = write_generation [OF assms(1-3) un o t(1,2) ct(1) w [unfolded t(4)]]
    have g: "grows P h h3" using wg(1) t(1,2) by blast
    show ?thesis
    proof (cases r3)
      case (Inl e)
      with t2 Inr w swaps_before [OF g] show ?thesis by (simp add: Mount_def MkdirAll_there [OF dp])
    next
      case r3: (Inr u)
      have "P (last h3) \<and> prepared (last h3) ?p t ?b" using wg(2) [OF _ r3] t(1,2) by blast
      with swap_prepared [OF t(1) _ _ _ g refl] un [of "''..data_tmp''"] t2 Inr w r3 ct(2) show ?thesis
        by (simp add: Mount_def MkdirAll_there [OF dp] Let_def)
    qed
  qed
qed

end
