(* ===== verification/Rotation.thy ===== *)
theory Rotation
  imports Pki Reloader Samples
begin

text \<open>
  The properties of mounted identity files: a rotation is seen as a whole by whoever reads
  between its steps, whatever step fails; the reloader follows it; and a certificate issued for
  a workload, mounted and loaded is that workload's.
\<close>

section \<open>What a directory holds\<close>

definition holds_secret :: "fs \<Rightarrow> string \<Rightarrow> Leaf \<Rightarrow> bytes \<Rightarrow> bool" where
  "holds_secret d dir leaf ca \<longleftrightarrow>
     ReadFile d (fiCertFile (mounted_files dir)) = Inr (lfCertPEM leaf)
     \<and> ReadFile d (fiKeyFile (mounted_files dir)) = Inr (lfKeyPEM leaf)
     \<and> ReadFile d (fiCAFile (mounted_files dir)) = Inr ca"

text \<open>A directory Mount has filled before, with nothing below a name that is not there.\<close>

definition mounted_at :: "fs \<Rightarrow> string \<Rightarrow> Leaf \<Rightarrow> bytes \<Rightarrow> bool" where
  "mounted_at d dir leaf ca \<longleftrightarrow> (\<exists>g. mounts d (comps dir) g (bodies leaf ca)) \<and> rooted d (comps dir)"

lemma mounts_holds: "mounts d (comps dir) g (bodies leaf ca) \<Longrightarrow> holds_secret d dir leaf ca"
  by (simp add: holds_secret_def mounted_files_def mounts_read bodies_def mounted_names_def)

lemma rotation_steps:
  assumes "mounted_at (last h) dir old oldCA" "mset (order (bodies leaf ca)) = mset (bodies leaf ca)"
    "Mount io draws order dir leaf ca h = (r, h')"
  shows "\<exists>pre post. h' = h @ pre @ post \<and> list_all (\<lambda>d. holds_secret d dir old oldCA) pre
     \<and> list_all (\<lambda>d. holds_secret d dir leaf ca) post \<and> (r = Inr () \<longrightarrow> post \<noteq> [])"
proof -
  obtain g where g: "mounts (last h) (comps dir) g (bodies old oldCA)" "rooted (last h) (comps dir)"
    using assms(1) by (auto simp: mounted_at_def)
  let ?P = "\<lambda>d. mounts d (comps dir) g (bodies old oldCA)"
  have gen: "generation g" "last h (comps dir @ [g]) = Some Dir" "ready (last h) (comps dir)"
    using g(1) by (simp_all add: mounts_def serving_def prepared_def)
  have "untouched ?P (comps dir) x" if "x = ''..data_tmp'' \<or> generation x \<and> last h (comps dir @ [x]) = None" for x
  proof -
    have "x \<noteq> g \<and> x \<noteq> ''..data'' \<and> x \<notin> set mounted_names"
    proof (cases "x = ''..data_tmp''")
      case True
      with generation_not [OF gen(1)] show ?thesis by (auto simp: mounted_names_def)
    next
      case False
      with that have x: "generation x" "last h (comps dir @ [x]) = None" by simp_all
      with gen(2) have "x \<noteq> g" by auto
      with generation_not [OF x(1)] show ?thesis by simp
    qed
    then show ?thesis by (simp add: untouched_def mounts_upd)
  qed
  then have sw: "swaps ?P (comps dir) (bodies leaf ca) h (r, h')"
    unfolding assms(3) [symmetric] by (intro Mount_swaps gen g assms(2))
  from sw [unfolded swaps_def fst_conv snd_conv]
  obtain t pre post where p: "h' = h @ pre @ post" "list_all ?P pre"
      "(\<forall>d. ?P d \<longrightarrow> list_all (stable_name d (comps dir)) mounted_names)
         \<longrightarrow> list_all (\<lambda>d. mounts d (comps dir) t (bodies leaf ca)) post" "r = Inr () \<longrightarrow> post \<noteq> []"
    by (elim exE conjE) simp
  from p(3) have "list_all (\<lambda>d. mounts d (comps dir) t (bodies leaf ca)) post" by (simp add: mounts_def)
  with p(2) have "list_all (\<lambda>d. holds_secret d dir old oldCA) pre" "list_all (\<lambda>d. holds_secret d dir leaf ca) post"
    using mounts_holds by (blast intro: list.pred_mono_strong)+
  with p show ?thesis by blast
qed

section \<open>Reading while it changes\<close>

text \<open>
  A process that reads the tree: the tick of a read is at the state \<open>pace\<close> says the writer has
  reached, the last one once it is done.
\<close>

definition watch :: "history \<Rightarrow> (nat \<Rightarrow> nat) \<Rightarrow> (nat \<Rightarrow> time) \<Rightarrow> mount" where
  "watch h pace clk =
     \<lparr>read_at = (\<lambda>t p. ReadFile (h ! min (pace t) (length h - 1)) p), clock_at = clk\<rparr>"

text \<open>The three reads of a load that starts during a rotation: old files, then new ones.\<close>

definition seen :: "Leaf \<Rightarrow> bytes \<Rightarrow> Leaf \<Rightarrow> bytes \<Rightarrow> (bytes \<times> bytes \<times> bytes) list" where
  "seen old oldCA leaf ca =
     [(lfCertPEM old, lfKeyPEM old, oldCA), (lfCertPEM old, lfKeyPEM old, ca),
      (lfCertPEM old, lfKeyPEM leaf, ca), (lfCertPEM leaf, lfKeyPEM leaf, ca)]"

lemma watch_reads:
  assumes "h' = h @ pre @ post" "h \<noteq> []" "list_all (\<lambda>d. holds_secret d dir old oldCA) (last h # pre)"
    "list_all (\<lambda>d. holds_secret d dir leaf ca) post" "mono pace" "length h - 1 \<le> pace t"
  obtains late where "\<And>a b. late a \<Longrightarrow> a \<le> b \<Longrightarrow> late b"
    and "\<And>t'. t \<le> t' \<Longrightarrow> if late t' then holds_secret (h' ! min (pace t') (length h' - 1)) dir leaf ca
           else holds_secret (h' ! min (pace t') (length h' - 1)) dir old oldCA"
    and "\<And>t'. post \<noteq> [] \<Longrightarrow> length h' - 1 \<le> pace t' \<Longrightarrow> late t'"
proof -
  define at where "at t' = min (pace t') (length h' - 1)" for t'
  define late where "late t' \<longleftrightarrow> length h + length pre \<le> at t'" for t'
  have mono: "at a \<le> at b" if "a \<le> b" for a b
    using monoD [OF assms(5) that] by (simp add: at_def)
  have "0 < length h'" using assms(1,2) by simp
  then have bound: "at t' < length h'" for t' by (simp add: at_def min_less_iff_disj)
  have "length h - 1 \<le> at t'" if "t \<le> t'" for t'
    using monoD [OF assms(5) that] assms(1,6) by (simp add: at_def)
  moreover have "holds_secret (h' ! i) dir old oldCA" if "length h - 1 \<le> i" "i < length h + length pre" for i
  proof (cases "i < length h")
    case True
    with that have "i = length h - 1" by simp
    with True assms(1,2) have "h' ! i = last h" by (simp add: nth_append last_conv_nth)
    with assms(3) show ?thesis by simp
  next
    case False
    with that have "i - length h < length pre" by simp
    with False assms(1) have "h' ! i \<in> set pre" by (simp add: nth_append)
    with assms(3) show ?thesis by (simp add: list_all_iff)
  qed
  moreover have "holds_secret (h' ! at t') dir leaf ca" if "late t'" for t'
  proof -
    have "\<not> at t' < length h" "\<not> at t' - length h < length pre" "at t' - length h - length pre < length post"
      using that bound [of t'] assms(1) by (simp_all add: late_def)
    with assms(1) have "h' ! at t' \<in> set post" by (simp add: nth_append)
    with assms(4) show ?thesis by (simp add: list_all_iff)
  qed
  ultimately have reads: "if late t' then holds_secret (h' ! at t') dir leaf ca else holds_secret (h' ! at t') dir old oldCA"
    if "t \<le> t'" for t' using that by (simp add: late_def)
  show thesis
  proof (rule that [of late, folded at_def])
    show "late b" if "late a" "a \<le> b" for a b using that mono [of a b] by (simp add: late_def)
    show "late t'" if "post \<noteq> []" "length h' - 1 \<le> pace t'" for t'
      using that assms(1) by (cases post) (simp_all add: late_def at_def)
  qed (rule reads)
qed

text \<open>What a reload that starts at tick \<open>t\<close> publishes, for every rotation it overlaps.\<close>

lemma Reload_sees:
  assumes "h' = h @ pre @ post" "h \<noteq> []" "list_all (\<lambda>d. holds_secret d dir old oldCA) (last h # pre)"
    "list_all (\<lambda>d. holds_secret d dir leaf ca) post" "mono pace" "length h - 1 \<le> pace (fst st)"
    "rlFiles r = mounted_files dir"
  shows "case Reload pk (watch h' pace clk) r st of (ok, r', st') \<Rightarrow>
     if ok then \<exists>(c, k, a) \<in> set (seen old oldCA leaf ca). \<exists>now. Parse_material pk c k a now = Inr (Current r')
     else Current r' = Current r"
proof -
  obtain late where mono: "\<And>a b. late a \<Longrightarrow> a \<le> b \<Longrightarrow> late b"
    and reads: "\<And>t'. fst st \<le> t' \<Longrightarrow> if late t' then holds_secret (h' ! min (pace t') (length h' - 1)) dir leaf ca
           else holds_secret (h' ! min (pace t') (length h' - 1)) dir old oldCA"
    using watch_reads [OF assms(1-6)] by metis
  let ?mt = "watch h' pace clk"
  have three: "(c, k, a) \<in> set (seen old oldCA leaf ca)"
    if "read_at ?mt t (fiCertFile (mounted_files dir)) = Inr c" "read_at ?mt (t + 1) (fiKeyFile (mounted_files dir)) = Inr k"
      "read_at ?mt (t + 2) (fiCAFile (mounted_files dir)) = Inr a" "fst st \<le> t" for t c k a
    using that reads [of t] reads [of "t + 1"] reads [of "t + 2"] mono [of t "t + 1"] mono [of "t + 1" "t + 2"]
    by (auto simp: watch_def holds_secret_def seen_def split: if_splits)
  obtain dg t1 where d: "filesDigest ?mt (rlFiles r) (fst st) = (dg, t1)" by fastforce
  have t1: "fst st \<le> t1" if "dg = Inr x" for x
  proof -
    from d that have "hash_files ?mt [fiCertFile (rlFiles r), fiKeyFile (rlFiles r), fiCAFile (rlFiles r)] [] (fst st) = (Inr x, t1)"
      by (simp only: filesDigest_def)
    then show ?thesis unfolding hash_files_three by auto
  qed
  obtain res t2 where l: "Load_material pk ?mt (rlFiles r) (clock_at ?mt t1) t1 = (res, t2)" by fastforce
  show ?thesis
  proof (cases res)
    case (Inl e)
    with d l show ?thesis by (auto simp: Reload_def Current_def rejected_def Let_def split: sum.split)
  next
    case (Inr m)
    show ?thesis
    proof (cases dg)
      case (Inl e)
      with d show ?thesis by (simp add: Reload_def Current_def rejected_def Let_def)
    next
      case dg: (Inr x)
      from l [unfolded Inr Load_material_Inr assms(7)] obtain c k a where
          "read_at ?mt t1 (fiCertFile (mounted_files dir)) = Inr c"
          "read_at ?mt (t1 + 1) (fiKeyFile (mounted_files dir)) = Inr k"
          "read_at ?mt (t1 + 2) (fiCAFile (mounted_files dir)) = Inr a"
          "Parse_material pk c k a (clock_at ?mt t1) = Inr m" by blast
      with three [of t1 c k a] t1 [OF dg] Inr d dg l show ?thesis
        by (auto simp: Reload_def Current_def published_def Let_def)
    qed
  qed
qed

section \<open>A successful mount\<close>

definition mountable :: "fs \<Rightarrow> string \<Rightarrow> bool" where
  "mountable d dir \<longleftrightarrow> ready d (comps dir) \<and> rooted d (comps dir)"

lemma Mount_serves:
  assumes "mountable (last h) dir" "mset (order (bodies leaf ca)) = mset (bodies leaf ca)"
    "Mount io draws order dir leaf ca h = (Inr (), h')"
  shows "h' \<noteq> [] \<and> holds_secret (last h') dir leaf ca"
proof -
  have "swaps (\<lambda>_. True) (comps dir) (bodies leaf ca) h (Inr (), h')"
    unfolding assms(3) [symmetric] using assms(1,2)
    by (intro Mount_swaps) (simp_all add: mountable_def untouched_def)
  then obtain t pre post where "h' = h @ pre @ post" "post \<noteq> []" "mounts (last post) (comps dir) t (bodies leaf ca)"
    by (auto simp: swaps_def)
  with mounts_holds show ?thesis by auto
qed

lemma reads_after:
  assumes "mountable (last h) dir" "mset (order (bodies leaf ca)) = mset (bodies leaf ca)"
    "Mount io draws order dir leaf ca h = (Inr (), h')" "mono pace" "length h' - 1 \<le> pace t" "t \<le> t'"
  shows "read_at (watch h' pace clk) t' (fiCertFile (mounted_files dir)) = Inr (lfCertPEM leaf)"
    and "read_at (watch h' pace clk) t' (fiKeyFile (mounted_files dir)) = Inr (lfKeyPEM leaf)"
    and "read_at (watch h' pace clk) t' (fiCAFile (mounted_files dir)) = Inr ca"
proof -
  have "length h' - 1 \<le> pace t'" using monoD [OF assms(4,6)] assms(5) by simp
  with Mount_serves [OF assms(1-3)] have "holds_secret (h' ! min (pace t') (length h' - 1)) dir leaf ca"
    by (auto simp: last_conv_nth min_absorb2)
  then show "read_at (watch h' pace clk) t' (fiCertFile (mounted_files dir)) = Inr (lfCertPEM leaf)"
    "read_at (watch h' pace clk) t' (fiKeyFile (mounted_files dir)) = Inr (lfKeyPEM leaf)"
    "read_at (watch h' pace clk) t' (fiCAFile (mounted_files dir)) = Inr ca"
    by (simp_all add: watch_def holds_secret_def)
qed

section \<open>Rotations and the reloader\<close>

text \<open>
  C25: A rotation is atomic for its readers, whichever of its system calls fails: every state of the file tree
  it leaves behind reads as the old certificate, key and bundle or as the new ones, all the old
  states come before all the new ones, and a rotation that succeeds reached the new ones.  A
  reload that overlaps it publishes nothing, or material validated from the old files, the new
  ones, or old files followed by new ones in the order certificate, key, bundle.
\<close>

theorem rotation_is_atomic:
  assumes "mounted_at (last h) dir old oldCA" "h \<noteq> []" "mset (order (bodies leaf ca)) = mset (bodies leaf ca)"
    "Mount io draws order dir leaf ca h = (res, h')"
    "mono pace" "length h - 1 \<le> pace (fst st)" "rlFiles r = mounted_files dir"
  shows "(\<exists>pre post. h' = h @ pre @ post \<and> list_all (\<lambda>d. holds_secret d dir old oldCA) pre
       \<and> list_all (\<lambda>d. holds_secret d dir leaf ca) post \<and> (res = Inr () \<longrightarrow> post \<noteq> []))
     \<and> (case Reload pk (watch h' pace clk) r st of (ok, r', st') \<Rightarrow>
         if ok then \<exists>(c, k, a) \<in> set (seen old oldCA leaf ca). \<exists>now. Parse_material pk c k a now = Inr (Current r')
         else Current r' = Current r)"
proof -
  obtain pre post where p: "h' = h @ pre @ post" "list_all (\<lambda>d. holds_secret d dir old oldCA) pre"
      "list_all (\<lambda>d. holds_secret d dir leaf ca) post" "res = Inr () \<longrightarrow> post \<noteq> []"
    using rotation_steps [OF assms(1,3,4)] by blast
  have "holds_secret (last h) dir old oldCA" using assms(1) mounts_holds by (auto simp: mounted_at_def)
  with p(2) have "list_all (\<lambda>d. holds_secret d dir old oldCA) (last h # pre)" by simp
  from Reload_sees [OF p(1) assms(2) this p(3) assms(5-7), of pk clk] show ?thesis
    by (rule conjI [rotated]) (use p in blast)
qed

text \<open>
  C26: The reloader follows a rotation: the first reload after it succeeded decides on the new
  files alone.  It leaves the material when their digest is the current one, publishes what the
  new files validate to and calls back for it, and otherwise keeps the old material and counts
  a failure.
\<close>

theorem rotation_converges:
  assumes "mountable (last h) dir" "mset (order (bodies leaf ca)) = mset (bodies leaf ca)"
    "Mount io draws order dir leaf ca h = (Inr (), h')"
    "mono pace" "length h' - 1 \<le> pace t" "rlFiles r = mounted_files dir"
  shows "Reload pk (watch h' pace clk) r (t, s) =
     (if sha256 (files_bytes (lfCertPEM leaf) (lfKeyPEM leaf) ca) = maDigest (Current r) then (False, r, t + 3, s)
      else case Parse_material pk (lfCertPEM leaf) (lfKeyPEM leaf) ca (clk (t + 3)) of
             Inl e \<Rightarrow> (False, rejected (Inr e) r, t + 6, s)
           | Inr m \<Rightarrow> (True, published m r, t + 6,
               fold (\<lambda>fn s. fn (Current r) m s) (rlOnChange r) s))"
proof -
  have "clock_at (watch h' pace clk) t' = clk t'" for t' by (simp add: watch_def)
  with reads_after [OF assms(1-5), of _ clk] show ?thesis
    by (simp add: Reload_def filesDigest_def Load_material_def files_bytes_def assms(6)
      Current_def Let_def numeral_eq_Suc split: sum.split)
qed

section \<open>From an authority to a principal\<close>

text \<open>
  What the signer and the X.509 reader promise each other: a created certificate parses with
  its template's role, URIs and validity (whole seconds, cut off), pairs with the key it was
  made for, and an encoded PEM block decodes as itself with nothing after it.
\<close>

definition created_as :: "template \<Rightarrow> Certificate \<Rightarrow> bool" where
  "created_as t c \<longleftrightarrow> certIsCA c = tmIsCA t \<and> certURIs c = map Some (tmURIs t)
     \<and> certNotBefore c \<le> tmNotBefore t \<and> tmNotAfter t - second \<le> certNotAfter c"

definition issues :: "signer \<Rightarrow> pki \<Rightarrow> bool" where
  "issues sg pk \<longleftrightarrow>
     (\<forall>t par pub k der. create_certificate sg t par pub k = Inr der \<longrightarrow>
        (\<exists>c. parse_der sg der = Inr c \<and> parse_certificate pk der = Inr c \<and> created_as t c))
     \<and> (\<forall>t par key k der kder. create_certificate sg t par (public_key sg key) k = Inr der \<longrightarrow>
          marshal_key sg key = Inr kder \<longrightarrow>
          (\<exists>cert. x509_key_pair pk (pem_encode sg \<lparr>blType = ''CERTIFICATE'', blBytes = der\<rparr>)
                    (pem_encode sg \<lparr>blType = ''EC PRIVATE KEY'', blBytes = kder\<rparr>) = Inr cert \<and> tlChain cert ! 0 = der))
     \<and> (\<forall>b. pem_decode pk (pem_encode sg b) = Some (b, [])) \<and> pem_decode pk [] = None"

lemma issues_parse:
  "issues sg pk \<Longrightarrow> create_certificate sg t par pub k = Inr der \<Longrightarrow>
     \<exists>c. parse_der sg der = Inr c \<and> parse_certificate pk der = Inr c \<and> created_as t c"
  unfolding issues_def by (elim conjE) blast

lemma issues_pair:
  "issues sg pk \<Longrightarrow> create_certificate sg t par (public_key sg key) k = Inr der \<Longrightarrow> marshal_key sg key = Inr kder \<Longrightarrow>
     \<exists>cert. x509_key_pair pk (pem_encode sg \<lparr>blType = ''CERTIFICATE'', blBytes = der\<rparr>)
        (pem_encode sg \<lparr>blType = ''EC PRIVATE KEY'', blBytes = kder\<rparr>) = Inr cert \<and> tlChain cert ! 0 = der"
  unfolding issues_def by (elim conjE) blast

lemma NewCA_Inr:
  assumes "issues sg pk" "NewCA sg name n = Inr ca"
  obtains der c where "caPEM ca = pem_encode sg \<lparr>blType = ''CERTIFICATE'', blBytes = der\<rparr>"
    "parse_certificate pk der = Inr c" "certIsCA c" "caCert ca = Some c"
proof -
  from assms(2) obtain t par pub k der where c: "create_certificate sg t par pub k = Inr der" "tmIsCA t"
      "ca = \<lparr>caCert = (case parse_der sg der of Inl _ \<Rightarrow> None | Inr c \<Rightarrow> Some c), caKey = k,
         caPEM = pem_encode sg \<lparr>blType = ''CERTIFICATE'', blBytes = der\<rparr>\<rparr>"
    by (auto simp: NewCA_def Let_def split: sum.splits)
  with issues_parse [OF assms(1) c(1)] obtain c where
      "parse_der sg der = Inr c" "parse_certificate pk der = Inr c" "created_as t c" by blast
  with c that show thesis by (simp add: created_as_def)
qed

lemma parse_uris_one: "parse_uris sg [u] acc = Inr us \<longleftrightarrow> (\<exists>v. url_of sg u = Inr v \<and> us = acc @ [v])"
  by (auto split: sum.splits)

lemma Issue_Inr:
  assumes "issues sg pk" "Issue sg ca cn [u] dns n = Inr leaf" "url_of sg u = Inr v"
  obtains cert der c where "x509_key_pair pk (lfCertPEM leaf) (lfKeyPEM leaf) = Inr cert" "tlChain cert ! 0 = der"
    "parse_certificate pk der = Inr c" "certURIs c = [Some v]" "certNotBefore c \<le> now_at sg n 0 - 60 * second"
    "now_at sg n 1 + 12 * hour - second \<le> certNotAfter c"
proof -
  from assms(2,3) obtain no key par der kder where c:
      "create_certificate sg (leaf_template no cn (now_at sg n 0 - 60 * second) (now_at sg n 1 + 12 * hour) dns [v])
         par (public_key sg key) (caKey ca) = Inr der" "marshal_key sg key = Inr kder"
      "leaf = \<lparr>lfCertPEM = pem_encode sg \<lparr>blType = ''CERTIFICATE'', blBytes = der\<rparr>,
         lfKeyPEM = pem_encode sg \<lparr>blType = ''EC PRIVATE KEY'', blBytes = kder\<rparr>\<rparr>"
    by (auto simp: Issue_def IssueFor_def simp del: parse_uris.simps simp: parse_uris_one split: sum.splits option.splits)
  from issues_parse [OF assms(1) c(1)] obtain x where x: "parse_certificate pk der = Inr x"
      "created_as (leaf_template no cn (now_at sg n 0 - 60 * second) (now_at sg n 1 + 12 * hour) dns [v]) x" by blast
  from issues_pair [OF assms(1) c(1,2)] c(3) obtain cert where
      "x509_key_pair pk (lfCertPEM leaf) (lfKeyPEM leaf) = Inr cert" "tlChain cert ! 0 = der" by auto
  with x that show thesis by (simp add: created_as_def leaf_template_def)
qed

lemma Parse_issued:
  assumes "issues sg pk" "NewCA sg name n = Inr ca" "Issue sg ca' cn [u] dns n' = Inr leaf" "url_of sg u = Inr v"
    "now_at sg n' 0 - 60 * second \<le> now" "now \<le> now_at sg n' 1 + 12 * hour - second"
  shows "\<exists>m. Parse_material pk (lfCertPEM leaf) (lfKeyPEM leaf) (caPEM ca) now = Inr m
     \<and> certURIs (maLeaf m) = [Some v] \<and> TrustsRoot (Some m) (caCert ca)"
proof -
  obtain der root where r: "caPEM ca = pem_encode sg \<lparr>blType = ''CERTIFICATE'', blBytes = der\<rparr>"
      "parse_certificate pk der = Inr root" "certIsCA root" "caCert ca = Some root"
    by (rule NewCA_Inr [OF assms(1,2)])
  have d: "pem_decode pk (caPEM ca) = Some (\<lparr>blType = ''CERTIFICATE'', blBytes = der\<rparr>, [])" "pem_decode pk [] = None"
    using assms(1) r(1) by (simp_all add: issues_def)
  then obtain k where k: "length (caPEM ca) = Suc k" by (cases "caPEM ca") auto
  have b: "read_bundle pk (Suc (length (caPEM ca))) (caPEM ca) [] [] = Inr ([root], [(fingerprint root, root)])"
    unfolding k using r(2,3) d by simp
  obtain cert leafDER c where "x509_key_pair pk (lfCertPEM leaf) (lfKeyPEM leaf) = Inr cert" "tlChain cert ! 0 = leafDER"
    "parse_certificate pk leafDER = Inr c" "certURIs c = [Some v]" "certNotBefore c \<le> now_at sg n' 0 - 60 * second"
    "now_at sg n' 1 + 12 * hour - second \<le> certNotAfter c"
    by (rule Issue_Inr [OF assms(1,3,4)])
  with assms(5,6) b r(4) show ?thesis by (simp add: Parse_material_def TrustsRoot_def del: read_bundle.simps)
qed


section \<open>Witnesses\<close>

text \<open>A directory that was mounted once, and one that is empty.\<close>

definition old_leaf :: Leaf where "old_leaf = \<lparr>lfCertPEM = ''c1'', lfKeyPEM = ''k1''\<rparr>"

definition mounted_tree :: fs where
  "mounted_tree = map_of
     [([''m''], Dir), ([''m'', ''..ts-1''], Dir), ([''m'', ''..data''], Link ''..ts-1''),
      ([''m'', ''..ts-1'', ''tls.crt''], File ''c1''), ([''m'', ''..ts-1'', ''tls.key''], File ''k1''),
      ([''m'', ''..ts-1'', ''ca.crt''], File ''a1''), ([''m'', ''tls.crt''], Link ''..data/tls.crt''),
      ([''m'', ''tls.key''], Link ''..data/tls.key''), ([''m'', ''ca.crt''], Link ''..data/ca.crt'')]"

lemma comps_m [simp]: "comps ''/m'' = [''m'']"
  by (simp add: comps_def)

lemma mounted_tree_ready: "mounted_at mounted_tree ''/m'' old_leaf ''a1''"
proof -
  have "mounts mounted_tree [''m''] ''..ts-1'' (bodies old_leaf ''a1'')"
    by (simp add: mounts_def serving_def prepared_def ready_def stable_name_def mounted_names_def bodies_def
        old_leaf_def mounted_tree_def generation_def has_prefix_def comps_def path_join_def)
  moreover have "rooted mounted_tree [''m'']"
    by (auto simp: rooted_def mounted_tree_def)
  ultimately show ?thesis by (auto simp: mounted_at_def)
qed

definition new_leaf :: Leaf where "new_leaf = \<lparr>lfCertPEM = ''leaf'', lfKeyPEM = ''k''\<rparr>"

definition sample_watcher :: "unit Reloader" where
  "sample_watcher = \<lparr>rlFiles = mounted_files ''/m'', rlInterval = 5 * second, rlCurrent = sample_material,
     rlFailures = 0, rlOnChange = [], rlPolling = True, rlLog = []\<rparr>"

theorem rotation_is_atomic_witness:
  "\<exists>pre post. snd (Mount (\<lambda>n. None) [2] rev ''/m'' new_leaf ''ca-1'' [mounted_tree]) = [mounted_tree] @ pre @ post
     \<and> list_all (\<lambda>d. holds_secret d ''/m'' old_leaf ''a1'') pre \<and> list_all (\<lambda>d. holds_secret d ''/m'' new_leaf ''ca-1'') post"
  using rotation_is_atomic [of "[mounted_tree]" "''/m''" old_leaf "''a1''" rev new_leaf "''ca-1''" "\<lambda>n. None" "[2]" _ _
      id "(0, ())" sample_watcher sample_pki "\<lambda>t. 5", OF _ _ _ prod.collapse [symmetric]]
    mounted_tree_ready by (auto simp: sample_watcher_def mono_def)

lemma sample_rotation:
  "fst (Mount (\<lambda>n. None) [2] rev ''/m'' new_leaf ''ca-1'' [mounted_tree]) = Inr ()
   \<and> length (snd (Mount (\<lambda>n. None) [2] rev ''/m'' new_leaf ''ca-1'' [mounted_tree])) = 10"
  by code_simp

lemma mounted_tree_mountable: "mountable mounted_tree ''/m''"
  using mounted_tree_ready by (auto simp: mounted_at_def mounts_def serving_def prepared_def mountable_def)

theorem rotation_converges_witness:
  "\<exists>h'. Mount (\<lambda>n. None) [2] rev ''/m'' new_leaf ''ca-1'' [mounted_tree] = (Inr (), h')
     \<and> (case Reload sample_pki (watch h' (\<lambda>t. t) (\<lambda>t. 5)) (sample_watcher\<lparr>rlCurrent := sample_material\<lparr>maDigest := []\<rparr>\<rparr>) (9, ()) of
         (ok, r', st') \<Rightarrow> ok \<and> Current r' = sample_material)"
proof -
  obtain h' where h: "Mount (\<lambda>n. None) [2] rev ''/m'' new_leaf ''ca-1'' [mounted_tree] = (Inr (), h')" "length h' = 10"
    using sample_rotation by (metis prod.collapse)
  have "sha256 x \<noteq> []" for x using length_sha256 [of x] by fastforce
  moreover have "Parse_material sample_pki ''leaf'' ''k'' ''ca-1'' 5 = Inr sample_material"
    by (simp add: Parse_material_def sample_pki_def sample_leaf_def sample_ca_def sample_material_def numeral_eq_Suc)
  ultimately show ?thesis
    using rotation_converges [of "[mounted_tree]" "''/m''" rev new_leaf "''ca-1''" "\<lambda>n. None" "[2]" h' "\<lambda>t. t" 9
      "sample_watcher\<lparr>rlCurrent := sample_material\<lparr>maDigest := []\<rparr>\<rparr>" sample_pki "\<lambda>t. 5" "()"] mounted_tree_mountable h
    by (auto simp: sample_watcher_def new_leaf_def Current_def published_def mono_def)
qed

text \<open>A signer of one authority and one leaf; a PEM block is its type, its length in unary before it, and its bytes.\<close>

definition unary_pem :: "pem_block \<Rightarrow> bytes" where
  "unary_pem b = replicate (length (blType b)) CHR ''x'' @ ''y'' @ blType b @ blBytes b"

definition unary_decode :: "bytes \<Rightarrow> (pem_block \<times> bytes) option" where
  "unary_decode s =
     (if s = [] then None
      else let n = length (takeWhile (\<lambda>c. c = CHR ''x'') s) in
        Some (\<lparr>blType = take n (drop (Suc n) s), blBytes = drop n (drop (Suc n) s)\<rparr>, []))"

lemma unary_round: "unary_decode (unary_pem b) = Some (b, [])"
proof -
  have "takeWhile (\<lambda>c. c = CHR ''x'') (unary_pem b) = replicate (length (blType b)) CHR ''x''"
    by (simp add: unary_pem_def takeWhile_append)
  then show ?thesis by (simp add: unary_decode_def unary_pem_def)
qed

definition issued_leaf :: Certificate where
  "issued_leaf =
     \<lparr>certRaw = ''leaf'', certIsCA = False, certNotBefore = - 60 * second, certNotAfter = 12 * hour,
      certSubject = ''CN=sidecar'', certURIs = [Some (principal_url sample_principal)]\<rparr>"

definition issued_ca :: Certificate where
  "issued_ca =
     \<lparr>certRaw = ''ca'', certIsCA = True, certNotBefore = - hour, certNotAfter = 24 * hour,
      certSubject = ''CN=ca'', certURIs = []\<rparr>"

definition der_reader :: "bytes \<Rightarrow> string + Certificate" where
  "der_reader der = (if der = ''leaf'' then Inr issued_leaf else if der = ''ca'' then Inr issued_ca else Inl ''asn1'')"

definition sample_signer :: signer where
  "sample_signer =
     \<lparr>generate_key = (\<lambda>n. Inr ''k''), rand_int = (\<lambda>n b. Inr 7), now_at = (\<lambda>n i. 0), public_key = (\<lambda>k. k),
      create_certificate = (\<lambda>t par pub k.
        if tmIsCA t \<and> tmURIs t = [] \<and> tmNotBefore t = - hour \<and> tmNotAfter t = 24 * hour then Inr ''ca''
        else if \<not> tmIsCA t \<and> tmURIs t = [principal_url sample_principal] \<and> tmNotBefore t = - 60 * second
          \<and> tmNotAfter t = 12 * hour then Inr ''leaf''
        else Inl ''unsupported''),
      parse_der = der_reader, marshal_key = (\<lambda>k. Inr k), url_of = (\<lambda>u. Inr (principal_url sample_principal)),
      pem_encode = unary_pem\<rparr>"

definition issuing_pki :: pki where
  "issuing_pki =
     \<lparr>x509_key_pair = (\<lambda>c k. case unary_decode c of None \<Rightarrow> Inl ''no PEM data''
        | Some (b, r) \<Rightarrow> Inr \<lparr>tlChain = [blBytes b], tlKey = k, tlLeaf = None\<rparr>),
      parse_certificate = der_reader, pem_decode = unary_decode\<rparr>"

lemma sample_issues: "issues sample_signer issuing_pki"
  by (auto simp: issues_def sample_signer_def issuing_pki_def der_reader_def unary_round created_as_def
      issued_leaf_def issued_ca_def unary_decode_def [of "[]"])

definition empty_tree :: fs where "empty_tree = map_of [([''m''], Dir)]"

lemma empty_mountable: "mountable empty_tree ''/m''"
  by (simp add: mountable_def ready_def rooted_def empty_tree_def mounted_names_def)

definition issued :: Leaf where
  "issued = \<lparr>lfCertPEM = unary_pem \<lparr>blType = ''CERTIFICATE'', blBytes = ''leaf''\<rparr>,
     lfKeyPEM = unary_pem \<lparr>blType = ''EC PRIVATE KEY'', blBytes = ''k''\<rparr>\<rparr>"

definition issuing :: CA where
  "issuing = \<lparr>caCert = Some issued_ca, caKey = ''k'', caPEM = unary_pem \<lparr>blType = ''CERTIFICATE'', blBytes = ''ca''\<rparr>\<rparr>"

lemma sample_mounts: "fst (Mount (\<lambda>n. None) [2] rev ''/m'' issued (caPEM issuing) [empty_tree]) = Inr ()"
  by code_simp


end
