(* ===== verification/Commands.thy ===== *)
theory Commands
  imports Encoding Samples
begin

text \<open>
  The commands of internal/scope/scope.go: what their request digests are taken of, read back.
\<close>

lemma show_nat_head: "\<exists>c ds. show_nat n = c # ds \<and> is_digit c \<and> (c = CHR ''0'' \<longrightarrow> ds = [])"
proof (induction n rule: show_nat.induct)
  case (1 n)
  show ?case
  proof (cases "n < 10")
    case True
    then show ?thesis by (subst show_nat.simps) (simp add: digit_char_digit)
  next
    case False
    then have pos: "0 < n div 10" by simp
    obtain c ds where c: "show_nat (n div 10) = c # ds" "is_digit c" "c = CHR ''0'' \<longrightarrow> ds = []" using 1 [OF False] by blast
    have "c \<noteq> CHR ''0''"
    proof
      assume "c = CHR ''0''"
      with c have z: "show_nat (n div 10) = ''0''" by simp
      show False
      proof (cases "n div 10 < 10")
        case True
        with z have "digit_char (n div 10) = CHR ''0''" by (simp add: show_nat.simps [of "n div 10"])
        then have "of_char (digit_char (n div 10)) = (48::nat)" by simp
        with True pos show False by (simp add: digit_char_def)
      next
        case False
        with z have "show_nat (n div 10 div 10) = []" by (simp add: show_nat.simps [of "n div 10"])
        then show False by (simp add: show_nat.simps [of "n div 10 div 10"] split: if_splits)
      qed
    qed
    with c False show ?thesis by (subst show_nat.simps) simp
  qed
qed

lemma reads_nat: "reads (show_nat n) (JNum (show_nat n))"
proof -
  obtain c ds where c: "show_nat n = c # ds" "is_digit c" "c = CHR ''0'' \<longrightarrow> ds = []" using show_nat_head by blast
  have all: "list_all is_digit (c # ds)" using show_nat_digits [of n] c(1) by simp
  have d: "\<not> is_digit CHR '',''" "\<not> is_digit CHR ''}''" by code_simp+
  have c2: "c \<noteq> CHR ''-''" "c \<noteq> CHR ''{''" "c \<noteq> CHR ''[''" "c \<noteq> quote_char" "c \<noteq> CHR ''t''" "c \<noteq> CHR ''f''" "c \<noteq> CHR ''n''"
      "\<not> is_ws c"
    using c(2) by (auto simp: is_digit_def in_range_def is_ws_def less_eq_char_def)
  have "scan_number (c # ds @ t) = Some (c # ds, t)" if t: "take 1 t = '','' \<or> take 1 t = ''}''" for t
  proof -
    have tw: "takeWhile is_digit (ds @ t) = ds" "dropWhile is_digit (ds @ t) = t"
      using all t d by (cases t; auto simp: takeWhile_append list_all_iff dropWhile_append)+
    have "scan_int (c # ds @ t) = Some (c # ds, t)"
      using c(2,3) tw by (auto simp: scan_int_def take_digits_def)
    moreover have "scan_frac t = Some ([], t)" "scan_exp t = Some ([], t)"
      using t by (cases t; auto simp: scan_frac_def scan_exp_def)+
    ultimately show ?thesis using c2(1) by (simp add: scan_number_def)
  qed
  then show ?thesis using c2 by (simp add: reads_def c(1) skip_ws_def)
qed

lemma valid_utf8_ascii: "list_all (\<lambda>c. byte c < 128) s \<Longrightarrow> valid_utf8 s"
  by (induction s) (simp_all add: valid_utf8.simps [of "_ # _"] valid_utf8.simps [of "[]"] utf8_len_def)

lemma valid_utf8_DigestOf: "valid_utf8 (DigestOf b)"
proof -
  have "byte c < 128" if "is_lower_hex c" for c
  proof -
    from that have "byte c \<le> byte CHR ''f''"
      by (auto simp: is_lower_hex_def is_digit_def in_range_def less_eq_char_def byte_def)
    then show ?thesis by (simp add: byte_def)
  qed
  with list_all_hex_encode [of "sha256 b"] have "list_all (\<lambda>c. byte c < 128) (hex_encode (sha256 b))"
    by (auto simp: list_all_iff)
  then show ?thesis by (intro valid_utf8_ascii) (simp add: DigestOf_def byte_def)
qed

section \<open>What a command digest is taken of\<close>

definition string_object :: "(string \<times> string) list \<Rightarrow> json" where
  "string_object kvs = JObj (map (\<lambda>(k, v). (k, json_string v, JStr v)) kvs)"

lemma marshal_map_reads:
  assumes "m \<noteq> []" "list_all (\<lambda>(k, v). valid_utf8 k \<and> valid_utf8 v) m"
  shows "parse_json (marshal_map m) = Some (string_object (sort_key fst m), [])"
proof -
  let ?ms = "map (\<lambda>(k, v). (k, json_string v, JStr v)) (sort_key fst m)"
  have "list_all (\<lambda>(k, raw, v). valid_utf8 k \<and> reads raw v) ?ms"
    using assms(2) by (auto simp: list_all_iff reads_string)
  moreover have "?ms \<noteq> []"
  proof
    assume "?ms = []"
    then have "length (sort_key fst m) = 0" by simp
    with assms(1) show False by (simp only: length_sort length_0_conv)
  qed
  moreover have "map (\<lambda>(k, raw, v). (k, raw)) ?ms = map (\<lambda>(k, v). (k, json_string v)) (sort_key fst m)"
    by (simp add: split_def)
  ultimately show ?thesis
    using parse_object_written [of ?ms "[]"] unfolding marshal_map_def string_object_def append_Nil2 by metis
qed

text \<open>
  C38: What the request digest of each command of a launch is taken of reads back as what the
  command states: a transfer's attempt, class, digest, media type and size; a finalization's
  handle and object version; a result's attempt, instance, digest and verdict; a progress
  report's attempt, instance, node, state, round and outcome code.  Two commands with one
  request digest text are therefore the same command.
\<close>

theorem commands_state_their_content:
  assumes "list_all valid_utf8 [scAttemptID s, scInstanceID s, class, mt, handle, version, verdict, node, state, rnd, oc]"
  shows "\<exists>tb tf ta tp.
     ciRequestDigest (brCommand (begin_request s class cls mt body)) = DigestOf tb
     \<and> parse_json tb = Some (JObj
         [(''Attempt'', json_string (scAttemptID s), JStr (scAttemptID s)), (''Class'', json_string class, JStr class),
          (''Digest'', json_string (DigestOf body), JStr (DigestOf body)), (''MediaType'', json_string mt, JStr mt),
          (''Size'', show_nat (length body), JNum (show_nat (length body)))], [])
     \<and> ciRequestDigest (frCommand (finalize_request s handle version)) = DigestOf tf
     \<and> parse_json tf = Some (string_object [(''handle'', handle), (''objectVersion'', version)], [])
     \<and> ciRequestDigest (arqCommand (accept_request s verdict v fc mf)) = DigestOf ta
     \<and> parse_json ta = Some (string_object [(''attempt'', scAttemptID s), (''digest'', DigestOf mf),
          (''instance'', scInstanceID s), (''verdict'', verdict)], [])
     \<and> ciRequestDigest (pqCommand (progress_request s node state rnd oc)) = DigestOf tp
     \<and> parse_json tp = Some (string_object [(''attempt'', scAttemptID s), (''instance'', scInstanceID s), (''node'', node),
          (''outcomeCode'', oc), (''round'', rnd), (''state'', state)], [])"
proof -
  have keys: "list_all valid_utf8 [''Attempt'', ''Class'', ''Digest'', ''MediaType'', ''Size'', ''handle'', ''objectVersion'',
      ''attempt'', ''digest'', ''instance'', ''verdict'', ''node'', ''state'', ''round'', ''outcomeCode'']" by code_simp
  note dg = valid_utf8_DigestOf
  let ?b = "[(''Attempt'', json_string (scAttemptID s), JStr (scAttemptID s)), (''Class'', json_string class, JStr class),
          (''Digest'', json_string (DigestOf body), JStr (DigestOf body)), (''MediaType'', json_string mt, JStr mt),
          (''Size'', show_nat (length body), JNum (show_nat (length body)))]"
  have "list_all (\<lambda>(k, raw, v). valid_utf8 k \<and> reads raw v) ?b"
    using assms keys dg by (simp add: reads_string reads_nat)
  from parse_object_written [OF _ this, of "[]"]
  have tb: "parse_json (json_object [(''Attempt'', json_string (scAttemptID s)), (''Class'', json_string class),
     (''Digest'', json_string (DigestOf body)), (''MediaType'', json_string mt), (''Size'', show_nat (length body))])
     = Some (JObj ?b, [])" by simp
  note sorted = less_eq_char_def list_le_def list_less_def
  have tf: "parse_json (marshal_map [(''handle'', handle), (''objectVersion'', version)])
      = Some (string_object [(''handle'', handle), (''objectVersion'', version)], [])"
    using assms keys by (subst marshal_map_reads) (simp_all add: sorted)
  have ta: "parse_json (marshal_map [(''attempt'', scAttemptID s), (''instance'', scInstanceID s), (''digest'', DigestOf mf),
        (''verdict'', verdict)]) = Some (string_object [(''attempt'', scAttemptID s), (''digest'', DigestOf mf),
          (''instance'', scInstanceID s), (''verdict'', verdict)], [])"
    using assms keys dg by (subst marshal_map_reads) (simp_all add: sorted)
  have tp: "parse_json (marshal_map [(''attempt'', scAttemptID s), (''instance'', scInstanceID s), (''node'', node),
        (''state'', state), (''round'', rnd), (''outcomeCode'', oc)])
      = Some (string_object [(''attempt'', scAttemptID s), (''instance'', scInstanceID s), (''node'', node),
          (''outcomeCode'', oc), (''round'', rnd), (''state'', state)], [])"
    using assms keys by (subst marshal_map_reads) (simp_all add: sorted)
  show ?thesis
    by (rule exI, rule exI, rule exI, rule exI, intro conjI)
       (rule tb tf ta tp | simp add: begin_request_def finalize_request_def accept_request_def progress_request_def
         command_def marshal_transferBinding_def show_int_def Let_def)+
qed

theorem commands_state_their_content_witness:
  "\<exists>ta. ciRequestDigest (arqCommand (accept_request sample_scope ''certified'' CERTIFIED [] ''{}'')) = DigestOf ta
     \<and> parse_json ta = Some (string_object [(''attempt'', ''att-1''), (''digest'', DigestOf ''{}''),
          (''instance'', scInstanceID sample_scope), (''verdict'', ''certified'')], [])"
proof -
  have "list_all valid_utf8 [scAttemptID sample_scope, scInstanceID sample_scope, ''stage'', ''text/plain'', ''h-1'', ''v-1'',
      ''certified'', ''build'', ''running'', ''1'', []]" "scAttemptID sample_scope = ''att-1''" by code_simp+
  with commands_state_their_content [of sample_scope "''stage''" "''text/plain''" "''h-1''" "''v-1''" "''certified''"
      "''build''" "''running''" "''1''" "[]" STAGE "[]" CERTIFIED "[]" "''{}''"] show ?thesis by simp blast
qed

end
