(* ===== verification/Deployment.thy ===== *)
theory Deployment
  imports Startup Bounds
begin

text \<open>
  The parts of the running process together: from a started process and a connection its
  listener accepted to what a request on that connection can cause.
\<close>

text \<open>A scope of the launch a configuration and its envelope name.\<close>

definition launch_scope :: "Config \<Rightarrow> Envelope \<Rightarrow> Scope \<Rightarrow> bool" where
  "launch_scope cfg env sc \<longleftrightarrow>
     scAttemptID sc = eAttemptID env \<and> scOperationID sc = eOperationID env \<and> scProfileID sc = eProfileID env
     \<and> scExecutionEpoch sc = eExecutionEpoch env \<and> scLaunchKey sc = laLaunchKey (cfLaunch cfg) \<and> scCurrent sc"

text \<open>
  What one socket does with a request on a connection it accepted: without the token of the
  launch secret or a nonce nothing changes but for a line in the log; with them the request is answered with the proof,
  and every call made for it is made under a scope of the launch.
\<close>

definition serves ::
  "uid \<Rightarrow> string \<Rightarrow> (request \<Rightarrow> writer \<Rightarrow> Inputs \<times> world \<Rightarrow> writer \<times> Inputs \<times> world)
     \<Rightarrow> (Scope \<Rightarrow> bool) \<Rightarrow> Conn \<Rightarrow> request \<Rightarrow> header \<Rightarrow> Inputs \<times> world \<Rightarrow> bool" where
  "serves u token handler launch c req hs st \<longleftrightarrow>
     (let req' = req\<lparr>hrPeer := ConnContext (Some c)\<rparr>; r = handler req' (fresh_writer hs) st in
      pUID (cnPeer c) = u
      \<and> (if lowerHex (header_get (hrHeader req) HeaderNonce) 32 \<and> header_get (hrHeader req) HeaderToken = token
         then answered (proof_of token req') (fst r)
           \<and> (\<exists>calls. woHist (snd (snd r)) = woHist (snd st) @ calls
                \<and> authorized (\<lambda>p sc h. launch sc) (woHist (snd st)) calls)
         else snd r = noted to_log (refused_line u token req') st))"

lemma authorized_mono:
  "authorized g h calls \<Longrightarrow> (\<And>p sc k. g p sc k \<Longrightarrow> g' p sc k) \<Longrightarrow> authorized g' h calls"
  unfolding authorized_def by blast

lemma confirmed_launch_scope:
  assumes "wiResolver wi = \<lparr>reIdentity = i, reBinding = launch_binding cfg env\<rparr>" "confirmed up wi p sc h"
  shows "launch_scope cfg env sc"
proof -
  from assms obtain h0 where "Confirm up i (launch_binding cfg env) p h0 = (Inr sc, h)" by (auto simp: confirmed_def)
  from Confirm_scope [OF this] show ?thesis by (simp add: launch_scope_def launch_binding_def)
qed

lemma accepted_peer:
  "Accept u arrivals lg = (Some (Inr c), rest, lg') \<Longrightarrow> pUID (cnPeer c) = u"
  using Accept_run [of u arrivals lg] by fastforce

lemma admitted_on:
  "pUID (cnPeer c) = u \<Longrightarrow> admitted u token (req\<lparr>hrPeer := ConnContext (Some c)\<rparr>) \<longleftrightarrow>
     lowerHex (header_get (hrHeader req) HeaderNonce) 32 \<and> header_get (hrHeader req) HeaderToken = token"
  by (auto simp: admitted_def from_peer_def ConnContext_def)

lemma serves_trusted:
  assumes "pUID (cnPeer c) = wiTrustedUID wi" "wiTrustedToken wi = Token secret RoleTrusted"
    "wiResolver wi = \<lparr>reIdentity = i, reBinding = launch_binding cfg env\<rparr>"
  shows "serves (wiTrustedUID wi) (Token secret RoleTrusted) (Trusted (sidecar up accepts ext wi))
    (launch_scope cfg env) c req hs st"
proof -
  let ?req = "req\<lparr>hrPeer := ConnContext (Some c)\<rparr>" and ?sv = "sidecar up accepts ext wi"
  obtain calls where "woHist (snd (snd (Trusted ?sv ?req (fresh_writer hs) st))) = woHist (snd st) @ calls"
      "authorized (confirmed up wi) (woHist (snd st)) calls"
    using live.Trusted_within [where up = up and accepts = accepts and ext = ext and wi = wi and req = ?req and w = "fresh_writer hs" and st = st] by (auto simp: live.within_def)
  moreover from this(2) have "authorized (\<lambda>p sc h. launch_scope cfg env sc) (woHist (snd st)) calls"
    by (rule authorized_mono) (rule confirmed_launch_scope [OF assms(3)])
  ultimately show ?thesis
    using Trusted_proved [OF assms(2), where req = ?req and up = up and accepts = accepts and ext = ext and hs = hs and st = st] admitted_on [OF assms(1), of "Token secret RoleTrusted" req] assms(1)
    by (auto simp: serves_def Let_def)
qed

lemma serves_candidate:
  assumes "pUID (cnPeer c) = wiCandidateUID wi" "wiCandidateToken wi = Token secret RoleCandidate"
    "wiResolver wi = \<lparr>reIdentity = i, reBinding = launch_binding cfg env\<rparr>"
  shows "serves (wiCandidateUID wi) (Token secret RoleCandidate) (Candidate (sidecar up accepts ext wi))
    (launch_scope cfg env) c req hs st"
proof -
  let ?req = "req\<lparr>hrPeer := ConnContext (Some c)\<rparr>" and ?sv = "sidecar up accepts ext wi"
  obtain calls where "woHist (snd (snd (Candidate ?sv ?req (fresh_writer hs) st))) = woHist (snd st) @ calls"
      "authorized (confirmed up wi) (woHist (snd st)) calls"
    using live.Candidate_within [where up = up and accepts = accepts and ext = ext and wi = wi and req = ?req and w = "fresh_writer hs" and st = st] by (auto simp: live.within_def)
  moreover from this(2) have "authorized (\<lambda>p sc h. launch_scope cfg env sc) (woHist (snd st)) calls"
    by (rule authorized_mono) (rule confirmed_launch_scope [OF assms(3)])
  ultimately show ?thesis
    using Candidate_proved [OF assms(2), where req = ?req and up = up and accepts = accepts and ext = ext and hs = hs and st = st] admitted_on [OF assms(1), of "Token secret RoleCandidate" req] assms(1)
    by (auto simp: serves_def Let_def)
qed

text \<open>
  C4: A process serves only an enabled launch, under the owner's UID, with an envelope Parse
  accepts that names the environment's launch key, and with both sockets held.  On each socket
  it accepts only connections of the UID the configuration names for it; a request on one
  changes nothing, but for a line in the log, without the token derived from the launch secret for
  that socket and a nonce; with them it is answered with the proof, and all that is asked of the outside for it
  is asked under a scope of the attempt, operation, profile, epoch and launch key of the launch.
\<close>

theorem started_process_serves_its_launch:
  "case start ho cfg y of
     (Inl e, y') \<Rightarrow> True
   | (Inr po, y') \<Rightarrow>
       icMode (cfIdentity cfg) \<noteq> IdentityDisabled
       \<and> hoUID ho = scOwnerUID (cfSockets cfg) \<and> hoEUID ho = scOwnerUID (cfSockets cfg)
       \<and> syHeld y' = [lnName (loCandidate (poLayout po)), lnName (loTrusted (poLayout po))] @ syHeld y
       \<and> (\<exists>env secret. Parse (laEnvelope (cfLaunch cfg)) = Inr env \<and> eLaunchKey env = laLaunchKey (cfLaunch cfg)
            \<and> ParseSecret (laSecret (cfLaunch cfg)) = Inr secret
            \<and> (case Accept (lnExpectedUID (loTrusted (poLayout po))) arrivals lg of
                 (Some (Inr c), rest, lg') \<Rightarrow>
                   serves (scTrustedUID (cfSockets cfg)) (Token secret RoleTrusted)
                     (Trusted (sidecar up accepts ext (poWiring po))) (launch_scope cfg env) c req hs st
               | _ \<Rightarrow> True)
            \<and> (case Accept (lnExpectedUID (loCandidate (poLayout po))) arrivals lg of
                 (Some (Inr c), rest, lg') \<Rightarrow>
                   serves (scCandidateUID (cfSockets cfg)) (Token secret RoleCandidate)
                     (Candidate (sidecar up accepts ext (poWiring po))) (launch_scope cfg env) c req hs st
               | _ \<Rightarrow> True))"
proof (cases "start ho cfg y")
  case (Pair r y')
  show ?thesis
  proof (cases r)
    case (Inr po)
    with Pair have "start ho cfg y = (Inr po, y')" by simp
    then obtain pp y1 y2 y3 rs where s: "prepare ho cfg y = (Inr pp, y1)" "bind_sockets ho cfg y1 = (Inr (poLayout po), y2)"
        "start_relays ho cfg (ppFiles pp) y2 = (Inr rs, y3)" "poWiring po = wiring_of cfg pp rs"
        "y' = says (serving_line cfg rs) y3"
      by (rule start_Inr)
    note facts = prepare_Inr [OF s(1)] bind_sockets_Inr [OF s(2)]
    have wi: "wiTrustedUID (poWiring po) = scTrustedUID (cfSockets cfg)" "wiCandidateUID (poWiring po) = scCandidateUID (cfSockets cfg)"
        "wiTrustedToken (poWiring po) = Token (ppSecret pp) RoleTrusted"
        "wiCandidateToken (poWiring po) = Token (ppSecret pp) RoleCandidate"
        "wiResolver (poWiring po) = \<lparr>reIdentity = launch_identity cfg, reBinding = launch_binding cfg (ppEnvelope pp)\<rparr>"
      using s(4) facts(1) by (simp_all add: wiring_of_def)
    have t: "serves (scTrustedUID (cfSockets cfg)) (Token (ppSecret pp) RoleTrusted)
        (Trusted (sidecar up accepts ext (poWiring po))) (launch_scope cfg (ppEnvelope pp)) c req hs st"
      if "pUID (cnPeer c) = scTrustedUID (cfSockets cfg)" for c
      using serves_trusted [OF _ wi(3,5), of c] that by (simp add: wi(1))
    have d: "serves (scCandidateUID (cfSockets cfg)) (Token (ppSecret pp) RoleCandidate)
        (Candidate (sidecar up accepts ext (poWiring po))) (launch_scope cfg (ppEnvelope pp)) c req hs st"
      if "pUID (cnPeer c) = scCandidateUID (cfSockets cfg)" for c
      using serves_candidate [OF _ wi(4,5), of c] that by (simp add: wi(2))
    show ?thesis
      using facts start_relays_facts [OF s(3)] s(5) Pair Inr
      by (auto simp: Disabled_def split: option.split sum.split dest!: accepted_peer intro: t d)
  qed (simp add: Pair)
qed

text \<open>A process of the sample configuration, and the harness staging a file on a connection of UID 0.\<close>

definition sample_arrivals :: "arrival list" where
  "sample_arrivals =
     [Arrived \<lparr>rcId = 1, rcSyscallErr = None, rcControlErr = None, rcCred = Inr \<lparr>pUID = 10001, pGID = 0, pPID = 0\<rparr>\<rparr>,
      Arrived \<lparr>rcId = 2, rcSyscallErr = None, rcControlErr = None, rcCred = Inr zeroPeer\<rparr>]"

theorem started_process_serves_its_launch_witness:
  "\<exists>po y' secret. start sample_host sample_config sample_system = (Inr po, y')
     \<and> syHeld y' = [lnName (loCandidate (poLayout po)), lnName (loTrusted (poLayout po)), ''@other'']
     \<and> ParseSecret (replicate 64 CHR ''a'') = Inr secret
     \<and> (case Accept (lnExpectedUID (loTrusted (poLayout po))) sample_arrivals \<lparr>alClosed = [], alRejected = []\<rparr> of
          (Some (Inr c), rest, lg') \<Rightarrow>
            serves 0 (Token secret RoleTrusted)
              (Trusted (sidecar sample_upstream (\<lambda>w b. True) sample_externals (poWiring po)))
              (launch_scope sample_config launch_envelope) c staging_request []
              (NewInputs launch_envelope, sample_world)
        | _ \<Rightarrow> True)"
proof -
  have "succeeds (start sample_host sample_config sample_system)"
    using start_succeeds [OF sample_config_ok sample_ready(1,2)] sample_ready(3-5) by blast
  then obtain po y' where s: "start sample_host sample_config sample_system = (Inr po, y')" by (rule succeedsE)
  have c: "laEnvelope (cfLaunch sample_config) = launch_text" "laSecret (cfLaunch sample_config) = replicate 64 CHR ''a''"
      "scTrustedUID (cfSockets sample_config) = 0" "syHeld sample_system = [''@other'']"
    by (simp_all add: sample_config_def sample_system_def)
  note served = started_process_serves_its_launch [where ho = sample_host and cfg = sample_config and y = sample_system
      and arrivals = sample_arrivals and lg = "\<lparr>alClosed = [], alRejected = []\<rparr>" and up = sample_upstream
      and accepts = "\<lambda>w b. True" and ext = sample_externals and req = staging_request and hs = "[]"
      and st = "(NewInputs launch_envelope, sample_world)", unfolded s prod.case sum.case c append_Cons append_Nil launch_text_accepted sum.inject]
  from served s show ?thesis
    apply (elim conjE exE)
    apply hypsubst
    apply (intro exI conjI)
    apply assumption+
    done
qed

end
