(* ===== verification/Independence.thy ===== *)
theory Independence
  imports Requests
begin

text \<open>
  What a request's effects depend on.  The handlers of internal/server/server.go use the writer
  only to answer, the headers of a request only for the class and the media type of a
  transfer, and the staged bytes only after their last call of the outside: two servers that are
  matched operation by operation, given requests that differ in anything else, make the
  same calls, write the same log and stage the same bytes.
\<close>

section \<open>Matched servers\<close>

text \<open>Two results that are the same, with states that agree on an aspect of each.\<close>

definition alike :: "('s \<Rightarrow> 'h) \<Rightarrow> ('t \<Rightarrow> 'h) \<Rightarrow> 'a \<times> 's \<Rightarrow> 'a \<times> 't \<Rightarrow> bool" where
  "alike trace trace' x x' \<longleftrightarrow> fst x = fst x' \<and> trace (snd x) = trace' (snd x')"

text \<open>
  From states that agree, the operations behind two servers answer the same and leave states
  that agree; a relay's error and what it leaves do not depend on the answer under way either.
\<close>

locale matched_servers =
  fixes sv :: "'s server" and sv' :: "'t server" and trace :: "'s \<Rightarrow> 'h" and trace' :: "'t \<Rightarrow> 'h"
  assumes same_parts: "svLimits sv' = svLimits sv" "svExt sv' = svExt sv" "svEnvelope sv' = svEnvelope sv"
      "svTrustedUID sv' = svTrustedUID sv" "svCandidateUID sv' = svCandidateUID sv"
    and same_relays: "(svRelay sv' = None) = (svRelay sv = None)" "(svMCP sv' = None) = (svMCP sv = None)"
      "(svKnowledge sv' = None) = (svKnowledge sv = None)"
    and confirm_alike: "trace s = trace' s' \<Longrightarrow>
        alike trace trace' (srcConfirm (svScope sv) p s) (srcConfirm (svScope sv') p s')"
    and upload_alike: "trace s = trace' s' \<Longrightarrow>
        alike trace trace' (srcUpload (svScope sv) sc c m b s) (srcUpload (svScope sv') sc c m b s')"
    and submit_alike: "trace s = trace' s' \<Longrightarrow>
        alike trace trace' (srcSubmit (svScope sv) sc v fc ob mf s) (srcSubmit (svScope sv') sc v fc ob mf s')"
    and progress_alike: "trace s = trace' s' \<Longrightarrow>
        alike trace trace' (srcProgress (svScope sv) sc n st rd oc s) (srcProgress (svScope sv') sc n st rd oc s')"
    and accepted_alike: "trace s = trace' s' \<Longrightarrow>
        alike trace trace' (srcAcceptedStage (svScope sv) sc s) (srcAcceptedStage (svScope sv') sc s')"
    and prior_alike: "trace s = trace' s' \<Longrightarrow>
        alike trace trace' (srcPriorStage (svScope sv) sc a s) (srcPriorStage (svScope sv') sc a s')"
    and load_alike: "trace s = trace' s' \<Longrightarrow>
        alike trace trace' (srcLoad (svScope sv) sc hn mx s) (srcLoad (svScope sv') sc hn mx s')"
    and relay_alike: "svRelay sv = Some fwd \<Longrightarrow> svRelay sv' = Some fwd' \<Longrightarrow> trace s = trace' s' \<Longrightarrow>
        fst (fst (fwd w q d s)) = fst (fst (fwd' w' q d s')) \<and> trace (snd (fwd w q d s)) = trace' (snd (fwd' w' q d s'))"
    and mcp_alike: "svMCP sv = Some call \<Longrightarrow> svMCP sv' = Some call' \<Longrightarrow> trace s = trace' s' \<Longrightarrow>
        alike trace trace' (call cq s) (call' cq s')"
    and knowledge_alike: "svKnowledge sv = Some search \<Longrightarrow> svKnowledge sv' = Some search' \<Longrightarrow> trace s = trace' s' \<Longrightarrow>
        alike trace trace' (search kq s) (search' kq s')"
    and log_alike: "trace s = trace' s' \<Longrightarrow> trace (svLog sv l s) = trace' (svLog sv' l s')"

section \<open>Handlers\<close>

text \<open>The same request but for headers that no handler reads.\<close>

definition same_payload :: "request \<Rightarrow> request \<Rightarrow> bool" where
  "same_payload r r' \<longleftrightarrow>
     r' = r\<lparr>hrHeader := hrHeader r'\<rparr>
     \<and> header_get (hrHeader r') ''X-Anvilkit-Class'' = header_get (hrHeader r) ''X-Anvilkit-Class''
     \<and> header_get (hrHeader r') ''Content-Type'' = header_get (hrHeader r) ''Content-Type''"

lemma same_payload_fields:
  assumes "same_payload r r'"
  shows "hrMethod r' = hrMethod r" "hrRequestURI r' = hrRequestURI r" "hrEscapedPath r' = hrEscapedPath r"
    "hrBody r' = hrBody r" "hrTorn r' = hrTorn r" "hrPeer r' = hrPeer r" "read_body n r' = read_body n r"
    "peer_of r' = peer_of r" "route_of r' = route_of r" "from_peer u r' = from_peer u r"
proof -
  from assms obtain h where "r' = r\<lparr>hrHeader := h\<rparr>" by (auto simp: same_payload_def)
  then show "hrMethod r' = hrMethod r" "hrRequestURI r' = hrRequestURI r" "hrEscapedPath r' = hrEscapedPath r"
    "hrBody r' = hrBody r" "hrTorn r' = hrTorn r" "hrPeer r' = hrPeer r" "read_body n r' = read_body n r"
    "peer_of r' = peer_of r" "route_of r' = route_of r" "from_peer u r' = from_peer u r"
    by (simp_all add: read_body_def peer_of_def route_of_def from_peer_def)
qed

lemma same_payload_refl [simp]: "same_payload r r"
  by (simp add: same_payload_def)

context matched_servers begin

lemma alike_case:
  assumes "alike trace trace' x x'"
    and "\<And>r t t'. trace t = trace' t' \<Longrightarrow> trace (snd (snd (k r t))) = trace' (snd (snd (k' r t')))"
  shows "trace (snd (snd (case x of (r, t) \<Rightarrow> k r t))) = trace' (snd (snd (case x' of (r, t) \<Rightarrow> k' r t)))"
  using assms by (cases x; cases x') (simp add: alike_def)

lemma alike_inputs:
  assumes "alike trace trace' x x'" "\<And>r t t'. fst (snd (k r t)) = fst (snd (k' r t'))"
  shows "fst (snd (case x of (r, t) \<Rightarrow> k r t)) = fst (snd (case x' of (r, t) \<Rightarrow> k' r t))"
  using assms by (cases x; cases x') (simp add: alike_def)

lemma relay_same:
  assumes "svRelay sv = Some fwd" "svRelay sv' = Some fwd'" "fwd w q d s = ((e, w1), s1)" "fwd' w' q d s' = ((e', w2), s2)"
    "trace s = trace' s'"
  shows "e' = e \<and> trace s1 = trace' s2"
  using relay_alike [OF assms(1,2,5), of w q d w'] assms(3,4) by simp

lemma with_scope_calls:
  assumes "trace s = trace' s'"
    and "\<And>sc t t'. trace t = trace' t' \<Longrightarrow> trace (snd (snd (go sc (ip, t)))) = trace' (snd (snd (go' sc (ip', t'))))"
  shows "trace (snd (snd (with_scope sv p w (ip, s) go))) = trace' (snd (snd (with_scope sv' p w' (ip', s') go')))"
  unfolding with_scope_def snd_conv fst_conv
  by (rule alike_case [OF confirm_alike [OF assms(1)]]) (simp add: assms(2) split: sum.split)

lemma failed_alike: "trace s = trace' s' \<Longrightarrow> trace (relay_failed sv line e s) = trace' (relay_failed sv' line e s')"
  by (auto simp: relay_failed_def Let_def intro: log_alike)

text \<open>The calls, log lines and other effects outside the store, whatever bytes are staged.\<close>

lemma modelRelay_calls:
  assumes "same_payload r r'" "trace s = trace' s'"
  shows "trace (snd (snd (modelRelay sv r vals w (ip, s)))) = trace' (snd (snd (modelRelay sv' r' vals w' (ip', s'))))"
proof (cases "svRelay sv")
  case None
  with assms same_relays(1) show ?thesis by (simp add: modelRelay_def same_payload_fields same_parts split: option.split)
next
  case (Some fwd)
  with same_relays(1) obtain fwd' where f: "svRelay sv' = Some fwd'" by (cases "svRelay sv'") auto
  show ?thesis
    using assms(2)
    apply (simp add: modelRelay_def same_payload_fields [OF assms(1)] same_parts Some f split: option.split sum.split)
    apply (intro allI impI with_scope_calls)
     apply assumption
    apply (simp split: sum.split prod.split option.split)
    apply (intro allI impI conjI)
       apply (drule (1) relay_same [OF Some f], assumption, simp, (erule log_alike)?)+
    done
qed

lemma putInput_calls:
  assumes "same_payload r r'" "trace s = trace' s'"
  shows "trace (snd (snd (putInput sv r vals w (ip, s)))) = trace' (snd (snd (putInput sv' r' vals w' (ip', s'))))"
  unfolding putInput_def same_payload_fields [OF assms(1)] same_parts Let_def
  using assms(2)
  by (auto split: option.split sum.split prod.split intro!: with_scope_calls)

lemma loadInput_calls:
  assumes "same_payload r r'" "ipHandles ip' = ipHandles ip" "trace s = trace' s'"
  shows "trace (snd (snd (loadInput sv r vals w (ip, s)))) = trace' (snd (snd (loadInput sv' r' vals w' (ip', s'))))"
  unfolding loadInput_def same_payload_fields [OF assms(1)] same_parts Let_def Handle_def fst_conv assms(2)
  using assms(3)
  apply (auto split: option.split sum.split intro!: with_scope_calls alike_case load_alike)
  apply (auto split: prod.split sum.split)
  done

lemma mcpCall_calls:
  assumes "same_payload r r'" "trace s = trace' s'"
  shows "trace (snd (snd (mcpCall sv r vals w (ip, s)))) = trace' (snd (snd (mcpCall sv' r' vals w' (ip', s'))))"
  using assms(2) same_relays(2)
  by (auto simp: mcpCall_def Let_def same_payload_fields [OF assms(1)] same_parts split: option.split sum.split
      intro!: with_scope_calls failed_alike alike_case intro: mcp_alike)

lemma knowledgeSearch_calls:
  assumes "same_payload r r'" "trace s = trace' s'"
  shows "trace (snd (snd (knowledgeSearch sv r vals w (ip, s)))) = trace' (snd (snd (knowledgeSearch sv' r' vals w' (ip', s'))))"
  using assms(2) same_relays(3)
  by (auto simp: knowledgeSearch_def Let_def same_payload_fields [OF assms(1)] same_parts split: option.split sum.split
      intro!: with_scope_calls failed_alike alike_case intro: knowledge_alike)

lemma handlers_calls:
  assumes "same_payload r r'" "ipHandles ip' = ipHandles ip" "trace s = trace' s'"
  shows "trace (snd (snd (readInput sv r vals w (ip, s)))) = trace' (snd (snd (readInput sv' r' vals w' (ip', s'))))"
    "trace (snd (snd (unavailable sv dep r vals w (ip, s)))) = trace' (snd (snd (unavailable sv' dep r' vals w' (ip', s'))))"
    "trace (snd (snd (getScope sv r vals w (ip, s)))) = trace' (snd (snd (getScope sv' r' vals w' (ip', s'))))"
    "trace (snd (snd (getStage sv r vals w (ip, s)))) = trace' (snd (snd (getStage sv' r' vals w' (ip', s'))))"
    "trace (snd (snd (postTransfer sv r vals w (ip, s)))) = trace' (snd (snd (postTransfer sv' r' vals w' (ip', s'))))"
    "trace (snd (snd (postResult sv r vals w (ip, s)))) = trace' (snd (snd (postResult sv' r' vals w' (ip', s'))))"
    "trace (snd (snd (postProgress sv r vals w (ip, s)))) = trace' (snd (snd (postProgress sv' r' vals w' (ip', s'))))"
    "trace (snd (snd (getResult sv r vals w (ip, s)))) = trace' (snd (snd (getResult sv' r' vals w' (ip', s'))))"
  unfolding readInput_def unavailable_def getScope_def getStage_def postTransfer_def postResult_def postProgress_def
    getResult_def Let_def same_payload_fields [OF assms(1)] same_parts
  using assms(1,3)
  by (auto simp: same_payload_def split: option.split sum.split
      intro!: with_scope_calls alike_case upload_alike submit_alike progress_alike accepted_alike prior_alike)

lemmas all_calls = handlers_calls modelRelay_calls putInput_calls loadInput_calls mcpCall_calls knowledgeSearch_calls

lemma trusted_handler_calls:
  assumes "same_payload r r'" "ipHandles ip' = ipHandles ip" "trace s = trace' s'"
  shows "trace (snd (snd (trusted_handler sv h r vals w (ip, s)))) = trace' (snd (snd (trusted_handler sv' h r' vals w' (ip', s'))))"
  using assms by (cases h) (simp_all add: forbidden_def all_calls)

lemma candidate_handler_calls:
  assumes "same_payload r r'" "ipHandles ip' = ipHandles ip" "trace s = trace' s'"
  shows "trace (snd (snd (candidate_handler sv h r vals w (ip, s)))) = trace' (snd (snd (candidate_handler sv' h r' vals w' (ip', s'))))"
  using assms by (cases h) (simp_all add: forbidden_def all_calls)

text \<open>The store after a handler.\<close>

lemma with_scope_inputs:
  assumes "trace s = trace' s'"
    and "\<And>sc t t'. trace t = trace' t' \<Longrightarrow> fst (snd (go sc (ip, t))) = fst (snd (go' sc (ip, t')))"
  shows "fst (snd (with_scope sv p w (ip, s) go)) = fst (snd (with_scope sv' p w' (ip, s') go'))"
  using confirm_alike [OF assms(1), of p] assms(2)
  by (cases "srcConfirm (svScope sv) p s"; cases "srcConfirm (svScope sv') p s'")
     (simp add: with_scope_def alike_def split: sum.split)

lemma trusted_handler_inputs:
  assumes "same_payload r r'" "trace s = trace' s'"
  shows "fst (snd (trusted_handler sv h r vals w (ip, s))) = fst (snd (trusted_handler sv' h r' vals w' (ip, s')))"
proof -
  have p: "fst (snd (putInput sv r vals w (ip, s))) = fst (snd (putInput sv' r' vals w' (ip, s')))"
    unfolding putInput_def Let_def same_payload_fields [OF assms(1)] same_parts
    using assms(2) by (auto split: option.split sum.split prod.split intro!: with_scope_inputs)
  have l: "fst (snd (loadInput sv r vals w (ip, s))) = fst (snd (loadInput sv' r' vals w' (ip, s')))"
    unfolding loadInput_def Let_def same_payload_fields [OF assms(1)] same_parts
    using assms(2)
    apply (auto split: option.split intro!: with_scope_inputs alike_inputs load_alike)
    apply (auto split: prod.split sum.split)
    done
  from p l show ?thesis by (cases h) (simp_all add: unchanged_inputs forbidden_def)
qed

end

section \<open>The sockets\<close>

text \<open>
  Two states that agree on something, \<open>agree\<close>, agree on it after a refusal, and after the
  route when it keeps it.
\<close>

lemma serve_mux_agree:
  assumes "same_payload r r'" "\<And>h vals. agree (snd (run h r vals w st)) (snd (run' h r' vals w' st'))" "agree st st'"
  shows "agree (snd (serve_mux ext pats run r w st)) (snd (serve_mux ext pats run' r' w' st'))"
  using assms(2,3) by (simp add: serve_mux_def same_payload_fields [OF assms(1)] split: routed.split)

text \<open>Two requests, each on a server with its own token, that are admitted alike.\<close>

definition same_admission :: "string \<Rightarrow> string \<Rightarrow> request \<Rightarrow> request \<Rightarrow> bool" where
  "same_admission token token' r r' \<longleftrightarrow>
     lowerHex token 64 \<and> lowerHex token' 64
     \<and> same_payload r r' \<and> header_get (hrHeader r') HeaderNonce = header_get (hrHeader r) HeaderNonce
     \<and> (header_get (hrHeader r) HeaderToken = token \<longleftrightarrow> header_get (hrHeader r') HeaderToken = token')"

lemma same_admission_refl [simp]: "same_admission token token r r = lowerHex token 64"
  by (simp add: same_admission_def)

lemma refused_same:
  assumes "same_admission token token' r r'"
  shows "refused_line u token' r' = refused_line u token r" "admitted u token' r' = admitted u token r"
  using assms same_payload_fields [of r r'] by (auto simp: same_admission_def refused_line_def admitted_def)

lemma guard_agree:
  assumes "same_admission token token' r r'" "\<And>w w'. agree (snd (next r w st)) (snd (next' r' w' st'))"
    and "\<And>l. agree (noted lg l st) (noted lg' l st')"
  shows "agree (snd (guard lg u token next r w st)) (snd (guard lg' u token' next' r' w' st'))"
proof (cases "admitted u token r")
  case True
  with refused_same [OF assms(1), of u] have a: "admitted u token' r'" by simp
  from assms(1) guard_admitted [OF True] guard_admitted [OF a] show ?thesis
    using assms(2) unfolding same_admission_def by metis
next
  case False
  with refused_same [OF assms(1), of u] guard_refused [of u token r lg "next" w st] guard_refused [of u token' r' lg' next' w' st']
  show ?thesis
    using assms(3) by simp
qed

context matched_servers begin

lemma Trusted_agree:
  assumes "same_admission (svTrustedToken sv) (svTrustedToken sv') r r'" "agree st st'"
    and "\<And>h vals w w'. agree (snd (trusted_handler sv h r vals w st)) (snd (trusted_handler sv' h r' vals w' st'))"
    and "\<And>l. agree (noted (svLog sv) l st) (noted (svLog sv') l st')"
  shows "agree (snd (Trusted sv r w st)) (snd (Trusted sv' r' w' st'))"
  unfolding Trusted_def same_parts
  by (rule guard_agree [OF assms(1)], rule serve_mux_agree) (use assms in \<open>simp_all add: same_admission_def\<close>)

lemma Candidate_agree:
  assumes "same_admission (svCandidateToken sv) (svCandidateToken sv') r r'" "agree st st'"
    and "\<And>h vals w w'. agree (snd (candidate_handler sv h r vals w st)) (snd (candidate_handler sv' h r' vals w' st'))"
    and "\<And>l. agree (noted (svLog sv) l st) (noted (svLog sv') l st')"
  shows "agree (snd (Candidate sv r w st)) (snd (Candidate sv' r' w' st'))"
  unfolding Candidate_def same_parts
  by (rule guard_agree [OF assms(1)], rule serve_mux_agree) (use assms in \<open>simp_all add: same_admission_def\<close>)

lemma noted_alike:
  "trace s = trace' s' \<Longrightarrow> trace (snd (noted (svLog sv) l (ip, s))) = trace' (snd (noted (svLog sv') l (ip', s')))"
  using log_alike by (simp add: noted_def split: option.split)

text \<open>What a request leaves outside the store, and what it leaves in it.\<close>

lemma sockets_calls:
  assumes "ipHandles ip' = ipHandles ip" "trace s = trace' s'"
  shows "same_admission (svTrustedToken sv) (svTrustedToken sv') r r' \<Longrightarrow>
      trace (snd (snd (Trusted sv r w (ip, s)))) = trace' (snd (snd (Trusted sv' r' w' (ip', s'))))"
    "same_admission (svCandidateToken sv) (svCandidateToken sv') r r' \<Longrightarrow>
      trace (snd (snd (Candidate sv r w (ip, s)))) = trace' (snd (snd (Candidate sv' r' w' (ip', s'))))"
  using assms(2)
  by (intro Trusted_agree [where agree = "\<lambda>st st'. trace (snd st) = trace' (snd st')"]
        Candidate_agree [where agree = "\<lambda>st st'. trace (snd st) = trace' (snd st')"]
        trusted_handler_calls candidate_handler_calls noted_alike assms; simp add: same_admission_def)+

lemma sockets_inputs:
  assumes "trace s = trace' s'"
  shows "same_admission (svTrustedToken sv) (svTrustedToken sv') r r' \<Longrightarrow>
      fst (snd (Trusted sv r w (ip, s))) = fst (snd (Trusted sv' r' w' (ip, s')))"
    "fst (snd (Candidate sv r w (ip, s))) = fst (snd (Candidate sv' r' w' (ip, s')))"
  subgoal
    by (intro Trusted_agree [where agree = "\<lambda>st st'. fst st = fst st'"] trusted_handler_inputs assms)
       (simp_all add: same_admission_def)
  by (simp add: Candidate_same_inputs)

end

section \<open>The sidecar\<close>

lemma on_world_parts: "fst (on_world f s) = fst (f (woHist s))" "woHist (snd (on_world f s)) = snd (f (woHist s))"
  by (simp_all add: on_world_def split: prod.split)

lemma sidecar_relay:
  "svRelay (sidecar up accepts ext wi) = Some fwd \<Longrightarrow> fwd w q d s = on_world (Forward up accepts w q d) s"
  by (auto simp: sidecar_def split: if_splits)

lemma forward_blind:
  "fst (fst (Forward up accepts w q d h)) = fst (fst (Forward up accepts w' q d h))
   \<and> snd (Forward up accepts w q d h) = snd (Forward up accepts w' q d h)"
  by (simp add: Forward_def rpc_def Let_def split: sum.split)

text \<open>Under other tokens its operations are the same.\<close>

abbreviation with_tokens :: "string \<Rightarrow> string \<Rightarrow> wiring \<Rightarrow> wiring" where
  "with_tokens t c wi \<equiv> wi\<lparr>wiTrustedToken := t, wiCandidateToken := c\<rparr>"

interpretation retokened: matched_servers "sidecar up accepts ext wi" "sidecar up accepts ext (with_tokens t c wi)" "\<lambda>s. s" "\<lambda>s. s"
  for up accepts ext wi t c
proof unfold_locales
  fix fwd fwd' and s s' :: world and w q d w'
  assume "svRelay (sidecar up accepts ext wi) = Some fwd" "svRelay (sidecar up accepts ext (with_tokens t c wi)) = Some fwd'" "s = s'"
  then show "fst (fst (fwd w q d s)) = fst (fst (fwd' w' q d s')) \<and> snd (fwd w q d s) = snd (fwd' w' q d s')"
    using forward_blind [of up accepts w q d "woHist s'" w'] by (auto simp: sidecar_relay on_world_def split: prod.split)
qed (auto simp: alike_def sidecar_def split: if_splits)

lemma sidecar_retokened:
  "same_admission (wiTrustedToken wi) t r r' \<Longrightarrow>
     snd (Trusted (sidecar up accepts ext (with_tokens t c wi)) r' w' st) = snd (Trusted (sidecar up accepts ext wi) r w st)"
  "same_admission (wiCandidateToken wi) c r r' \<Longrightarrow>
     snd (Candidate (sidecar up accepts ext (with_tokens t c wi)) r' w' st) = snd (Candidate (sidecar up accepts ext wi) r w st)"
  using retokened.sockets_calls [where up = up and accepts = accepts and ext = ext and wi = wi and t = t and c = c
      and r = r and r' = r' and w = w and w' = w' and ip = "fst st" and ip' = "fst st" and s = "snd st" and s' = "snd st"]
    retokened.sockets_inputs [where up = up and accepts = accepts and ext = ext and wi = wi and t = t and c = c
      and r = r and r' = r' and w = w and w' = w' and ip = "fst st" and s = "snd st" and s' = "snd st"]
  by (simp_all add: prod_eq_iff sidecar_def)

text \<open>The outside as a process sees it whose own history is a part of a whole one.\<close>

definition seen :: "(hist \<Rightarrow> hist) \<Rightarrow> upstream \<Rightarrow> upstream" where
  "seen e up =
     \<lparr>clock = (\<lambda>h. clock up (e h)), getInstance = (\<lambda>h. getInstance up (e h)),
      beginTransfer = (\<lambda>h. beginTransfer up (e h)), finalizeTransfer = (\<lambda>h. finalizeTransfer up (e h)),
      readArtifact = (\<lambda>h. readArtifact up (e h)), acceptResult = (\<lambda>h. acceptResult up (e h)),
      getAcceptedStage = (\<lambda>h. getAcceptedStage up (e h)), recordAttemptProgress = (\<lambda>h. recordAttemptProgress up (e h)),
      newRequest = newRequest up, httpDo = (\<lambda>h. httpDo up (e h)), createModelCall = (\<lambda>h. createModelCall up (e h)),
      createCall = (\<lambda>h. createCall up (e h)), knowledgeSearchRpc = (\<lambda>h. knowledgeSearchRpc up (e h))\<rparr>"

text \<open>Each call after a history \<open>H\<close> is the call of a process that starts when \<open>H\<close> has happened.\<close>

abbreviation after :: "hist \<Rightarrow> upstream \<Rightarrow> upstream" where
  "after H \<equiv> seen ((@) H)"

lemma seen_simps [simp]:
  "clock (seen e up) h = clock up (e h)" "getInstance (seen e up) h = getInstance up (e h)"
  "beginTransfer (seen e up) h = beginTransfer up (e h)" "finalizeTransfer (seen e up) h = finalizeTransfer up (e h)"
  "readArtifact (seen e up) h = readArtifact up (e h)" "acceptResult (seen e up) h = acceptResult up (e h)"
  "getAcceptedStage (seen e up) h = getAcceptedStage up (e h)"
  "recordAttemptProgress (seen e up) h = recordAttemptProgress up (e h)" "newRequest (seen e up) = newRequest up"
  "httpDo (seen e up) h = httpDo up (e h)" "createModelCall (seen e up) h = createModelCall up (e h)"
  "createCall (seen e up) h = createCall up (e h)" "knowledgeSearchRpc (seen e up) h = knowledgeSearchRpc up (e h)"
  by (simp_all add: seen_def)

lemma bind_after:
  "m (H @ h) = apsnd ((@) H) (m' h) \<Longrightarrow> (\<And>x h. f x (H @ h) = apsnd ((@) H) (f' x h)) \<Longrightarrow>
     bind_act m f (H @ h) = apsnd ((@) H) (bind_act m' f' h)"
  by (simp add: bind_act_def split: prod.split sum.split)

lemma Lookup_after: "Lookup up ident (H @ h) = apsnd ((@) H) (Lookup (after H up) ident h)"
  by (simp add: Lookup_def rpc_def Let_def split: sum.split rpc_error.split)

lemma Confirm_after: "Confirm up ident b p (H @ h) = apsnd ((@) H) (Confirm (after H up) ident b p h)"
  unfolding Confirm_def by (rule bind_after, rule Lookup_after) (simp split: sum.split)

lemma put_after: "put up cap body (H @ h) = apsnd ((@) H) (put (after H up) cap body h)"
  by (simp add: put_def rpc_def Let_def split: option.split)

lemma read_stage_after: "read_stage up q (H @ h) = apsnd ((@) H) (read_stage (after H up) q h)"
  by (simp add: read_stage_def rpc_def split: sum.split)

lemma fetch_after: "fetch up handle t cap sz (H @ h) = apsnd ((@) H) (fetch (after H up) handle t cap sz h)"
  by (simp add: fetch_def rpc_def split: option.split)

lemma Load_after: "Load up pr sc hn mx (H @ h) = apsnd ((@) H) (Load (after H up) pr sc hn mx h)"
  using fetch_after [of up hn _ _ _ H]
  by (simp add: Load_def rpc_def Let_def split: sum.split option.split)

lemma Upload_after: "Upload up pr sc c m b (H @ h) = apsnd ((@) H) (Upload (after H up) pr sc c m b h)"
  by (auto simp: Upload_def rpc_def Let_def split: option.split sum.split intro!: bind_after put_after)

lemma Submit_after: "Submit up pr sc v fc mf (H @ h) = apsnd ((@) H) (Submit (after H up) pr sc v fc mf h)"
  by (simp add: Submit_def rpc_def split: option.split sum.split)

lemma Progress_after: "Progress up sc n st rd oc (H @ h) = apsnd ((@) H) (Progress (after H up) sc n st rd oc h)"
  by (simp add: Progress_def rpc_def split: sum.split)

lemma Forward_after: "Forward up accepts w q d (H @ h) = apsnd ((@) H) (Forward (after H up) accepts w q d h)"
  by (simp add: Forward_def rpc_def Let_def split: sum.split)

lemma Call_after: "Call up q (H @ h) = apsnd ((@) H) (Call (after H up) q h)"
  by (simp add: Call_def rpc_def)

lemma Search_after: "Search up q (H @ h) = apsnd ((@) H) (Search (after H up) q h)"
  by (simp add: Search_def rpc_def)

text \<open>The sidecar after a history, beside the one whose outside has that history behind it.\<close>

lemma resolver_Confirm_parts:
  "fst (resolver_Confirm up re p s) = fst (Confirm up (reIdentity re) (reBinding re) p (woHist s))"
  "woHist (snd (resolver_Confirm up re p s)) = snd (Confirm up (reIdentity re) (reBinding re) p (woHist s))"
  using resolver_Confirm_eq [of up re p s "fst (resolver_Confirm up re p s)" "snd (resolver_Confirm up re p s)"] by simp_all

interpretation shifted: matched_servers "sidecar up accepts ext wi" "sidecar (after H up) accepts ext wi" woHist "\<lambda>s. H @ woHist s"
  for up accepts ext wi H
proof unfold_locales
  fix fwd fwd' and s s' :: world and w q d w'
  assume "svRelay (sidecar up accepts ext wi) = Some fwd" "svRelay (sidecar (after H up) accepts ext wi) = Some fwd'"
    "woHist s = H @ woHist s'"
  then show "fst (fst (fwd w q d s)) = fst (fst (fwd' w' q d s')) \<and> woHist (snd (fwd w q d s)) = H @ woHist (snd (fwd' w' q d s'))"
    using forward_blind [of "after H up" accepts w q d "woHist s'" w'] by (simp add: sidecar_relay on_world_parts Forward_after)
qed (auto simp: alike_def sidecar_def resolver_source_def resolver_Submit_def resolver_Progress_def logged_def on_world_parts
    resolver_Confirm_parts Confirm_after Upload_after Submit_after Progress_after AcceptedStage_read_def PriorStage_def
    read_stage_after Load_after Call_after Search_after split: if_splits)

text \<open>
  The calls a request makes after a history, whatever was staged, announced and logged, are
  those it makes as the first one.
\<close>

abbreviation started :: "Envelope \<Rightarrow> Inputs \<times> world" where
  "started env \<equiv> (NewInputs env, \<lparr>woHist = [], woAnnounced = False, woLog = []\<rparr>)"

definition calls_of :: "world server \<Rightarrow> Envelope \<Rightarrow> bool \<times> request \<Rightarrow> hist" where
  "calls_of sv env job =
     woHist (snd (snd ((if fst job then Trusted sv else Candidate sv) (snd job) new_writer (started env))))"

lemma sidecar_calls:
  assumes "lowerHex (wiTrustedToken wi) 64" "lowerHex (wiCandidateToken wi) 64" "ipHandles (fst st) = ipHandles (NewInputs env)"
  shows "woHist (snd (snd ((if fst job then Trusted (sidecar up accepts ext wi) else Candidate (sidecar up accepts ext wi))
           (snd job) w st)))
    = woHist (snd st) @ calls_of (sidecar (after (woHist (snd st)) up) accepts ext wi) env job"
proof -
  define H where "H = woHist (snd st)"
  have t: "svTrustedToken (sidecar up accepts ext wi) = wiTrustedToken wi"
      "svTrustedToken (sidecar (after H up) accepts ext wi) = wiTrustedToken wi"
      "svCandidateToken (sidecar up accepts ext wi) = wiCandidateToken wi"
      "svCandidateToken (sidecar (after H up) accepts ext wi) = wiCandidateToken wi"
    by (simp_all add: sidecar_def)
  have h: "woHist (snd st) = H @ woHist (snd (started env))" by (simp add: H_def)
  note calls = shifted.sockets_calls [where up = up and accepts = accepts and ext = ext and wi = wi and H = H
      and r = "snd job" and r' = "snd job" and w = w and w' = new_writer and ip = "fst st" and ip' = "NewInputs env"
      and s = "snd st" and s' = "snd (started env)", OF assms(3) [symmetric] h, unfolded t]
  from assms(1,2) calls show ?thesis by (simp add: calls_of_def flip: H_def)
qed

end
