(* ===== verification/Secrecy.thy ===== *)
theory Secrecy
  imports Startup Bounds Independence
begin

text \<open>
  The secrets of a launch and the log.  A process that is given another launch secret and
  another bearer token, and is sent the same requests under the tokens of the other secret,
  writes the same log, makes the same calls and ends the same way: no line is of either.
\<close>

section \<open>Start-up under other secrets\<close>

definition reissued :: "string \<Rightarrow> string \<Rightarrow> Config \<Rightarrow> Config" where
  "reissued secret bearer cfg =
     cfg\<lparr>cfLaunch := cfLaunch cfg\<lparr>laSecret := secret\<rparr>, cfModelProxy := cfModelProxy cfg\<lparr>mpToken := bearer\<rparr>\<rparr>"

text \<open>Both secrets are of the format or neither is, and both tokens are there or neither is.\<close>

definition same_form :: "string \<Rightarrow> string \<Rightarrow> Config \<Rightarrow> bool" where
  "same_form secret bearer cfg \<longleftrightarrow>
     isl (ParseSecret secret) = isl (ParseSecret (laSecret (cfLaunch cfg))) \<and> (bearer = []) = (mpToken (cfModelProxy cfg) = [])"

lemma validate_reissued: "same_form secret bearer cfg \<Longrightarrow> validate up (reissued secret bearer cfg) = validate up cfg"
  by (auto simp: validate_def validate_sockets_def validate_identity_def validate_proxy_def validate_launch_def
      validate_limits_def reissued_def same_form_def Disabled_def Let_def split: sum.split)

text \<open>What a process is prepared with, under the other secret.\<close>

lemma ParseSecret_Inl: "ParseSecret s = Inl e \<Longrightarrow> e = ErrSecret"
  using hex_decode_lower [of s] by (auto simp: ParseSecret_def secretHexLen_def lowerHex_iff split: if_splits option.splits)

lemma prepare_reissued:
  assumes "same_form secret bearer cfg"
  shows "prepare ho (reissued secret bearer cfg) y =
    (case prepare ho cfg y of
       (Inl e, y') \<Rightarrow> (Inl e, y')
     | (Inr pp, y') \<Rightarrow> (Inr (pp\<lparr>ppSecret := projr (ParseSecret secret)\<rparr>), y'))"
proof -
  have i: "start_identity ho (reissued secret bearer cfg) = start_identity ho cfg"
    by (simp add: start_identity_def reissued_def fun_eq_iff)
  have d: "dial_control ho (reissued secret bearer cfg) = dial_control ho cfg"
    by (simp add: dial_control_def reissued_def fun_eq_iff launch_identity_def)
  have b: "launch_binding (reissued secret bearer cfg) = launch_binding cfg"
    by (simp add: launch_binding_def reissued_def fun_eq_iff)
  show ?thesis
    using assms ParseSecret_Inl [of secret] ParseSecret_Inl [of "laSecret (cfLaunch cfg)"]
    unfolding prepare_def i d b
    by (auto simp: reissued_def Disabled_def same_form_def isl_def split: sum.split prod.split)
qed

lemma NewRelay_token:
  assumes "(b = []) = (roToken o' = [])"
  shows "NewRelay ho (o'\<lparr>roToken := b\<rparr>) t =
    (case NewRelay ho o' t of
       (Inl e, t') \<Rightarrow> (Inl e, t')
     | (Inr (rl, f), t') \<Rightarrow>
         (Inr (rl\<lparr>pxAuthorization := if b \<noteq> [] then Some (''Bearer '' @ b) else None\<rparr>, f), t'))"
proof -
  have "roTLS (o'\<lparr>roToken := b\<rparr>) = roTLS o'" "roURL (o'\<lparr>roToken := b\<rparr>) = roURL o'" by simp_all
  then have "proxy_transport ho (o'\<lparr>roToken := b\<rparr>) = proxy_transport ho o'" unfolding proxy_transport_def [abs_def] by metis
  with assms show ?thesis
    by (cases "roTLS o' = None") (auto simp: NewRelay_def Let_def split: sum.split prod.split option.split)
qed

lemma relay_options_reissued:
  "relay_options (reissued secret bearer cfg) files =
     (case relay_options cfg files of
        Inl e \<Rightarrow> Inl e
      | Inr o' \<Rightarrow> Inr (if mpIdentityMode (cfModelProxy cfg) = IdentityMTLS then o' else o'\<lparr>roToken := bearer\<rparr>))"
  by (simp add: relay_options_def reissued_def Let_def split: option.split)

lemma start_model_reissued:
  assumes "same_form secret bearer cfg"
  shows "case start_model ho cfg files y of
    (Inl e, y') \<Rightarrow> start_model ho (reissued secret bearer cfg) files y = (Inl e, y')
  | (Inr (m, fs), y') \<Rightarrow> \<exists>m'. start_model ho (reissued secret bearer cfg) files y = (Inr (m', fs), y') \<and> (m' = None) = (m = None)"
proof (cases "mpURL (cfModelProxy cfg) = []")
  case False
  let ?mtls = "mpIdentityMode (cfModelProxy cfg) = IdentityMTLS"
  let ?y = "if ?mtls then y else says DevelopmentProxyIdentity y"
  have m: "mpIdentityMode (cfModelProxy (reissued secret bearer cfg)) = mpIdentityMode (cfModelProxy cfg)"
    "mpURL (cfModelProxy (reissued secret bearer cfg)) = mpURL (cfModelProxy cfg)" by (simp_all add: reissued_def)
  show ?thesis
  proof (cases "relay_options cfg files")
    case (Inl e)
    with False show ?thesis by (simp add: start_model_def m relay_options_reissued Let_def)
  next
    case (Inr o')
    have t: "?mtls \<or> (bearer = []) = (roToken o' = [])"
      using Inr assms by (auto simp: relay_options_def same_form_def Let_def split: option.splits if_splits)
    obtain res t' where n: "NewRelay ho o' (syTick ?y) = (res, t')" by (cases "NewRelay ho o' (syTick ?y)")
    show ?thesis
    proof (cases res)
      case (Inl e)
      with t NewRelay_token [of bearer o' ho "syTick ?y"] False Inr n show ?thesis
        by (auto simp: start_model_def m relay_options_reissued on_tick_def Let_def)
    next
      case r: (Inr v)
      obtain rl fo where "v = (rl, fo)" by (cases v)
      with t NewRelay_token [of bearer o' ho "syTick ?y"] False Inr n r show ?thesis
        by (cases fo) (auto simp: start_model_def m relay_options_reissued on_tick_def Let_def)
    qed
  qed
qed (simp add: start_model_def reissued_def)

lemma start_relays_reissued:
  assumes "same_form secret bearer cfg"
  shows "case start_relays ho cfg files y of
    (Inl e, y') \<Rightarrow> start_relays ho (reissued secret bearer cfg) files y = (Inl e, y')
  | (Inr rs, y') \<Rightarrow> \<exists>m. start_relays ho (reissued secret bearer cfg) files y = (Inr (rs\<lparr>stModel := m\<rparr>), y')
      \<and> (m = None) = (stModel rs = None)"
proof -
  have k: "start_mcp ho (reissued secret bearer cfg) = start_mcp ho cfg" "start_knowledge ho (reissued secret bearer cfg) = start_knowledge ho cfg"
    by (simp_all add: fun_eq_iff start_mcp_def start_knowledge_def reissued_def)
  show ?thesis
    using start_model_reissued [OF assms, of ho files y]
    by (auto simp: start_relays_def k split: sum.split prod.split)
qed

text \<open>The wiring of a process under other tokens.\<close>

lemma start_reissued:
  assumes "same_form secret bearer cfg"
  shows "case start ho cfg y of
    (Inl e, y') \<Rightarrow> start ho (reissued secret bearer cfg) y = (Inl e, y')
  | (Inr po, y') \<Rightarrow> \<exists>po'. start ho (reissued secret bearer cfg) y = (Inr po', y') \<and> poLayout po' = poLayout po
      \<and> poWiring po' = (poWiring po)\<lparr>wiTrustedToken := Token (projr (ParseSecret secret)) RoleTrusted,
          wiCandidateToken := Token (projr (ParseSecret secret)) RoleCandidate\<rparr>"
proof (cases "prepare ho cfg y")
  case (Pair r y1)
  have b: "bind_sockets ho (reissued secret bearer cfg) = bind_sockets ho cfg"
    by (simp add: fun_eq_iff bind_sockets_def reissued_def)
  have l: "serving_line (reissued secret bearer cfg) (rs\<lparr>stModel := m\<rparr>) = serving_line cfg rs"
    if "(m = None) = (stModel rs = None)" for rs m
    using that by (simp add: serving_line_def reissued_def)
  have w: "wiring_of (reissued secret bearer cfg) (pp\<lparr>ppSecret := sec\<rparr>) (rs\<lparr>stModel := m\<rparr>)
      = (wiring_of cfg pp rs)\<lparr>wiTrustedToken := Token sec RoleTrusted, wiCandidateToken := Token sec RoleCandidate\<rparr>"
    if "(m = None) = (stModel rs = None)" for pp sec rs m
    using that by (simp add: wiring_of_def reissued_def)
  show ?thesis
  proof (cases r)
    case (Inl e)
    with Pair show ?thesis by (simp add: start_def prepare_reissued [OF assms])
  next
    case (Inr pp)
    obtain lr y2 where bs: "bind_sockets ho cfg y1 = (lr, y2)" by fastforce
    show ?thesis
    proof (cases lr)
      case (Inl e)
      with Pair Inr bs show ?thesis by (simp add: start_def prepare_reissued [OF assms] b)
    next
      case l': (Inr layout)
      obtain res y3 where rs: "start_relays ho cfg (ppFiles pp) y2 = (res, y3)" by fastforce
      with start_relays_reissued [OF assms, of ho "ppFiles pp" y2] Pair Inr bs l' show ?thesis
        by (cases res) (auto simp: start_def prepare_reissued [OF assms] b l w)
    qed
  qed
qed

section \<open>Serving under other tokens\<close>

text \<open>
  The same requests in the same order, each with the token of its socket under one secret
  exactly when it has that of its socket under the other.
\<close>

definition same_requests :: "bytes \<Rightarrow> bytes \<Rightarrow> (bool \<times> request) list \<Rightarrow> (bool \<times> request) list \<Rightarrow> bool" where
  "same_requests secret secret' rs rs' \<longleftrightarrow>
     list_all2 (\<lambda>(trusted, r) (trusted', r'). trusted' = trusted
       \<and> (let role = (if trusted then RoleTrusted else RoleCandidate) in same_admission (Token secret role) (Token secret' role) r r')) rs rs'"

lemma serve_all_retokened:
  assumes "wiTrustedToken wi = Token secret RoleTrusted" "wiCandidateToken wi = Token secret RoleCandidate"
    "same_requests secret secret' rs rs'"
  shows "serve_all (sidecar up accepts ext (wi\<lparr>wiTrustedToken := Token secret' RoleTrusted, wiCandidateToken := Token secret' RoleCandidate\<rparr>)) rs' st
    = serve_all (sidecar up accepts ext wi) rs st"
  using assms(3)
  unfolding same_requests_def
proof (induction arbitrary: st rule: list_all2_induct)
  case (Cons x xs y ys)
  let ?sv = "sidecar up accepts ext wi"
  let ?sv' = "sidecar up accepts ext (with_tokens (Token secret' RoleTrusted) (Token secret' RoleCandidate) wi)"
  obtain b r b' r' where xy: "x = (b, r)" "y = (b', r')" by (cases x, cases y)
  with Cons.hyps(1) have a: "b' = b"
    "same_admission (Token secret (if b then RoleTrusted else RoleCandidate)) (Token secret' (if b then RoleTrusted else RoleCandidate)) r r'"
    by (simp_all add: Let_def)
  have "snd ((if b then Trusted ?sv' else Candidate ?sv') r' new_writer st) = snd ((if b then Trusted ?sv else Candidate ?sv) r new_writer st)"
    using a(2) assms(1,2) sidecar_retokened [of wi _ r r' up accepts ext] by (cases b) simp_all
  with Cons.IH show ?case by (simp add: xy a(1))
qed simp


text \<open>The bearer configuration under two secrets, and the harness staging its brief.\<close>

definition staging_under :: "bytes \<Rightarrow> request" where
  "staging_under secret =
     staging_request\<lparr>hrHeader := [(HeaderToken, Token secret RoleTrusted), (HeaderNonce, replicate 32 CHR ''0'')]\<rparr>"

lemma staging_under_same: "same_requests a b [(True, staging_under a)] [(True, staging_under b)]"
proof -
  have k: "canonical_key HeaderToken = HeaderToken" "canonical_key HeaderNonce = HeaderNonce" "HeaderNonce \<noteq> HeaderToken"
      "canonical_key ''X-Anvilkit-Class'' \<notin> {HeaderToken, HeaderNonce}" "canonical_key ''Content-Type'' \<notin> {HeaderToken, HeaderNonce}"
    by code_simp+
  then show ?thesis
    by (simp add: same_requests_def same_admission_def same_payload_def staging_under_def header_get_def Let_def Token_format)
qed


end
