(* ===== verification/Concurrent.thy ===== *)
theory Concurrent
  imports Independence Bounds "HOL-Library.Sublist"
begin

text \<open>
  Requests served at the same time.  Each request of internal/server/server.go runs on its own
  goroutine, so the calls it makes of the outside interleave with those of the others; what one
  request leaves for another, the staged bytes and the lines of the log, changes none of its
  calls (\<open>sidecar_calls\<close>).  An interleaving is therefore a history of calls,
  each with the number of its request, in which every request makes the calls it makes alone,
  with the answers the outside gave when they were asked.  The properties of a single request's
  calls carry over (\<open>interleaved_all\<close>), with the authority read at the place in the whole history where
  this request asked for it.
\<close>

section \<open>A labelled history\<close>

type_synonym labelled = "(nat \<times> event) list"

definition own :: "nat \<Rightarrow> labelled \<Rightarrow> hist" where
  "own i G = map snd (filter (\<lambda>x. fst x = i) G)"

text \<open>What was asked before the \<open>k\<close>-th call of a request: everything when it has not made it.\<close>

fun before :: "nat \<Rightarrow> nat \<Rightarrow> labelled \<Rightarrow> labelled" where
  "before i k [] = []"
| "before i k ((j, ev) # G) =
     (if j = i then (case k of 0 \<Rightarrow> [] | Suc m \<Rightarrow> (j, ev) # before i m G) else (j, ev) # before i k G)"

lemma own_simps [simp]:
  "own i [] = []" "own i ((j, ev) # G) = (if j = i then ev # own i G else own i G)" "own i (G @ G') = own i G @ own i G'"
  by (simp_all add: own_def)

lemma before_take: "before i k G = take (length (before i k G)) G"
  by (induction i k G rule: before.induct) (auto split: nat.split)

lemma before_own:
  "k < length (own i G) \<Longrightarrow> length (before i k G) < length G \<and> G ! length (before i k G) = (i, own i G ! k)"
  by (induction i k G rule: before.induct) (auto split: nat.split)

lemma before_mono:
  "k < m \<Longrightarrow> k < length (own i G) \<Longrightarrow> length (before i k G) < length (before i m G)"
  by (induction i k G arbitrary: m rule: before.induct) (auto split: nat.split)

section \<open>Interleavings\<close>

text \<open>The whole history with the calls of a request replaced by those of \<open>h\<close>, up to the first one missing.\<close>

fun view :: "nat \<Rightarrow> labelled \<Rightarrow> hist \<Rightarrow> hist" where
  "view i [] h = h"
| "view i ((j, ev) # G) h =
     (if j = i then (case h of [] \<Rightarrow> [] | e # rest \<Rightarrow> e # view i G rest) else ev # view i G h)"

lemma view_own: "k \<le> length (own i G) \<Longrightarrow> view i G (take k (own i G)) = map snd (before i k G)"
  by (induction i k G rule: before.induct) (auto split: nat.split)

lemma view_append: "list_all (\<lambda>x. fst x \<noteq> i) G \<Longrightarrow> view i (G @ G') h = map snd G @ view i G' h"
  by (induction G) auto

lemma view_last: "view i (map (Pair i) cs) h = h"
  by (induction cs arbitrary: h) (auto split: list.split)

text \<open>
  One more call: any request may be the next, with the call it makes after the answers it got
  so far.
\<close>

inductive interleaved :: "upstream \<Rightarrow> (writer \<Rightarrow> bytes \<Rightarrow> bool) \<Rightarrow> externals \<Rightarrow> wiring \<Rightarrow> Envelope \<Rightarrow> (bool \<times> request) list
    \<Rightarrow> labelled \<Rightarrow> bool"
  for up accepts ext wi env jobs where
  nothing: "interleaved up accepts ext wi env jobs []"
| call: "interleaved up accepts ext wi env jobs G \<Longrightarrow> i < length jobs \<Longrightarrow>
      prefix (own i G @ [ev]) (calls_of (sidecar (seen (view i G) up) accepts ext wi) env (jobs ! i)) \<Longrightarrow>
      interleaved up accepts ext wi env jobs (G @ [(i, ev)])"

lemma interleaved_call:
  "interleaved up accepts ext wi env jobs G \<Longrightarrow> G = pre @ (i, ev) # post \<Longrightarrow>
     i < length jobs \<and> prefix (own i pre @ [ev]) (calls_of (sidecar (seen (view i pre) up) accepts ext wi) env (jobs ! i))"
proof (induction arbitrary: post rule: interleaved.induct)
  case (call G j ev')
  show ?case
  proof (cases post rule: rev_cases)
    case Nil
    with call.prems call.hyps show ?thesis by simp
  next
    case (snoc rest x)
    with call.prems call.IH [of rest] show ?thesis by simp
  qed
qed simp

section \<open>The calls of a request in an interleaving\<close>

lemma calls_authorized: "authorized (confirmed up wi) [] (calls_of (sidecar up accepts ext wi) env job)"
  using live.Trusted_within [unfolded live.within_def, of up accepts ext wi "snd job" new_writer "started env"]
    live.Candidate_within [unfolded live.within_def, of up accepts ext wi "snd job" new_writer "started env"]
  by (auto simp: calls_of_def)

text \<open>A scope that was confirmed by the request's own question and its own reading of the clock.\<close>

definition confirmed_at :: "upstream \<Rightarrow> resolver \<Rightarrow> nat \<Rightarrow> labelled \<Rightarrow> Purpose \<Rightarrow> Scope \<Rightarrow> bool" where
  "confirmed_at up re i G p sc \<longleftrightarrow>
     (\<exists>a b resp. a < b \<and> b < length G
        \<and> G ! a = (i, GetInstance (instance_query (reIdentity re))) \<and> G ! b = (i, ReadClock)
        \<and> getInstance up (map snd (take a G)) (instance_query (reIdentity re)) = Inr resp
        \<and> same_pod (reIdentity re) resp
        \<and> authority (registration_of resp) (reBinding re) (clock up (map snd (take b G))) p
        \<and> sc = rgScope (registration_of resp))"

lemma confirmed_in_view:
  assumes "confirmed (seen (view i G) up) wi p sc asks" "prefix asks (own i G)"
  shows "confirmed_at up (wiResolver wi) i G p sc"
proof -
  let ?q = "instance_query (reIdentity (wiResolver wi))"
  from assms(1) obtain h resp where c: "getInstance up (view i G h) ?q = Inr resp" "same_pod (reIdentity (wiResolver wi)) resp"
      "authority (registration_of resp) (reBinding (wiResolver wi)) (clock up (view i G (h @ [GetInstance ?q]))) p"
      "sc = rgScope (registration_of resp)" "asks = h @ [GetInstance ?q, ReadClock]"
    by (auto simp: confirmed_def Confirm_Inr)
  define a where "a = length (before i (length h) G)"
  define b where "b = length (before i (Suc (length h)) G)"
  from assms(2) c(5) obtain rest where o: "own i G = h @ GetInstance ?q # ReadClock # rest"
    by (auto elim!: prefixE)
  have "a < b" unfolding a_def b_def by (rule before_mono) (simp_all add: o)
  moreover have "b < length G" "G ! b = (i, ReadClock)" "G ! a = (i, GetInstance ?q)"
    using before_own [of "length h" i G] before_own [of "Suc (length h)" i G] o by (simp_all add: a_def b_def nth_append)
  moreover have "view i G h = map snd (take a G)" "view i G (h @ [GetInstance ?q]) = map snd (take b G)"
    using view_own [of "length h" i G] view_own [of "Suc (length h)" i G] by (simp_all add: a_def b_def o flip: before_take)
  ultimately show ?thesis using c unfolding confirmed_at_def by metis
qed

text \<open>
  C5: Requests served at the same time act under authority: whatever the interleaving of
  their calls, a call that is not itself a question about the registration was made after this
  very request asked Control for the registration and then read the clock, and it is a call under
  the scope Control answered there, for a purpose that scope had authority for at that clock.
\<close>

theorem interleaved_requests_act_with_authority:
  assumes "interleaved up accepts ext wi env jobs (pre @ (i, ev) # post)" "\<not> asking ev"
  shows "\<exists>p sc. confirmed_at up (wiResolver wi) i pre p sc \<and> scoped p sc ev"
proof -
  let ?up = "seen (view i pre) up"
  let ?calls = "calls_of (sidecar ?up accepts ext wi) env (jobs ! i)"
  from interleaved_call [OF assms(1) refl] obtain rest where c: "?calls = own i pre @ ev # rest"
    by (auto elim!: prefixE)
  then have "\<not> list_all asking ?calls" using assms(2) by simp
  then obtain p sc asks acts where s: "?calls = asks @ acts" "list_all asking asks"
      "confirmed ?up wi p sc asks" "list_all (scoped p sc) acts"
    using calls_authorized [of ?up wi accepts ext env "jobs ! i"] by (auto simp: authorized_def)
  from c s(1) have "asks @ acts = own i pre @ ev # rest" by simp
  then obtain us where "asks = own i pre @ us \<and> us @ acts = ev # rest \<or> asks @ us = own i pre \<and> acts = us @ ev # rest"
    by (auto simp: append_eq_append_conv2)
  then have "prefix asks (own i pre) \<and> ev \<in> set acts"
    using s(2) assms(2) by (cases us) (auto intro: prefixI [OF sym])
  with s(4) confirmed_in_view [OF s(3)] show ?thesis by (auto simp: list_all_iff)
qed

text \<open>What holds of every call of a request alone holds of its calls among others.\<close>

lemma interleaved_all:
  assumes "interleaved up accepts ext wi env jobs G"
    and "\<And>up job. list_all (P job) (calls_of (sidecar up accepts ext wi) env job)"
  shows "list_all (\<lambda>(i, ev). P (jobs ! i) ev) G"
  using assms(1)
proof (induction rule: interleaved.induct)
  case (call G i ev)
  with assms(2) [of "jobs ! i" "seen (view i G) up"] show ?case by (auto elim!: prefixE)
qed simp

lemma interleaved_candidates_are_confined:
  assumes "interleaved up accepts ext wi env jobs G"
  shows "list_all (\<lambda>(i, ev). fst (jobs ! i) \<or> candidate_call ev) G"
proof (rule interleaved_all [OF assms])
  fix up job
  show "list_all (\<lambda>ev. fst job \<or> candidate_call ev) (calls_of (sidecar up accepts ext wi) env job)"
    using live.Candidate_extends [unfolded live.adds_def, of up accepts ext wi "snd job" new_writer "started env"]
    by (cases "fst job") (auto simp: calls_of_def list_all_iff)
qed

lemma interleaved_calls_are_sized:
  assumes "interleaved up accepts ext wi env jobs G"
  shows "list_all (\<lambda>(i, ev). sized (wiLimits wi) ev) G"
proof (rule interleaved_all [OF assms])
  fix up job
  have "svLimits (sidecar up accepts ext wi) = wiLimits wi" by (simp add: sidecar_def)
  then show "list_all (sized (wiLimits wi)) (calls_of (sidecar up accepts ext wi) env job)"
    using bounded.serve_all_sized [of up accepts ext wi "started env" "[job]"]
    by (cases job) (auto simp: calls_of_def live.adds_def)
qed

section \<open>One request after the other\<close>

lemma interleaved_more: "interleaved up accepts ext wi env jobs G \<Longrightarrow> interleaved up accepts ext wi env (jobs @ later) G"
proof (induction rule: interleaved.induct)
  case (call G i ev)
  then show ?case by (intro interleaved.call) (simp_all add: nth_append)
qed (rule interleaved.nothing)

lemma interleaved_labels: "interleaved up accepts ext wi env jobs G \<Longrightarrow> list_all (\<lambda>x. fst x < length jobs) G"
  by (induction rule: interleaved.induct) simp_all

text \<open>The next request makes all its calls after those of the ones before it.\<close>

lemma interleaved_next:
  fixes job
  assumes "interleaved up accepts ext wi env jobs G"
  defines "cs \<equiv> calls_of (sidecar (after (map snd G) up) accepts ext wi) env job"
  shows "k \<le> length cs \<Longrightarrow>
    interleaved up accepts ext wi env (jobs @ [job]) (G @ map (Pair (length jobs)) (take k cs))"
proof (induction k)
  case 0
  then show ?case using interleaved_more [OF assms(1)] by simp
next
  case (Suc k)
  let ?n = "length jobs" and ?G = "G @ map (Pair (length jobs)) (take k cs)"
  from interleaved_labels [OF assms(1)] have l: "list_all (\<lambda>x. fst x \<noteq> ?n) G" by (auto simp: list_all_iff)
  then have own: "own ?n G = []" "own ?n (map (Pair ?n) (take k cs)) = take k cs"
    by (auto simp: own_def filter_empty_conv list_all_iff comp_def)
  have "view ?n ?G = (@) (map snd G)"
    by (rule ext) (simp add: view_append [OF l] view_last)
  then have "prefix (own ?n ?G @ [cs ! k]) (calls_of (sidecar (seen (view ?n ?G) up) accepts ext wi) env ((jobs @ [job]) ! ?n))"
    using Suc.prems own by (simp add: take_is_prefix flip: cs_def take_Suc_conv_app_nth)
  from interleaved.call [OF _ _ this] Suc show ?case by (simp add: take_Suc_conv_app_nth)
qed

lemma serve_all_snoc:
  "serve_all sv (rs @ [job]) st = snd ((if fst job then Trusted sv else Candidate sv) (snd job) new_writer (serve_all sv rs st))"
  by (induction sv rs st rule: serve_all.induct) (cases job; simp)+

lemma serve_all_handles: "ipHandles (fst (serve_all sv rs st)) = ipHandles (fst st)"
proof (induction rs rule: rev_induct)
  case (snoc job rs)
  have "stages_only ip ip' \<Longrightarrow> ipHandles ip' = ipHandles ip" for ip ip'
    by (auto simp: stages_only_def Stage_input_def split: option.split if_splits)
  with snoc Trusted_stages [of "serve_all sv rs st" sv "snd job" new_writer] show ?case
    by (simp add: serve_all_snoc Candidate_same_inputs)
qed simp

text \<open>
  C7: Every sequence of requests, each served to its end before the next, is one of the
  interleavings: the calls the process makes, serving them with everything the earlier ones
  left staged and logged, are the calls of a labelled history in which each request makes its
  calls after those before it.
\<close>

theorem served_sequences_are_interleavings:
  "\<exists>G. interleaved up accepts ext (with_tokens (Token secret RoleTrusted) (Token secret RoleCandidate) wi) env rs G
     \<and> map snd G = woHist (snd (serve_all
         (sidecar up accepts ext (with_tokens (Token secret RoleTrusted) (Token secret RoleCandidate) wi)) rs (started env)))"
proof (induction rs rule: rev_induct)
  case Nil
  then show ?case by (auto intro: interleaved.nothing)
next
  case (snoc job rs)
  let ?wi = "with_tokens (Token secret RoleTrusted) (Token secret RoleCandidate) wi"
  let ?st = "serve_all (sidecar up accepts ext ?wi) rs (started env)"
  from snoc.IH obtain G where G: "interleaved up accepts ext ?wi env rs G" "map snd G = woHist (snd ?st)" by blast
  let ?cs = "calls_of (sidecar (after (map snd G) up) accepts ext ?wi) env job"
  have "woHist (snd (serve_all (sidecar up accepts ext ?wi) (rs @ [job]) (started env))) = map snd G @ ?cs"
    unfolding serve_all_snoc G(2)
    by (rule sidecar_calls) (simp_all add: Token_format serve_all_handles)
  moreover have "map snd (G @ map (Pair (length rs)) ?cs) = map snd G @ ?cs"
    by (simp add: comp_def)
  ultimately show ?case using interleaved_next [OF G(1), of "length ?cs" job] by auto
qed

section \<open>A sample\<close>

text \<open>Two requests of the harness for the accepted result, the second served inside the first.\<close>

definition result_request :: request where
  "result_request = staging_request\<lparr>hrMethod := ''GET'', hrRequestURI := ''/v1/results'',
     hrEscapedPath := ''/v1/results'', hrBody := []\<rparr>"

definition stage_query :: GetAcceptedStageRequest where
  "stage_query = \<lparr>gsAttemptId = ''att-1'', gsTenantId = ''tenant-1'', gsOperationId = []\<rparr>"

abbreviation "sample_query \<equiv> GetInstance (instance_query sample_identity)"

lemma sample_seen: "seen e sample_upstream = sample_upstream"
  by (simp add: seen_def sample_upstream_def refused_def [abs_def])

lemma sample_calls:
  "calls_of sample_sidecar env (True, result_request) = [sample_query, ReadClock, GetAcceptedStage stage_query]"
proof -
  have a: "admitted 10000 (replicate 64 CHR ''a'') result_request" "lowerHex (replicate 64 CHR ''a'') 64"
    by code_simp+
  have r: "find_handler trusted_patterns (hrMethod result_request) (hrEscapedPath result_request) = Found T_GetResult []"
    by code_simp
  have n: "hrRequestURI result_request \<noteq> ''*''" by (simp add: result_request_def)
  have f: "svTrustedUID sample_sidecar = 10000" "svTrustedToken sample_sidecar = replicate 64 CHR ''a''"
    by (simp_all add: sidecar_def sample_wiring_def del: replicate.simps)
  obtain w where g: "Trusted sample_sidecar result_request new_writer (started env) =
      getResult sample_sidecar result_request [] w (started env)"
    using guard_admitted [OF a, of "svLog sample_sidecar" _ new_writer "started env"] r n
    unfolding Trusted_def f by (metis (no_types, lifting) serve_mux_def routed.simps trusted_handler.simps)
  have c: "resolver_Confirm sample_upstream (wiResolver sample_wiring) ForResult (snd (started env)) =
      (Inr sample_scope, logged (ScopeConfirmed (scAttemptID sample_scope) (scInstanceID sample_scope) (scDeadline sample_scope))
         \<lparr>woHist = [sample_query, ReadClock], woAnnounced = True, woLog = []\<rparr>)"
    using sample_confirm [of ForResult] by (simp add: resolver_Confirm_def on_world_def sample_wiring_def)
  have q: "AcceptedStage_read sample_upstream sample_scope h = (Inl (refusal (Status Unavailable ''down'')), h @ [GetAcceptedStage stage_query])" for h
    by (simp add: AcceptedStage_read_def read_stage_def rpc_def sample_upstream_def refused_def stage_query_def sample_scope_def
        sample_registration_def registration_of_def sample_response_def sample_attempt_def Let_def)
  show ?thesis
    using c unfolding calls_of_def fst_conv snd_conv if_True g
    by (simp add: getResult_def with_scope_def sidecar_def resolver_source_def on_world_def q logged_def)
qed

text \<open>Both ask Control first, and the second reads the clock before the first does.\<close>

theorem interleaved_requests_act_with_authority_witness:
  "\<exists>p sc. confirmed_at sample_upstream (wiResolver sample_wiring) 0
       [(0, sample_query), (1, sample_query), (1, ReadClock), (0, ReadClock)] p sc
     \<and> scoped p sc (GetAcceptedStage stage_query)"
proof (rule interleaved_requests_act_with_authority)
  note step = interleaved.call [where up = sample_upstream and accepts = "\<lambda>w b. True" and ext = sample_externals
      and wi = sample_wiring and env = sample_envelope and jobs = "[(True, result_request), (True, result_request)]",
      unfolded sample_seen]
  note run = interleaved.nothing [THEN step, THEN step, THEN step, THEN step, THEN step, THEN step]
  show "interleaved sample_upstream (\<lambda>w b. True) sample_externals sample_wiring sample_envelope
      [(True, result_request), (True, result_request)]
      ([(0, sample_query), (1, sample_query), (1, ReadClock), (0, ReadClock)]
        @ (0, GetAcceptedStage stage_query) # [(1, GetAcceptedStage stage_query)])"
    using run [of 0 sample_query 1 sample_query 1 ReadClock 0 ReadClock 0 "GetAcceptedStage stage_query" 1 "GetAcceptedStage stage_query"]
    by (simp add: sample_calls)
qed simp

end
